(* ===== verification/Prelude.thy ===== *)
theory Prelude
  imports Main "HOL-Library.Word" "HOL-Library.Char_ord" "HOL-Library.List_Lexorder"
    "HOL-Library.AList"
begin

text \<open>
  The prelude of the development: Go errors and fallible results, the loops that convert a
  slice element by element, and generic facts on sorting and on sums that the components share.

  A Go error is represented by the sentinel values that \<^verbatim>\<open>errors.Is\<close> finds in its chain.
  \<^verbatim>\<open>fmt.Errorf("%w: text", s)\<close> is the one-element list \<open>[s]\<close>, \<^verbatim>\<open>fmt.Errorf("%w: %w", s, e)\<close>
  is \<open>s # e\<close>, and an error that wraps nothing (or flattens its cause with \<^verbatim>\<open>%v\<close>) is \<open>[]\<close>.
  Message texts are not represented: no branch of the program reads them. A run-time panic is the
  pseudo-error \<open>[RuntimePanic]\<close>, which no code of the program looks for.
\<close>

named_theorems res_simps \<open>inversion rules for fallible results\<close>

section \<open>Errors\<close>

datatype DomainError =
    ErrInvalidActionType
  | ErrInvalidDecisionType
  | ErrInvalidRequiredActionType
  | ErrInvalidPolicyEffectType
  | ErrInvalidReasonCode
  | ErrInvalidPrincipalType
  | ErrInvalidDigest
  | ErrInvalidArgument
  | ErrInvariantViolation

datatype ApplicationError =
    ErrInvalidInput
  | ErrRequestIDConflict
  | ErrPolicyUnavailable
  | ErrLedgerFailure
  | ErrEvaluationNotFound
  | ErrIDGeneration
  | ErrClockFailure
  | ErrRuntimeIdentityConflict

datatype AuthError = ErrCredentialMissing | ErrCredentialInvalid

datatype sentinel =
    Domain DomainError
  | Application ApplicationError
  | Auth AuthError
  | ErrInvalidSchemaVersion
  | RuntimePanic

type_synonym goerr = "sentinel list"

type_synonym 'a res = "goerr + 'a"

definition errors_Is :: "goerr \<Rightarrow> sentinel \<Rightarrow> bool" where
  "errors_Is e s \<longleftrightarrow> s \<in> set e"

section \<open>Fallible results\<close>

definition res_bind :: "'a res \<Rightarrow> ('a \<Rightarrow> 'b res) \<Rightarrow> 'b res" where
  "res_bind r f = (case r of Inl e \<Rightarrow> Inl e | Inr x \<Rightarrow> f x)"

text \<open>\<open>res_wrap s r\<close> is the Go idiom that returns \<^verbatim>\<open>fmt.Errorf("%w: %w", s, err)\<close>.\<close>

definition res_wrap :: "sentinel \<Rightarrow> 'a res \<Rightarrow> 'a res" where
  "res_wrap s r = (case r of Inl e \<Rightarrow> Inl (s # e) | Inr x \<Rightarrow> Inr x)"

text \<open>\<open>res_replace e r\<close> drops the cause and reports \<open>e\<close> instead.\<close>

definition res_replace :: "goerr \<Rightarrow> 'a res \<Rightarrow> 'a res" where
  "res_replace e r = (case r of Inl _ \<Rightarrow> Inl e | Inr x \<Rightarrow> Inr x)"

definition is_ok :: "'a res \<Rightarrow> bool" where
  "is_ok r = (case r of Inl _ \<Rightarrow> False | Inr _ \<Rightarrow> True)"

definition guard_res :: "bool \<Rightarrow> goerr \<Rightarrow> unit res" where
  "guard_res ok e = (if ok then Inr () else Inl e)"

text \<open>The loop \<^verbatim>\<open>for _, x := range xs { y, err := f(x); if err != nil { return err }; out = append(out, y) }\<close>.\<close>

fun res_mapM :: "('a \<Rightarrow> 'b res) \<Rightarrow> 'a list \<Rightarrow> 'b list res" where
  "res_mapM f [] = Inr []"
| "res_mapM f (x # xs) = res_bind (f x) (\<lambda>y. res_bind (res_mapM f xs) (\<lambda>ys. Inr (y # ys)))"

lemma res_bind_simps [simp]:
  "res_bind (Inl e) f = Inl e"
  "res_bind (Inr x) f = f x"
  by (simp_all add: res_bind_def)

lemma res_bind_Inr_iff [res_simps]: "res_bind r f = Inr y \<longleftrightarrow> (\<exists>x. r = Inr x \<and> f x = Inr y)"
  by (auto simp: res_bind_def split: sum.splits)

lemma res_bind_Inl_iff [res_simps]:
  "res_bind r f = Inl e \<longleftrightarrow> r = Inl e \<or> (\<exists>x. r = Inr x \<and> f x = Inl e)"
  by (auto simp: res_bind_def split: sum.splits)

lemma res_wrap_simps [simp]:
  "res_wrap s (Inl e) = Inl (s # e)"
  "res_wrap s (Inr x) = Inr x"
  by (simp_all add: res_wrap_def)

lemma res_wrap_Inr_iff [res_simps]: "res_wrap s r = Inr y \<longleftrightarrow> r = Inr y"
  by (auto simp: res_wrap_def split: sum.splits)

lemma res_wrap_Inl_iff [res_simps]: "res_wrap s r = Inl e \<longleftrightarrow> (\<exists>e'. r = Inl e' \<and> e = s # e')"
  by (auto simp: res_wrap_def split: sum.splits)

lemma res_replace_simps [simp]:
  "res_replace e (Inl e') = Inl e"
  "res_replace e (Inr x) = Inr x"
  by (simp_all add: res_replace_def)

lemma res_replace_Inr_iff [res_simps]: "res_replace e r = Inr y \<longleftrightarrow> r = Inr y"
  by (auto simp: res_replace_def split: sum.splits)

lemma res_replace_Inl_iff [res_simps]: "res_replace e r = Inl e' \<longleftrightarrow> e' = e \<and> \<not> is_ok r"
  by (auto simp: res_replace_def is_ok_def split: sum.splits)

lemma is_ok_simps [simp]:
  "is_ok (Inr x)"
  "\<not> is_ok (Inl e)"
  by (simp_all add: is_ok_def)

lemma is_ok_iff: "is_ok r \<longleftrightarrow> (\<exists>x. r = Inr x)"
  by (cases r) auto

lemma is_ok_res_bind [res_simps]: "is_ok (res_bind r f) \<longleftrightarrow> (\<exists>x. r = Inr x \<and> is_ok (f x))"
  by (cases r) auto

lemma is_ok_res_wrap [simp]: "is_ok (res_wrap s r) = is_ok r"
  by (cases r) auto

lemma is_ok_res_replace [simp]: "is_ok (res_replace e r) = is_ok r"
  by (cases r) auto

lemma guard_res_simps [simp]:
  "guard_res True e = Inr ()"
  "guard_res False e = Inl e"
  by (simp_all add: guard_res_def)

lemma guard_res_Inr_iff [res_simps]: "guard_res b e = Inr u \<longleftrightarrow> b"
  by (simp add: guard_res_def)

lemma guard_res_Inl_iff [res_simps]: "guard_res b e = Inl e' \<longleftrightarrow> \<not> b \<and> e' = e"
  by (auto simp: guard_res_def)

lemma is_ok_guard_res [simp]: "is_ok (guard_res b e) = b"
  by (simp add: guard_res_def)

lemma res_mapM_Inr_iff: "res_mapM f xs = Inr ys \<longleftrightarrow> list_all2 (\<lambda>x y. f x = Inr y) xs ys"
  by (induction xs arbitrary: ys) (auto simp: res_simps list_all2_Cons1)

lemma res_mapM_cong_Inr: "(\<And>x. x \<in> set xs \<Longrightarrow> f x = Inr (g x)) \<Longrightarrow> res_mapM f xs = Inr (map g xs)"
  by (induction xs) auto

lemma list_all2_set_right: "list_all2 P xs ys \<Longrightarrow> y \<in> set ys \<Longrightarrow> \<exists>x \<in> set xs. P x y"
  by (induction rule: list_all2_induct) auto

lemma res_mapM_all:
  assumes "res_mapM f xs = Inr ys" and "\<And>x y. x \<in> set xs \<Longrightarrow> f x = Inr y \<Longrightarrow> P y"
  shows "\<forall>y \<in> set ys. P y"
proof
  fix y
  assume "y \<in> set ys"
  with assms(1) obtain x where "x \<in> set xs" and "f x = Inr y"
    by (auto simp: res_mapM_Inr_iff dest: list_all2_set_right)
  then show "P y" by (rule assms(2))
qed

section \<open>Sorted slices without duplicates\<close>

definition sorted_set :: "'a::linorder list \<Rightarrow> 'a list" where
  "sorted_set xs = sort (remdups xs)"

lemma set_sorted_set [simp]: "set (sorted_set xs) = set xs"
  by (simp add: sorted_set_def)

lemma sorted_sorted_set [simp]: "sorted (sorted_set xs)"
  by (simp add: sorted_set_def)

lemma distinct_sorted_set [simp]: "distinct (sorted_set xs)"
  by (simp add: sorted_set_def)

lemma sorted_set_id: "sorted xs \<Longrightarrow> distinct xs \<Longrightarrow> sorted_set xs = xs"
  by (simp add: sorted_set_def distinct_remdups_id sorted_sort_id)

lemma sorted_set_idem [simp]: "sorted_set (sorted_set xs) = sorted_set xs"
  by (simp add: sorted_set_id)

lemma sorted_set_eq_iff: "sorted_set xs = sorted_set ys \<longleftrightarrow> set xs = set ys"
  by (metis set_sorted_set sorted_sorted_set distinct_sorted_set sorted_distinct_set_unique)

lemma length_sorted_set: "length (sorted_set xs) \<le> length xs"
  by (simp add: sorted_set_def)

lemma sorted_set_Nil_iff [simp]: "sorted_set xs = [] \<longleftrightarrow> xs = []"
  by (metis set_sorted_set set_empty)

section \<open>Go maps filled from a slice and read back in key order\<close>

text \<open>
  The idiom \<^verbatim>\<open>unique[key(x)] = x\<close> for every \<open>x\<close>, then collect the keys, \<^verbatim>\<open>sort.Strings(keys)\<close> and
  append \<^verbatim>\<open>unique[key]\<close>: a later element replaces an earlier one with the same key.
\<close>

definition go_map_fill :: "('a \<Rightarrow> 'k) \<Rightarrow> 'a list \<Rightarrow> ('k \<times> 'a) list" where
  "go_map_fill key xs = fold (\<lambda>x m. AList.update (key x) x m) xs []"

definition go_map_sorted_values :: "('k::linorder \<times> 'a) list \<Rightarrow> 'a list" where
  "go_map_sorted_values m = map (\<lambda>k. the (map_of m k)) (sort (map fst m))"

definition unique_by_key :: "('a \<Rightarrow> 'k::linorder) \<Rightarrow> 'a list \<Rightarrow> 'a list" where
  "unique_by_key key xs = go_map_sorted_values (go_map_fill key xs)"

lemma go_map_fill_snoc:
  "go_map_fill key (xs @ [x]) = AList.update (key x) x (go_map_fill key xs)"
  by (simp add: go_map_fill_def)

lemma set_keys_go_map_fill [simp]: "fst ` set (go_map_fill key xs) = key ` set xs"
proof (induction xs rule: rev_induct)
  case (snoc x xs)
  then show ?case by (simp add: go_map_fill_snoc dom_update)
qed (simp add: go_map_fill_def)

lemma distinct_keys_go_map_fill [simp]: "distinct (map fst (go_map_fill key xs))"
  by (induction xs rule: rev_induct)
    (simp_all add: go_map_fill_snoc distinct_update, simp add: go_map_fill_def)

lemma map_of_go_map_fill:
  "inj_on key (set xs) \<Longrightarrow> x \<in> set xs \<Longrightarrow> map_of (go_map_fill key xs) (key x) = Some x"
proof (induction xs rule: rev_induct)
  case (snoc y xs)
  show ?case
  proof (cases "key x = key y")
    case True
    have "x = y" by (rule inj_onD [OF snoc.prems(1) True]) (use snoc.prems(2) in auto)
    then show ?thesis by (simp add: go_map_fill_snoc update_conv')
  next
    case False
    then show ?thesis using snoc by (auto simp: go_map_fill_snoc update_conv')
  qed
qed simp

lemma keys_go_map_fill: "sort (map fst (go_map_fill key xs)) = sorted_set (map key xs)"
proof -
  have "sort (map fst (go_map_fill key xs)) = sorted_set (map fst (go_map_fill key xs))"
    by (simp add: sorted_set_def distinct_remdups_id)
  then show ?thesis by (simp add: sorted_set_eq_iff)
qed

lemma map_key_unique_by_key:
  assumes "inj_on key (set xs)"
  shows "map key (unique_by_key key xs) = sorted_set (map key xs)"
  unfolding unique_by_key_def go_map_sorted_values_def keys_go_map_fill
  by (auto simp: comp_def map_of_go_map_fill [OF assms] simp del: map_of_eq_Some_iff intro!: map_idI)

lemma set_unique_by_key:
  assumes "inj_on key (set xs)"
  shows "set (unique_by_key key xs) = set xs"
  unfolding unique_by_key_def go_map_sorted_values_def keys_go_map_fill
  by (auto simp: image_iff map_of_go_map_fill [OF assms] simp del: map_of_eq_Some_iff)

lemma map_inj_on_eq:
  assumes "map f xs = map f ys" "inj_on f (set xs \<union> set ys)"
  shows "xs = ys"
  using assms by (rule map_inj_on)

lemma unique_by_key_set_eq:
  assumes "inj_on key (set xs)" "set xs = set ys"
  shows "unique_by_key key xs = unique_by_key key ys"
proof (rule map_inj_on_eq)
  have inj: "inj_on key (set ys)" using assms by simp
  show "map key (unique_by_key key xs) = map key (unique_by_key key ys)"
    using assms by (simp add: map_key_unique_by_key inj sorted_set_eq_iff)
  show "inj_on key (set (unique_by_key key xs) \<union> set (unique_by_key key ys))"
    using assms by (simp add: set_unique_by_key inj)
qed

lemma unique_by_key_idem:
  assumes "inj_on key (set xs)"
  shows "unique_by_key key (unique_by_key key xs) = unique_by_key key xs"
  by (rule unique_by_key_set_eq) (simp_all add: set_unique_by_key assms)

lemma length_unique_by_key: "length (unique_by_key key xs) \<le> length xs"
  unfolding unique_by_key_def go_map_sorted_values_def keys_go_map_fill
  using length_sorted_set [of "map key xs"] by simp

lemma unique_by_key_Nil_iff [simp]: "unique_by_key key xs = [] \<longleftrightarrow> xs = []"
  unfolding unique_by_key_def go_map_sorted_values_def keys_go_map_fill by simp

end
