(* ===== verification/GoText.thy ===== *)
theory GoText
  imports Prelude "HOL-Library.Sublist"
begin

text \<open>
  The parts of Go's \<^verbatim>\<open>strings\<close>, \<^verbatim>\<open>unicode\<close> and \<^verbatim>\<open>unicode/utf8\<close> packages the program uses.
  A Go string is a sequence of bytes, so it is a \<^typ>\<open>string\<close> whose characters are bytes and
  whose \<^const>\<open>length\<close> is Go's \<^verbatim>\<open>len\<close>. Runes are natural numbers.
\<close>

section \<open>UTF-8\<close>

abbreviation byte :: "char \<Rightarrow> nat" where
  "byte c \<equiv> of_char c"

definition RuneError :: nat where
  "RuneError = 0xFFFD"

definition valid_rune :: "nat \<Rightarrow> bool" where
  "valid_rune r \<longleftrightarrow> r < 0xD800 \<or> (0xE000 \<le> r \<and> r < 0x110000)"

definition EncodeRune :: "nat \<Rightarrow> string" where
  "EncodeRune r =
     (if r < 0x80 then [char_of r]
      else if r < 0x800 then [char_of (0xC0 + r div 64), char_of (0x80 + r mod 64)]
      else if \<not> valid_rune r then [CHR 0xEF, CHR 0xBF, CHR 0xBD]
      else if r < 0x10000 then
        [char_of (0xE0 + r div 4096), char_of (0x80 + r div 64 mod 64), char_of (0x80 + r mod 64)]
      else
        [char_of (0xF0 + r div 262144), char_of (0x80 + r div 4096 mod 64),
         char_of (0x80 + r div 64 mod 64), char_of (0x80 + r mod 64)])"

definition cont_byte :: "char \<Rightarrow> bool" where
  "cont_byte c \<longleftrightarrow> 0x80 \<le> byte c \<and> byte c < 0xC0"

text \<open>
  \<^verbatim>\<open>utf8.DecodeRuneInString\<close>: the first rune and its width; a byte that starts no valid sequence
  is \<^const>\<open>RuneError\<close> of width 1. The bounds on the second byte exclude overlong forms,
  surrogates and values above U+10FFFF.
\<close>

definition second_byte_ok :: "nat \<Rightarrow> char \<Rightarrow> bool" where
  "second_byte_ok x c \<longleftrightarrow> cont_byte c \<and>
     (x = 0xE0 \<longrightarrow> 0xA0 \<le> byte c) \<and> (x = 0xED \<longrightarrow> byte c < 0xA0) \<and>
     (x = 0xF0 \<longrightarrow> 0x90 \<le> byte c) \<and> (x = 0xF4 \<longrightarrow> byte c < 0x90)"

fun DecodeRune :: "string \<Rightarrow> nat \<times> nat" where
  "DecodeRune [] = (RuneError, 0)"
| "DecodeRune (b0 # bs) =
     (let x = byte b0 in
      if x < 0x80 then (x, 1)
      else if 0xC2 \<le> x \<and> x < 0xE0 then
        (case bs of
           b1 # _ \<Rightarrow> if cont_byte b1 then ((x - 0xC0) * 64 + (byte b1 - 0x80), 2) else (RuneError, 1)
         | _ \<Rightarrow> (RuneError, 1))
      else if 0xE0 \<le> x \<and> x < 0xF0 then
        (case bs of
           b1 # b2 # _ \<Rightarrow>
             if second_byte_ok x b1 \<and> cont_byte b2
             then ((x - 0xE0) * 4096 + (byte b1 - 0x80) * 64 + (byte b2 - 0x80), 3)
             else (RuneError, 1)
         | _ \<Rightarrow> (RuneError, 1))
      else if 0xF0 \<le> x \<and> x < 0xF5 then
        (case bs of
           b1 # b2 # b3 # _ \<Rightarrow>
             if second_byte_ok x b1 \<and> cont_byte b2 \<and> cont_byte b3
             then ((x - 0xF0) * 262144 + (byte b1 - 0x80) * 4096 + (byte b2 - 0x80) * 64
                     + (byte b3 - 0x80), 4)
             else (RuneError, 1)
         | _ \<Rightarrow> (RuneError, 1))
      else (RuneError, 1))"

declare DecodeRune.simps(2) [simp del]

lemma byte_less [simp]: "byte c < 256"
  using of_char_mod_256 [of c, where 'a = nat] by (metis mod_less_divisor zero_less_numeral)

lemma base64_digits:
  fixes r :: nat
  shows "r = r div 64 * 64 + r mod 64"
    and "r div 64 = r div 4096 * 64 + r div 64 mod 64"
    and "r div 4096 = r div 262144 * 64 + r div 4096 mod 64"
    and "r mod 64 < 64" and "r div 64 mod 64 < 64" and "r div 4096 mod 64 < 64"
proof -
  have "r div 4096 = r div 64 div 64" and "r div 262144 = r div 4096 div 64"
    by (simp_all add: div_mult2_eq [symmetric])
  then show "r div 64 = r div 4096 * 64 + r div 64 mod 64"
    and "r div 4096 = r div 262144 * 64 + r div 4096 mod 64"
    by (metis div_mult_mod_eq)+
qed simp_all

lemma DecodeRune_EncodeRune:
  assumes "valid_rune r"
  shows "DecodeRune (EncodeRune r @ t) = (r, length (EncodeRune r))"
proof -
  define a b c d where "a = r div 262144" and "b = r div 4096 mod 64" and "c = r div 64 mod 64"
    and "d = r mod 64"
  note digits = base64_digits [of r, folded a_def b_def c_def d_def]
  consider "r < 0x80" | "0x80 \<le> r" "r < 0x800" | "0x800 \<le> r" "r < 0x10000"
    | "0x10000 \<le> r" "r < 0x110000"
    using assms unfolding valid_rune_def by linarith
  then show ?thesis
  proof cases
    case 1
    then show ?thesis by (simp add: EncodeRune_def DecodeRune.simps)
  next
    case 2
    define e where "e = r div 64"
    have enc: "EncodeRune r = [char_of (0xC0 + e), char_of (0x80 + d)]"
      using 2 by (simp add: EncodeRune_def e_def d_def)
    have "2 \<le> e" "e < 32" "d < 64" "e * 64 + d = r"
      using 2 digits unfolding e_def by linarith+
    then show ?thesis by (simp add: enc DecodeRune.simps cont_byte_def)
  next
    case 3
    define e where "e = r div 4096"
    have enc: "EncodeRune r = [char_of (0xE0 + e), char_of (0x80 + c), char_of (0x80 + d)]"
      using 3 assms by (simp add: EncodeRune_def e_def c_def d_def)
    have "e < 16" "c < 64" "d < 64" "e * 4096 + c * 64 + d = r" "e = 0 \<Longrightarrow> 32 \<le> c"
      using 3 digits unfolding e_def by linarith+
    moreover have "e = 13 \<Longrightarrow> c < 32"
      using 3 assms digits unfolding valid_rune_def e_def by linarith
    ultimately show ?thesis
      by (auto simp: enc DecodeRune.simps cont_byte_def second_byte_ok_def)
  next
    case 4
    have enc: "EncodeRune r =
        [char_of (0xF0 + a), char_of (0x80 + b), char_of (0x80 + c), char_of (0x80 + d)]"
      using 4 assms by (simp add: EncodeRune_def a_def b_def c_def d_def)
    have "a < 5" "b < 64" "c < 64" "d < 64" "a * 262144 + b * 4096 + c * 64 + d = r"
      "a = 0 \<Longrightarrow> 16 \<le> b" "a = 4 \<Longrightarrow> b < 16"
      using 4 digits by linarith+
    then show ?thesis
      by (auto simp: enc DecodeRune.simps cont_byte_def second_byte_ok_def)
  qed
qed

lemma EncodeRune_two:
  assumes "2 \<le> e" "e < 32" "d < 64"
  shows "EncodeRune (e * 64 + d) = [char_of (0xC0 + e), char_of (0x80 + d)]"
proof -
  have "\<not> e * 64 + d < 0x80" and "e * 64 + d < 0x800" using assms by linarith+
  with assms show ?thesis by (simp add: EncodeRune_def)
qed

lemma EncodeRune_three:
  assumes "e < 16" "c < 64" "d < 64" "e = 0 \<Longrightarrow> 32 \<le> c" "e = 13 \<Longrightarrow> c < 32"
  shows "valid_rune (e * 4096 + c * 64 + d) \<and>
    EncodeRune (e * 4096 + c * 64 + d) = [char_of (0xE0 + e), char_of (0x80 + c), char_of (0x80 + d)]"
proof -
  let ?r = "e * 4096 + c * 64 + d"
  have range: "\<not> ?r < 0x800" "?r < 0x10000" using assms(1-4) by (cases "e = 0"; linarith)+
  have "e < 13 \<or> e = 13 \<or> 14 \<le> e" by linarith
  then have valid: "valid_rune ?r"
    using assms unfolding valid_rune_def by (elim disjE; linarith)
  have "?r = (e * 64 + c) * 64 + d" by simp
  then have digits: "?r div 64 = e * 64 + c" "?r mod 64 = d"
    using assms(3) by (simp_all only: div_mult_self3 mod_mult_self3 div_less mod_less)
  have "?r div 4096 = e" using assms(2,3) by (simp add: div_mult2_eq [of _ 64 64, simplified] digits)
  moreover have "?r div 64 mod 64 = c" using assms(2) by (simp add: digits)
  ultimately show ?thesis using range valid digits(2) by (simp add: EncodeRune_def)
qed

lemma EncodeRune_four:
  assumes "a < 5" "b < 64" "c < 64" "d < 64" "a = 0 \<Longrightarrow> 16 \<le> b" "a = 4 \<Longrightarrow> b < 16"
  shows "valid_rune (a * 262144 + b * 4096 + c * 64 + d) \<and>
    EncodeRune (a * 262144 + b * 4096 + c * 64 + d) =
      [char_of (0xF0 + a), char_of (0x80 + b), char_of (0x80 + c), char_of (0x80 + d)]"
proof -
  let ?r = "a * 262144 + b * 4096 + c * 64 + d"
  have range: "\<not> ?r < 0x10000" using assms(1-5) by (cases "a = 0"; linarith)
  have "?r < 0x110000" using assms by (cases "a = 4"; linarith)
  with range have valid: "valid_rune ?r" unfolding valid_rune_def by linarith
  have "?r = (a * 4096 + b * 64 + c) * 64 + d" by simp
  then have d1: "?r div 64 = a * 4096 + b * 64 + c" "?r mod 64 = d"
    using assms(4) by (simp_all only: div_mult_self3 mod_mult_self3 div_less mod_less)
  have "a * 4096 + b * 64 + c = (a * 64 + b) * 64 + c" by simp
  then have d2: "?r div 4096 = a * 64 + b" "?r div 64 mod 64 = c"
    using assms(3) by (simp_all only: div_mult2_eq [of _ 64 64, simplified] d1 div_mult_self3
        mod_mult_self3 div_less mod_less)
  have "?r div 262144 = a" using assms(2) by (simp add: div_mult2_eq [of _ 4096 64, simplified] d2)
  moreover have "?r div 4096 mod 64 = b" using assms(2) by (simp add: d2)
  ultimately show ?thesis using range valid d1(2) d2(2) by (simp add: EncodeRune_def)
qed

lemma byte_decomp: "x \<le> byte c \<Longrightarrow> \<exists>d. byte c = x + d \<and> c = char_of (x + d)"
  by (metis le_add_diff_inverse char_of_char)

definition well_decoded :: "string \<Rightarrow> nat \<times> nat \<Rightarrow> bool" where
  "well_decoded s rn \<longleftrightarrow>
     (valid_rune (fst rn) \<and> snd rn \<le> length s \<and> take (snd rn) s = EncodeRune (fst rn)) \<or>
     rn = (RuneError, 1)"

lemma well_decoded_lead2:
  assumes "0xC2 \<le> byte b0" "byte b0 < 0xE0"
  shows "well_decoded (b0 # bs) (DecodeRune (b0 # bs))"
proof (cases "\<exists>b1 bs'. bs = b1 # bs' \<and> cont_byte b1")
  case True
  then obtain b1 bs' where bs: "bs = b1 # bs'" "cont_byte b1" by blast
  obtain e where e: "byte b0 = 0xC0 + e" "b0 = char_of (0xC0 + e)"
    using byte_decomp [of "0xC0" b0] assms by auto
  obtain d where d: "byte b1 = 0x80 + d" "b1 = char_of (0x80 + d)"
    using byte_decomp [of "0x80" b1] bs by (auto simp: cont_byte_def)
  have "DecodeRune (b0 # bs) = (e * 64 + d, 2)" using assms bs e(1) d(1) by (simp add: DecodeRune.simps)
  moreover have "2 \<le> e" "e < 32" "d < 64" using assms e(1) d(1) bs by (simp_all add: cont_byte_def)
  moreover have "valid_rune (e * 64 + d)" using \<open>e < 32\<close> \<open>d < 64\<close> by (simp add: valid_rune_def)
  ultimately show ?thesis using EncodeRune_two [of e d] e(2) d(2) bs(1) by (simp add: well_decoded_def)
next
  case False
  with assms show ?thesis by (auto simp: well_decoded_def DecodeRune.simps split: list.splits)
qed

lemma well_decoded_lead3:
  assumes "0xE0 \<le> byte b0" "byte b0 < 0xF0"
  shows "well_decoded (b0 # bs) (DecodeRune (b0 # bs))"
proof (cases "\<exists>b1 b2 bs'. bs = b1 # b2 # bs' \<and> second_byte_ok (byte b0) b1 \<and> cont_byte b2")
  case True
  then obtain b1 b2 bs' where bs: "bs = b1 # b2 # bs'" "second_byte_ok (byte b0) b1" "cont_byte b2"
    by blast
  obtain e where e: "byte b0 = 0xE0 + e" "b0 = char_of (0xE0 + e)"
    using byte_decomp [of "0xE0" b0] assms by auto
  obtain c where c: "byte b1 = 0x80 + c" "b1 = char_of (0x80 + c)"
    using byte_decomp [of "0x80" b1] bs by (auto simp: second_byte_ok_def cont_byte_def)
  obtain d where d: "byte b2 = 0x80 + d" "b2 = char_of (0x80 + d)"
    using byte_decomp [of "0x80" b2] bs by (auto simp: cont_byte_def)
  have "DecodeRune (b0 # bs) = (e * 4096 + c * 64 + d, 3)"
    using assms bs e(1) c(1) d(1) by (simp add: DecodeRune.simps)
  moreover have "e < 16" "c < 64" "d < 64" "e = 0 \<Longrightarrow> 32 \<le> c" "e = 13 \<Longrightarrow> c < 32"
    using assms e(1) c(1) d(1) bs by (simp_all add: second_byte_ok_def cont_byte_def)
  ultimately show ?thesis using EncodeRune_three [of e c d] e(2) c(2) d(2) bs(1)
    by (simp add: well_decoded_def)
next
  case False
  with assms show ?thesis by (auto simp: well_decoded_def DecodeRune.simps Let_def split: list.splits)
qed

lemma well_decoded_lead4:
  assumes "0xF0 \<le> byte b0" "byte b0 < 0xF5"
  shows "well_decoded (b0 # bs) (DecodeRune (b0 # bs))"
proof (cases "\<exists>b1 b2 b3 bs'. bs = b1 # b2 # b3 # bs' \<and> second_byte_ok (byte b0) b1 \<and> cont_byte b2 \<and> cont_byte b3")
  case True
  then obtain b1 b2 b3 bs' where
    bs: "bs = b1 # b2 # b3 # bs'" "second_byte_ok (byte b0) b1" "cont_byte b2" "cont_byte b3" by blast
  obtain a where a: "byte b0 = 0xF0 + a" "b0 = char_of (0xF0 + a)"
    using byte_decomp [of "0xF0" b0] assms by auto
  obtain b where b: "byte b1 = 0x80 + b" "b1 = char_of (0x80 + b)"
    using byte_decomp [of "0x80" b1] bs by (auto simp: second_byte_ok_def cont_byte_def)
  obtain c where c: "byte b2 = 0x80 + c" "b2 = char_of (0x80 + c)"
    using byte_decomp [of "0x80" b2] bs by (auto simp: cont_byte_def)
  obtain d where d: "byte b3 = 0x80 + d" "b3 = char_of (0x80 + d)"
    using byte_decomp [of "0x80" b3] bs by (auto simp: cont_byte_def)
  have "DecodeRune (b0 # bs) = (a * 262144 + b * 4096 + c * 64 + d, 4)"
    using assms bs a(1) b(1) c(1) d(1) by (simp add: DecodeRune.simps)
  moreover have "a < 5" "b < 64" "c < 64" "d < 64" "a = 0 \<Longrightarrow> 16 \<le> b" "a = 4 \<Longrightarrow> b < 16"
    using assms a(1) b(1) c(1) d(1) bs by (simp_all add: second_byte_ok_def cont_byte_def)
  ultimately show ?thesis using EncodeRune_four [of a b c d] a(2) b(2) c(2) d(2) bs(1)
    by (simp add: well_decoded_def)
next
  case False
  with assms show ?thesis by (auto simp: well_decoded_def DecodeRune.simps Let_def split: list.splits)
qed

lemma well_decoded_Cons: "well_decoded (b0 # bs) (DecodeRune (b0 # bs))"
proof -
  let ?x = "byte b0"
  consider "?x < 0x80" | "0xC2 \<le> ?x" "?x < 0xE0" | "0xE0 \<le> ?x" "?x < 0xF0" | "0xF0 \<le> ?x" "?x < 0xF5"
    | "0x80 \<le> ?x" "\<not> (0xC2 \<le> ?x \<and> ?x < 0xF5)"
    by linarith
  then show ?thesis
  proof cases
    case 1
    then show ?thesis by (simp add: well_decoded_def DecodeRune.simps EncodeRune_def valid_rune_def)
  next
    case 5
    then show ?thesis by (auto simp: well_decoded_def DecodeRune.simps Let_def)
  qed (blast intro: well_decoded_lead2 well_decoded_lead3 well_decoded_lead4)+
qed

lemma DecodeRune_width: "s \<noteq> [] \<Longrightarrow> 1 \<le> snd (DecodeRune s) \<and> snd (DecodeRune s) \<le> length s"
proof (cases s)
  case (Cons b0 bs)
  have "[] \<noteq> EncodeRune r" for r by (simp add: EncodeRune_def)
  then show ?thesis using well_decoded_Cons [of b0 bs] Cons
    by (cases "snd (DecodeRune s)") (auto simp: well_decoded_def)
qed simp

text \<open>
  The sequence of runes of a string, each with the bytes it was decoded from (the loop
  \<^verbatim>\<open>for _, r := range s\<close>).
\<close>

function rune_chunks :: "string \<Rightarrow> (nat \<times> string) list" where
  "rune_chunks s =
     (if s = [] then []
      else (case DecodeRune s of (r, n) \<Rightarrow> (r, take n s) # rune_chunks (drop n s)))"
  by pat_completeness auto
termination
proof (relation "measure length", goal_cases)
  case (2 s r n)
  then have "1 \<le> n" using DecodeRune_width [of s] by (metis snd_conv)
  with 2 show ?case by simp
qed simp

declare rune_chunks.simps [simp del]

definition runes :: "string \<Rightarrow> nat list" where
  "runes s = map fst (rune_chunks s)"

definition valid_utf8 :: "string \<Rightarrow> bool" where
  "valid_utf8 s = list_all (\<lambda>(r, c). c = EncodeRune r) (rune_chunks s)"

lemma rune_chunks_Nil [simp]: "rune_chunks [] = []"
  by (simp add: rune_chunks.simps)

lemma runes_Nil [simp]: "runes [] = []"
  by (simp add: runes_def)

lemma EncodeRune_not_Nil [simp]: "EncodeRune r \<noteq> []"
  by (simp add: EncodeRune_def)

lemma rune_chunks_EncodeRune:
  "valid_rune r \<Longrightarrow> rune_chunks (EncodeRune r @ t) = (r, EncodeRune r) # rune_chunks t"
  by (subst rune_chunks.simps) (simp add: DecodeRune_EncodeRune)

lemma runes_EncodeRune: "valid_rune r \<Longrightarrow> runes (EncodeRune r @ t) = r # runes t"
  by (simp add: runes_def rune_chunks_EncodeRune)

lemma runes_concat_EncodeRune:
  "\<forall>r \<in> set rs. valid_rune r \<Longrightarrow> runes (concat (map EncodeRune rs)) = rs"
  by (induction rs) (simp_all add: runes_EncodeRune)

lemma rune_chunks_concat_EncodeRune:
  "\<forall>r \<in> set rs. valid_rune r \<Longrightarrow>
     rune_chunks (concat (map EncodeRune rs)) = map (\<lambda>r. (r, EncodeRune r)) rs"
  by (induction rs) (simp_all add: rune_chunks_EncodeRune)

lemma valid_rune_RuneError [simp]: "valid_rune RuneError"
  by (simp add: valid_rune_def RuneError_def)

lemma rune_chunks_cases:
  assumes "(r, c) \<in> set (rune_chunks s)"
  shows "valid_rune r \<and> (c = EncodeRune r \<or> (r = RuneError \<and> length c = 1))"
  using assms
proof (induction s rule: rune_chunks.induct)
  case (1 s)
  show ?case
  proof (cases s)
    case Nil
    with "1.prems" show ?thesis by simp
  next
    case (Cons b0 bs)
    obtain r' n where dec: "DecodeRune s = (r', n)" by fastforce
    have "rune_chunks s = (r', take n s) # rune_chunks (drop n s)"
      by (subst rune_chunks.simps) (simp add: Cons dec [unfolded Cons])
    with "1.prems" consider "r = r'" "c = take n s" | "(r, c) \<in> set (rune_chunks (drop n s))" by auto
    then show ?thesis
    proof cases
      case 1
      with well_decoded_Cons [of b0 bs] dec Cons show ?thesis
        by (auto simp: well_decoded_def)
    next
      case 2
      with "1.IH" [OF _ dec [symmetric]] Cons show ?thesis by simp
    qed
  qed
qed

lemma valid_rune_runes: "r \<in> set (runes s) \<Longrightarrow> valid_rune r"
  by (auto simp: runes_def dest: rune_chunks_cases)

lemma concat_rune_chunks: "concat (map snd (rune_chunks s)) = s"
proof (induction s rule: rune_chunks.induct)
  case (1 s)
  then show ?case by (subst rune_chunks.simps) (auto split: prod.splits)
qed

lemma valid_utf8_concat: "valid_utf8 s \<Longrightarrow> s = concat (map EncodeRune (runes s))"
proof -
  assume v: "valid_utf8 s"
  have "map snd (rune_chunks s) = map EncodeRune (runes s)"
    using v by (auto simp: valid_utf8_def runes_def list_all_iff)
  then show ?thesis by (metis concat_rune_chunks)
qed

lemma valid_utf8_iff: "valid_utf8 s \<longleftrightarrow> (\<exists>rs. (\<forall>r \<in> set rs. valid_rune r) \<and> s = concat (map EncodeRune rs))"
proof
  show "valid_utf8 s \<Longrightarrow> \<exists>rs. (\<forall>r \<in> set rs. valid_rune r) \<and> s = concat (map EncodeRune rs)"
    using valid_utf8_concat valid_rune_runes by blast
next
  show "\<exists>rs. (\<forall>r \<in> set rs. valid_rune r) \<and> s = concat (map EncodeRune rs) \<Longrightarrow> valid_utf8 s"
    by (auto simp: valid_utf8_def rune_chunks_concat_EncodeRune list_all_iff)
qed

lemma runes_ascii: "\<forall>c \<in> set s. byte c < 0x80 \<Longrightarrow> rune_chunks s = map (\<lambda>c. (byte c, [c])) s"
  by (induction s) (simp_all add: rune_chunks.simps [of "_ # _"] DecodeRune.simps)

lemma valid_utf8_ascii: "\<forall>c \<in> set s. byte c < 0x80 \<Longrightarrow> valid_utf8 s"
  by (auto simp: valid_utf8_def runes_ascii list_all_iff EncodeRune_def)

section \<open>White space\<close>

definition space_runes :: "nat list" where
  "space_runes =
     [0x09, 0x0A, 0x0B, 0x0C, 0x0D, 0x20, 0x85, 0xA0, 0x1680,
      0x2000, 0x2001, 0x2002, 0x2003, 0x2004, 0x2005, 0x2006, 0x2007, 0x2008, 0x2009, 0x200A,
      0x2028, 0x2029, 0x202F, 0x205F, 0x3000]"

definition space_encodings :: "string list" where
  "space_encodings = map EncodeRune space_runes"

text \<open>
  \<^verbatim>\<open>strings.TrimSpace\<close> removes the white-space runes at both ends. A rune decoded at the front
  (\<^verbatim>\<open>DecodeRune\<close>) or at the back (\<^verbatim>\<open>DecodeLastRune\<close>) of a string is a given white-space rune exactly
  when the string starts or ends with its encoding, because an encoding is a lead byte followed
  by continuation bytes.
\<close>

function TrimLeftSpace :: "string \<Rightarrow> string" where
  "TrimLeftSpace s =
     (case find (\<lambda>e. prefix e s) space_encodings of
        None \<Rightarrow> s
      | Some e \<Rightarrow> TrimLeftSpace (drop (length e) s))"
  by pat_completeness auto
termination
  by (relation "measure length")
    (auto simp: find_Some_iff space_encodings_def prefix_def)

function TrimRightSpace :: "string \<Rightarrow> string" where
  "TrimRightSpace s =
     (case find (\<lambda>e. suffix e s) space_encodings of
        None \<Rightarrow> s
      | Some e \<Rightarrow> TrimRightSpace (take (length s - length e) s))"
  by pat_completeness auto
termination
  by (relation "measure length")
    (auto simp: find_Some_iff space_encodings_def suffix_def)

declare TrimLeftSpace.simps [simp del] TrimRightSpace.simps [simp del]

definition TrimSpace :: "string \<Rightarrow> string" where
  "TrimSpace s = TrimRightSpace (TrimLeftSpace s)"

lemma TrimLeftSpace_suffix: "suffix (TrimLeftSpace s) s"
proof (induction s rule: TrimLeftSpace.induct)
  case (1 s)
  then show ?case
    by (subst TrimLeftSpace.simps) (auto split: option.splits intro: suffix_order.trans suffix_drop)
qed

lemma TrimRightSpace_prefix: "prefix (TrimRightSpace s) s"
proof (induction s rule: TrimRightSpace.induct)
  case (1 s)
  then show ?case
    by (subst TrimRightSpace.simps) (auto split: option.splits intro: prefix_order.trans take_is_prefix)
qed

lemma TrimLeftSpace_no_space: "e \<in> set space_encodings \<Longrightarrow> \<not> prefix e (TrimLeftSpace s)"
proof (induction s rule: TrimLeftSpace.induct)
  case (1 s)
  then show ?case
    by (subst TrimLeftSpace.simps) (auto simp: find_None_iff split: option.splits)
qed

lemma TrimRightSpace_no_space: "e \<in> set space_encodings \<Longrightarrow> \<not> suffix e (TrimRightSpace s)"
proof (induction s rule: TrimRightSpace.induct)
  case (1 s)
  then show ?case
    by (subst TrimRightSpace.simps) (auto simp: find_None_iff split: option.splits)
qed

definition trimmed :: "string \<Rightarrow> bool" where
  "trimmed s \<longleftrightarrow> (\<forall>e \<in> set space_encodings. \<not> prefix e s \<and> \<not> suffix e s)"

lemma trimmed_TrimSpace [simp]: "trimmed (TrimSpace s)"
  unfolding trimmed_def TrimSpace_def
  by (meson TrimLeftSpace_no_space TrimRightSpace_no_space TrimRightSpace_prefix prefix_order.trans)

lemma TrimSpace_id: "trimmed s \<Longrightarrow> TrimSpace s = s"
proof -
  assume t: "trimmed s"
  then have "find (\<lambda>e. prefix e s) space_encodings = None" and "find (\<lambda>e. suffix e s) space_encodings = None"
    by (auto simp: find_None_iff trimmed_def)
  then show ?thesis by (simp add: TrimSpace_def TrimLeftSpace.simps [of s] TrimRightSpace.simps [of s])
qed

lemma TrimSpace_idem [simp]: "TrimSpace (TrimSpace s) = TrimSpace s"
  by (simp add: TrimSpace_id)

lemma TrimSpace_infix: "\<exists>xs ys. s = xs @ TrimSpace s @ ys"
  using TrimLeftSpace_suffix [of s] TrimRightSpace_prefix [of "TrimLeftSpace s"]
  unfolding TrimSpace_def suffix_def prefix_def by metis

lemma trimmed_Nil [simp]: "trimmed []"
  by (auto simp: trimmed_def space_encodings_def)

lemma TrimSpace_Nil [simp]: "TrimSpace [] = []"
  by (simp add: TrimSpace_id)

text \<open>ASCII strings without leading and trailing blanks are left alone.\<close>

lemma hd_space_encoding:
  "e \<in> set space_encodings \<Longrightarrow> byte (hd e) \<le> 32 \<or> 0x80 \<le> byte (hd e)"
  unfolding space_encodings_def space_runes_def EncodeRune_def valid_rune_def
  by auto

lemma last_space_encoding:
  "e \<in> set space_encodings \<Longrightarrow> byte (last e) \<le> 32 \<or> 0x80 \<le> byte (last e)"
  unfolding space_encodings_def space_runes_def EncodeRune_def valid_rune_def
  by auto

lemma space_encoding_not_Nil: "e \<in> set space_encodings \<Longrightarrow> e \<noteq> []"
  by (auto simp: space_encodings_def)

lemma trimmed_ascii:
  assumes "s \<noteq> []" "32 < byte (hd s)" "byte (hd s) < 0x80" "32 < byte (last s)" "byte (last s) < 0x80"
  shows "trimmed s"
  unfolding trimmed_def
proof (intro ballI conjI notI)
  fix e
  assume e: "e \<in> set space_encodings"
  show False if "prefix e s"
  proof -
    have "hd s = hd e" using that space_encoding_not_Nil [OF e] by (auto simp: prefix_def)
    then show False using assms hd_space_encoding [OF e] by auto
  qed
  show False if "suffix e s"
  proof -
    have "last s = last e" using that space_encoding_not_Nil [OF e] by (auto simp: suffix_def)
    then show False using assms last_space_encoding [OF e] by auto
  qed
qed

lemma TrimSpace_ascii:
  "s \<noteq> [] \<Longrightarrow> 32 < byte (hd s) \<Longrightarrow> byte (hd s) < 0x80 \<Longrightarrow> 32 < byte (last s) \<Longrightarrow> byte (last s) < 0x80 \<Longrightarrow>
     TrimSpace s = s"
  by (rule TrimSpace_id) (rule trimmed_ascii)

section \<open>Ends of a string in terms of runes\<close>

lemma EncodeRune_shape:
  assumes "valid_rune r"
  obtains b cs where "EncodeRune r = b # cs" "\<not> cont_byte b" "\<forall>c \<in> set cs. cont_byte c"
proof -
  note digits = base64_digits [of r]
  have "r div 4096 < 16" if "r < 0x10000" using that digits by linarith
  moreover have "r div 64 < 32" if "r < 0x800" using that digits by linarith
  moreover have "r div 262144 < 16" using assms digits unfolding valid_rune_def by linarith
  ultimately have "\<exists>b cs. EncodeRune r = b # cs \<and> \<not> cont_byte b \<and> (\<forall>c \<in> set cs. cont_byte c)"
    using digits(4-6) by (auto simp: EncodeRune_def cont_byte_def)
  then show thesis using that by blast
qed

lemma EncodeRune_prefix_eq:
  assumes "valid_rune a" "valid_rune b" "prefix (EncodeRune a) (EncodeRune b @ t)"
  shows "a = b"
proof -
  obtain u where "EncodeRune b @ t = EncodeRune a @ u" using assms(3) by (auto simp: prefix_def)
  then show ?thesis
    using DecodeRune_EncodeRune [OF assms(1), of u] DecodeRune_EncodeRune [OF assms(2), of t] by simp
qed

lemma EncodeRune_suffix_eq:
  assumes "valid_rune a" "valid_rune b" "suffix (EncodeRune a) (t @ EncodeRune b)"
  shows "a = b"
proof -
  obtain u where u: "t @ EncodeRune b = u @ EncodeRune a" using assms(3) by (auto simp: suffix_def)
  obtain x xs where x: "EncodeRune a = x # xs" "\<not> cont_byte x" "\<forall>c \<in> set xs. cont_byte c"
    using EncodeRune_shape [OF assms(1)] .
  obtain y ys where y: "EncodeRune b = y # ys" "\<not> cont_byte y" "\<forall>c \<in> set ys. cont_byte c"
    using EncodeRune_shape [OF assms(2)] .
  have "EncodeRune a = EncodeRune b"
    using u x y by (auto simp: append_eq_append_conv2 Cons_eq_append_conv append_eq_Cons_conv)
  then show ?thesis using DecodeRune_EncodeRune [OF assms(1)] DecodeRune_EncodeRune [OF assms(2)]
    by (metis fst_conv)
qed

lemma valid_space_rune: "r \<in> set space_runes \<Longrightarrow> valid_rune r"
  by (auto simp: space_runes_def valid_rune_def)

lemma RuneError_not_space: "RuneError \<notin> set space_runes"
  by (simp add: space_runes_def RuneError_def)

text \<open>A string is trimmed when neither its first nor its last rune is white space.\<close>

lemma chunk_of_space:
  "(r, c) \<in> set (rune_chunks s) \<Longrightarrow> r \<in> set space_runes \<Longrightarrow> c = EncodeRune r"
  using rune_chunks_cases [of r c s] RuneError_not_space by auto

lemma trimmed_hd_rune: "trimmed s \<Longrightarrow> runes s = r # rs \<Longrightarrow> r \<notin> set space_runes"
proof
  assume t: "trimmed s" and rs: "runes s = r # rs" and sp: "r \<in> set space_runes"
  obtain c where c: "rune_chunks s = (r, c) # tl (rune_chunks s)"
    using rs by (cases "rune_chunks s") (auto simp: runes_def)
  then have "c = EncodeRune r" using chunk_of_space [of r c s] sp by (metis list.set_intros(1))
  moreover have "s = c @ concat (map snd (tl (rune_chunks s)))"
    using concat_rune_chunks [of s] c by (metis concat.simps(2) list.simps(9) snd_conv)
  ultimately have "prefix (EncodeRune r) s" by (metis prefixI)
  with t sp show False by (auto simp: trimmed_def space_encodings_def)
qed

lemma trimmed_last_rune: "trimmed s \<Longrightarrow> runes s = rs @ [r] \<Longrightarrow> r \<notin> set space_runes"
proof
  assume t: "trimmed s" and rs: "runes s = rs @ [r]" and sp: "r \<in> set space_runes"
  obtain ks c where c: "rune_chunks s = ks @ [(r, c)]"
    using rs by (cases "rune_chunks s" rule: rev_cases) (auto simp: runes_def)
  then have "c = EncodeRune r" using chunk_of_space [of r c s] sp by simp
  moreover have "s = concat (map snd ks) @ c"
    using concat_rune_chunks [of s] c by simp
  ultimately have "suffix (EncodeRune r) s" by (metis suffixI)
  with t sp show False by (auto simp: trimmed_def space_encodings_def)
qed

lemma trimmed_concat_EncodeRune:
  assumes "\<forall>r \<in> set rs. valid_rune r"
    and "rs \<noteq> [] \<Longrightarrow> hd rs \<notin> set space_runes \<and> last rs \<notin> set space_runes"
  shows "trimmed (concat (map EncodeRune rs))"
  unfolding trimmed_def
proof (intro ballI conjI notI)
  fix e
  assume "e \<in> set space_encodings"
  then obtain sp where sp: "e = EncodeRune sp" "sp \<in> set space_runes"
    by (auto simp: space_encodings_def)
  show False if "prefix e (concat (map EncodeRune rs))"
  proof (cases rs)
    case Nil
    then show False using that sp by simp
  next
    case (Cons r rs')
    then have "sp = r" using that sp assms(1) valid_space_rune EncodeRune_prefix_eq [of sp r] by auto
    then show False using assms(2) Cons sp by simp
  qed
  show False if "suffix e (concat (map EncodeRune rs))"
  proof (cases rs rule: rev_cases)
    case Nil
    then show False using that sp by simp
  next
    case (snoc rs' r)
    then have "sp = r" using that sp assms(1) valid_space_rune EncodeRune_suffix_eq [of sp r] by auto
    then show False using assms(2) snoc sp by simp
  qed
qed

end
