(* ===== verification/UnicodeCase.thy ===== *)
theory UnicodeCase
  imports GoText
begin

text \<open>
  \<^verbatim>\<open>strings.ToUpper\<close> and the table behind \<^verbatim>\<open>unicode.ToUpper\<close>: the simple upper-case mapping of the
  Unicode character database (version 15) for runes above ASCII. A block \<open>(l, h, es)\<close> holds the
  entries whose source runes lie between \<open>l\<close> and \<open>h\<close>; an entry \<open>(lo, hi, stride, t)\<close> maps the runes
  \<open>lo, lo + stride, \<dots>, hi\<close> to \<open>t, t + stride, \<dots>\<close>. The facts proved are those the program relies on:
  upper-casing is idempotent, keeps strings valid UTF-8 and keeps trimmed strings trimmed.
\<close>

type_synonym case_entry = "int \<times> int \<times> int \<times> int"

definition upper_blocks :: "(int \<times> int \<times> case_entry list) list" where
  "upper_blocks =
    [(181, 396, [(181, 181, 2, 924), (224, 246, 1, 192), (248, 254, 1, 216), (255, 255, 2, 376),
       (257, 303, 2, 256), (305, 305, 2, 73), (307, 311, 2, 306), (314, 328, 2, 313), (331, 375, 2,
       330), (378, 382, 2, 377), (383, 383, 2, 83), (384, 384, 2, 579), (387, 389, 2, 386), (392,
       392, 2, 391), (396, 396, 2, 395)]),
     (402, 454, [(402, 402, 2, 401), (405, 405, 2, 502), (409, 409, 2, 408), (410, 410, 2, 573),
       (414, 414, 2, 544), (417, 421, 2, 416), (424, 424, 2, 423), (429, 429, 2, 428), (432, 432,
       2, 431), (436, 438, 2, 435), (441, 441, 2, 440), (445, 445, 2, 444), (447, 447, 2, 503),
       (453, 453, 2, 452), (454, 454, 2, 452)]),
     (456, 578, [(456, 456, 2, 455), (457, 457, 2, 455), (459, 459, 2, 458), (460, 460, 2, 458),
       (462, 476, 2, 461), (477, 477, 2, 398), (479, 495, 2, 478), (498, 498, 2, 497), (499, 499,
       2, 497), (501, 501, 2, 500), (505, 543, 2, 504), (547, 563, 2, 546), (572, 572, 2, 571),
       (575, 576, 1, 11390), (578, 578, 2, 577)]),
     (583, 614, [(583, 591, 2, 582), (592, 592, 2, 11375), (593, 593, 2, 11373), (594, 594, 2,
       11376), (595, 595, 2, 385), (596, 596, 2, 390), (598, 599, 1, 393), (601, 601, 2, 399),
       (603, 603, 2, 400), (604, 604, 2, 42923), (608, 608, 2, 403), (609, 609, 2, 42924), (611,
       611, 2, 404), (613, 613, 2, 42893), (614, 614, 2, 42922)]),
     (616, 648, [(616, 616, 2, 407), (617, 617, 2, 406), (618, 618, 2, 42926), (619, 619, 2,
       11362), (620, 620, 2, 42925), (623, 623, 2, 412), (625, 625, 2, 11374), (626, 626, 2, 413),
       (629, 629, 2, 415), (637, 637, 2, 11364), (640, 640, 2, 422), (642, 642, 2, 42949), (643,
       643, 2, 425), (647, 647, 2, 42929), (648, 648, 2, 430)]),
     (649, 971, [(649, 649, 2, 580), (650, 651, 1, 433), (652, 652, 2, 581), (658, 658, 2, 439),
       (669, 669, 2, 42930), (670, 670, 2, 42928), (837, 837, 2, 921), (881, 883, 2, 880), (887,
       887, 2, 886), (891, 893, 1, 1021), (940, 940, 2, 902), (941, 943, 1, 904), (945, 961, 1,
       913), (962, 962, 2, 931), (963, 971, 1, 931)]),
     (972, 1019, [(972, 972, 2, 908), (973, 974, 1, 910), (976, 976, 2, 914), (977, 977, 2, 920),
       (981, 981, 2, 934), (982, 982, 2, 928), (983, 983, 2, 975), (985, 1007, 2, 984), (1008,
       1008, 2, 922), (1009, 1009, 2, 929), (1010, 1010, 2, 1017), (1011, 1011, 2, 895), (1013,
       1013, 2, 917), (1016, 1016, 2, 1015), (1019, 1019, 2, 1018)]),
     (1072, 1414, [(1072, 1103, 1, 1040), (1104, 1119, 1, 1024), (1121, 1153, 2, 1120), (1163,
       1215, 2, 1162), (1218, 1230, 2, 1217), (1231, 1231, 2, 1216), (1233, 1327, 2, 1232), (1377,
       1414, 1, 1329)]),
     (4304, 4351, [(4304, 4346, 1, 7312), (4349, 4351, 1, 7357)]),
     (5112, 5117, [(5112, 5117, 1, 5104)]),
     (7296, 7943, [(7296, 7296, 2, 1042), (7297, 7297, 2, 1044), (7298, 7298, 2, 1054), (7299,
       7300, 1, 1057), (7301, 7301, 2, 1058), (7302, 7302, 2, 1066), (7303, 7303, 2, 1122), (7304,
       7304, 2, 42570), (7545, 7545, 2, 42877), (7549, 7549, 2, 11363), (7566, 7566, 2, 42950),
       (7681, 7829, 2, 7680), (7835, 7835, 2, 7776), (7841, 7935, 2, 7840), (7936, 7943, 1,
       7944)]),
     (7952, 8103, [(7952, 7957, 1, 7960), (7968, 7975, 1, 7976), (7984, 7991, 1, 7992), (8000,
       8005, 1, 8008), (8017, 8023, 2, 8025), (8032, 8039, 1, 8040), (8048, 8049, 1, 8122), (8050,
       8053, 1, 8136), (8054, 8055, 1, 8154), (8056, 8057, 1, 8184), (8058, 8059, 1, 8170), (8060,
       8061, 1, 8186), (8064, 8071, 1, 8072), (8080, 8087, 1, 8088), (8096, 8103, 1, 8104)]),
     (8112, 8179, [(8112, 8113, 1, 8120), (8115, 8115, 2, 8124), (8126, 8126, 2, 921), (8131,
       8131, 2, 8140), (8144, 8145, 1, 8152), (8160, 8161, 1, 8168), (8165, 8165, 2, 8172), (8179,
       8179, 2, 8188)]),
     (8526, 8580, [(8526, 8526, 2, 8498), (8560, 8575, 1, 8544), (8580, 8580, 2, 8579)]),
     (9424, 9449, [(9424, 9449, 1, 9398)]),
     (11312, 11565, [(11312, 11359, 1, 11264), (11361, 11361, 2, 11360), (11365, 11365, 2, 570),
       (11366, 11366, 2, 574), (11368, 11372, 2, 11367), (11379, 11379, 2, 11378), (11382, 11382,
       2, 11381), (11393, 11491, 2, 11392), (11500, 11502, 2, 11499), (11507, 11507, 2, 11506),
       (11520, 11557, 1, 4256), (11559, 11559, 2, 4295), (11565, 11565, 2, 4301)]),
     (42561, 42998, [(42561, 42605, 2, 42560), (42625, 42651, 2, 42624), (42787, 42799, 2,
       42786), (42803, 42863, 2, 42802), (42874, 42876, 2, 42873), (42879, 42887, 2, 42878),
       (42892, 42892, 2, 42891), (42897, 42899, 2, 42896), (42900, 42900, 2, 42948), (42903, 42921,
       2, 42902), (42933, 42947, 2, 42932), (42952, 42954, 2, 42951), (42961, 42961, 2, 42960),
       (42967, 42969, 2, 42966), (42998, 42998, 2, 42997)]),
     (43859, 43967, [(43859, 43859, 2, 42931), (43888, 43967, 1, 5024)]),
     (65345, 65370, [(65345, 65370, 1, 65313)]),
     (66600, 67004, [(66600, 66639, 1, 66560), (66776, 66811, 1, 66736), (66967, 66977, 1,
       66928), (66979, 66993, 1, 66940), (66995, 67001, 1, 66956), (67003, 67004, 1, 66964)]),
     (68800, 68850, [(68800, 68850, 1, 68736)]),
     (71872, 71903, [(71872, 71903, 1, 71840)]),
     (93792, 93823, [(93792, 93823, 1, 93760)]),
     (125218, 125251, [(125218, 125251, 1, 125184)])]"

definition upper_entries :: "case_entry list" where
  "upper_entries = concat (map (\<lambda>(l, h, es). es) upper_blocks)"

fun in_range :: "nat \<Rightarrow> case_entry \<Rightarrow> bool" where
  "in_range r (lo, hi, stride, t) \<longleftrightarrow> lo \<le> int r \<and> int r \<le> hi \<and> (int r - lo) mod stride = 0"

fun shift_range :: "nat \<Rightarrow> case_entry \<Rightarrow> nat" where
  "shift_range r (lo, hi, stride, t) = nat (t + (int r - lo))"

definition unicode_ToUpper :: "nat \<Rightarrow> nat" where
  "unicode_ToUpper r =
     (if r < 0x80 then (if 0x61 \<le> r \<and> r \<le> 0x7A then r - 32 else r)
      else (case find (in_range r) upper_entries of None \<Rightarrow> r | Some e \<Rightarrow> shift_range r e))"

section \<open>Facts of the table\<close>

text \<open>
  The targets of an entry avoid the sources of another when the intervals are apart or both step
  by two with different parity. The check goes block by block: an entry whose targets miss the
  block's interval misses all its entries.
\<close>

fun apart :: "case_entry \<Rightarrow> case_entry \<Rightarrow> bool" where
  "apart (lo, hi, st, t) (lo', hi', st', t') \<longleftrightarrow>
     t + (hi - lo) < lo' \<or> hi' < t \<or> (st = 2 \<and> st' = 2 \<and> t mod 2 \<noteq> lo' mod 2)"

fun apart_block :: "case_entry \<Rightarrow> int \<times> int \<times> case_entry list \<Rightarrow> bool" where
  "apart_block (lo, hi, st, t) (l, h, fs) \<longleftrightarrow>
     t + (hi - lo) < l \<or> h < t \<or> list_all (apart (lo, hi, st, t)) fs"

fun block_bounds :: "int \<times> int \<times> case_entry list \<Rightarrow> bool" where
  "block_bounds (l, h, es) \<longleftrightarrow> list_all (\<lambda>(lo, hi, st, t). l \<le> lo \<and> hi \<le> h) es"

text \<open>Targets are valid runes, are no lower-case ASCII letters and are no white space.\<close>

fun target_ok :: "case_entry \<Rightarrow> bool" where
  "target_ok (lo, hi, st, t) \<longleftrightarrow>
     (let u = t + (hi - lo) in
       32 < t \<and> (u < 0x61 \<or> 0x7A < t) \<and> (u < 0x85 \<or> 0xA0 < t) \<and> (u < 0x1680 \<or> 0x1680 < t) \<and>
       (u < 0x2000 \<or> 0x205F < t) \<and> (u < 0x3000 \<or> 0x3000 < t) \<and>
       (u < 0xD800 \<or> (0xE000 \<le> t \<and> u < 0x110000)))"

lemma upper_blocks_apart:
  "list_all (\<lambda>(l, h, es). list_all (\<lambda>e. list_all (apart_block e) upper_blocks) es) upper_blocks"
  by code_simp

lemma upper_blocks_bounds: "list_all block_bounds upper_blocks"
  by code_simp

lemma upper_entries_target_ok: "list_all target_ok upper_entries"
  by code_simp

lemma apart_in_range:
  assumes "in_range r e" "apart e f" "target_ok e"
  shows "\<not> in_range (shift_range r e) f"
proof -
  obtain lo hi st t lo' hi' st' t' where ef: "e = (lo, hi, st, t)" "f = (lo', hi', st', t')"
    by (metis prod_cases4)
  show ?thesis
  proof
    assume r': "in_range (shift_range r e) f"
    define q where "q = t + (int r - lo)"
    have "0 < t" using assms(3) ef by (simp add: Let_def)
    then have r: "lo \<le> int r" "int r \<le> hi" "(int r - lo) mod st = 0" "0 \<le> q"
      using assms(1) ef by (auto simp: q_def)
    have q: "lo' \<le> q" "q \<le> hi'" "(q - lo') mod st' = 0"
      using r' r ef by (auto simp: q_def)
    have "st = 2" "st' = 2" "t mod 2 \<noteq> lo' mod 2" using assms(2) r q ef by (auto simp: q_def)
    then show False using r(3) q(3) unfolding q_def by presburger
  qed
qed

lemma upper_entries_apart: "e \<in> set upper_entries \<Longrightarrow> f \<in> set upper_entries \<Longrightarrow> apart e f"
proof -
  assume "e \<in> set upper_entries" "f \<in> set upper_entries"
  then obtain l\<^sub>0 h\<^sub>0 es\<^sub>0 l h es where b: "(l\<^sub>0, h\<^sub>0, es\<^sub>0) \<in> set upper_blocks" "e \<in> set es\<^sub>0"
    and es: "(l, h, es) \<in> set upper_blocks" "f \<in> set es"
    by (auto simp: upper_entries_def split: prod.splits)
  obtain lo hi st t lo' hi' st' t' where ef: "e = (lo, hi, st, t)" "f = (lo', hi', st', t')"
    by (metis prod_cases4)
  have "l \<le> lo'" "hi' \<le> h"
    using bspec [OF upper_blocks_bounds [unfolded list_all_iff] es(1)] es(2) ef
    by (auto simp: list_all_iff)
  moreover have "apart_block e (l, h, es)"
    using bspec [OF upper_blocks_apart [unfolded list_all_iff] b(1)] b(2) es(1) by auto
  ultimately show "apart e f" using es ef by (auto simp: list_all_iff)
qed

lemma target_ok_shift:
  assumes "in_range r e" "target_ok e"
  shows "32 < shift_range r e" "shift_range r e < 0x61 \<or> 0x7A < shift_range r e"
    "shift_range r e \<notin> set space_runes" "valid_rune (shift_range r e)"
proof -
  obtain lo hi st t where e: "e = (lo, hi, st, t)" by (metis prod_cases4)
  define q where "q = nat (t + (int r - lo))"
  have q: "int q = t + (int r - lo)" "shift_range r e = q" "lo \<le> int r" "int r \<le> hi"
    using assms e by (auto simp: q_def Let_def)
  show "32 < shift_range r e" "shift_range r e < 0x61 \<or> 0x7A < shift_range r e"
    using assms(2) e q by (auto simp: Let_def)
  show "valid_rune (shift_range r e)"
    using assms(2) e q unfolding valid_rune_def by (auto simp: Let_def)
  have "32 < q" "q < 0x85 \<or> 0xA0 < q" "q \<noteq> 0x1680" "q < 0x2000 \<or> 0x205F < q" "q \<noteq> 0x3000"
    using assms(2) e q by (auto simp: Let_def)
  then show "shift_range r e \<notin> set space_runes"
    unfolding q(2) space_runes_def by auto
qed

section \<open>Upper-casing runes and strings\<close>

lemma find_entryD: "find (in_range r) upper_entries = Some e \<Longrightarrow> in_range r e \<and> e \<in> set upper_entries \<and> target_ok e"
  using upper_entries_target_ok by (auto simp: find_Some_iff list_all_iff)

lemma unicode_ToUpper_idem: "unicode_ToUpper (unicode_ToUpper r) = unicode_ToUpper r"
proof (cases "find (in_range r) upper_entries")
  case None
  then show ?thesis by (auto simp: unicode_ToUpper_def)
next
  case (Some e)
  have "find (in_range (shift_range r e)) upper_entries = None"
    using find_entryD [OF Some] apart_in_range upper_entries_apart by (metis find_None_iff)
  moreover have "shift_range r e < 0x61 \<or> 0x7A < shift_range r e"
    using target_ok_shift find_entryD [OF Some] by blast
  ultimately show ?thesis using Some by (auto simp: unicode_ToUpper_def)
qed

lemma unicode_ToUpper_valid: "valid_rune r \<Longrightarrow> valid_rune (unicode_ToUpper r)"
  using target_ok_shift(4) find_entryD
  by (auto simp: unicode_ToUpper_def valid_rune_def split: option.splits)

lemma unicode_ToUpper_space: "unicode_ToUpper r \<in> set space_runes \<Longrightarrow> r \<in> set space_runes"
proof -
  assume s: "unicode_ToUpper r \<in> set space_runes"
  have "r - 32 \<notin> set space_runes" if "0x61 \<le> r" "r \<le> 0x7A" using that by (auto simp: space_runes_def)
  then show ?thesis using s target_ok_shift(3) find_entryD
    by (auto simp: unicode_ToUpper_def split: option.splits if_splits)
qed

definition ascii_ToUpper :: "char \<Rightarrow> char" where
  "ascii_ToUpper c = (if 0x61 \<le> byte c \<and> byte c \<le> 0x7A then char_of (byte c - 32) else c)"

text \<open>
  \<^verbatim>\<open>strings.ToUpper\<close>: byte by byte when the string is ASCII, otherwise
  \<^verbatim>\<open>strings.Map(unicode.ToUpper, s)\<close>, which re-encodes every rune (an invalid byte as U+FFFD).
\<close>

definition ToUpper :: "string \<Rightarrow> string" where
  "ToUpper s =
     (if \<forall>c \<in> set s. byte c < 0x80 then map ascii_ToUpper s
      else concat (map (\<lambda>(r, _). EncodeRune (unicode_ToUpper r)) (rune_chunks s)))"

lemma ToUpper_runes: "ToUpper s = concat (map EncodeRune (map unicode_ToUpper (runes s)))"
proof (cases "\<forall>c \<in> set s. byte c < 0x80")
  case True
  have "concat (map (\<lambda>c. EncodeRune (unicode_ToUpper (byte c))) s) = map ascii_ToUpper s"
    using True
    by (induction s) (auto simp: EncodeRune_def unicode_ToUpper_def ascii_ToUpper_def)
  then show ?thesis using True by (simp add: ToUpper_def runes_def runes_ascii comp_def)
next
  case False
  show ?thesis unfolding ToUpper_def if_not_P [OF False]
    by (simp add: runes_def comp_def case_prod_unfold)
qed

lemma runes_ToUpper: "runes (ToUpper s) = map unicode_ToUpper (runes s)"
  unfolding ToUpper_runes
  by (rule runes_concat_EncodeRune) (auto simp: unicode_ToUpper_valid valid_rune_runes)

lemma ToUpper_idem [simp]: "ToUpper (ToUpper s) = ToUpper s"
proof -
  have "ToUpper (ToUpper s) = concat (map EncodeRune (map unicode_ToUpper (map unicode_ToUpper (runes s))))"
    by (simp only: ToUpper_runes [of "ToUpper s"] runes_ToUpper)
  then show ?thesis by (simp add: ToUpper_runes [of s] comp_def unicode_ToUpper_idem)
qed

lemma valid_utf8_ToUpper [simp]: "valid_utf8 (ToUpper s)"
  unfolding valid_utf8_iff
  by (rule exI [of _ "map unicode_ToUpper (runes s)"])
    (auto simp: ToUpper_runes unicode_ToUpper_valid valid_rune_runes)

lemma trimmed_ToUpper: "trimmed s \<Longrightarrow> trimmed (ToUpper s)"
proof -
  assume t: "trimmed s"
  have "hd (map unicode_ToUpper (runes s)) \<notin> set space_runes \<and> last (map unicode_ToUpper (runes s)) \<notin> set space_runes"
    if "runes s \<noteq> []"
    using that trimmed_hd_rune [OF t] trimmed_last_rune [OF t] unicode_ToUpper_space
    by (metis append_butlast_last_id hd_map last_map list.collapse)
  then show ?thesis unfolding ToUpper_runes
    by (intro trimmed_concat_EncodeRune) (auto simp: unicode_ToUpper_valid valid_rune_runes)
qed

lemma TrimSpace_ToUpper_TrimSpace [simp]: "TrimSpace (ToUpper (TrimSpace s)) = ToUpper (TrimSpace s)"
  by (simp add: TrimSpace_id trimmed_ToUpper)

text \<open>\<open>upper_trim\<close> is the composition \<^verbatim>\<open>strings.ToUpper(strings.TrimSpace(v))\<close> of the enum parsers.\<close>

definition upper_trim :: "string \<Rightarrow> string" where
  "upper_trim s = ToUpper (TrimSpace s)"

lemma upper_trim_idem [simp]: "upper_trim (upper_trim s) = upper_trim s"
  by (simp add: upper_trim_def)

lemma TrimSpace_upper_trim [simp]: "TrimSpace (upper_trim s) = upper_trim s"
  by (simp add: upper_trim_def)

lemma valid_utf8_upper_trim [simp]: "valid_utf8 (upper_trim s)"
  by (simp add: upper_trim_def)

end
