(* ===== verification/GoJson.thy ===== *)
theory GoJson
  imports UnicodeCase
begin

text \<open>
  The parts of Go's \<^verbatim>\<open>encoding/json\<close> the program uses: the compact, HTML-escaping encoder of
  \<^verbatim>\<open>json.Marshal\<close>, the parser behind \<^verbatim>\<open>json.Unmarshal\<close> and \<^verbatim>\<open>json.Decoder\<close>, and decoding into typed
  values. The main result is that parsing what the encoder prints gives the value back.
\<close>

section \<open>JSON values and the encoder\<close>

text \<open>
  A number is kept as its literal and a string as the raw text between its quotes, as
  \<^verbatim>\<open>encoding/json\<close> does until it knows the target type; the names of members are unquoted.
\<close>

datatype json =
    JNull
  | JBool bool
  | JNum string
  | JStr string
  | JArr "json list"
  | JObj "(string \<times> json) list"

definition hex_digit :: "nat \<Rightarrow> char" where
  "hex_digit n = ''0123456789abcdef'' ! n"

definition json_escape_rune :: "nat \<times> string \<Rightarrow> string" where
  "json_escape_rune rc = (case rc of (r, c) \<Rightarrow>
     if r < 0x80 then
       (if r = 0x22 \<or> r = 0x5C then CHR 0x5C # c
        else if r = 0x08 then [CHR 0x5C, CHR ''b'']
        else if r = 0x0C then [CHR 0x5C, CHR ''f'']
        else if r = 0x0A then [CHR 0x5C, CHR ''n'']
        else if r = 0x0D then [CHR 0x5C, CHR ''r'']
        else if r = 0x09 then [CHR 0x5C, CHR ''t'']
        else if r < 0x20 \<or> r = 0x3C \<or> r = 0x3E \<or> r = 0x26 then
          [CHR 0x5C, CHR ''u'', CHR ''0'', CHR ''0'', hex_digit (r div 16), hex_digit (r mod 16)]
        else c)
     else if r = RuneError \<and> length c = 1 then CHR 0x5C # ''ufffd''
     else if r = 0x2028 then CHR 0x5C # ''u2028''
     else if r = 0x2029 then CHR 0x5C # ''u2029''
     else c)"

definition json_escape :: "string \<Rightarrow> string" where
  "json_escape s = concat (map json_escape_rune (rune_chunks s))"

definition json_quote :: "string \<Rightarrow> string" where
  "json_quote s = CHR 0x22 # json_escape s @ [CHR 0x22]"

definition jstring :: "string \<Rightarrow> json" where
  "jstring s = JStr (json_escape s)"

fun json_print :: "json \<Rightarrow> string"
  and json_print_items :: "json list \<Rightarrow> string"
  and json_print_members :: "(string \<times> json) list \<Rightarrow> string" where
  "json_print JNull = ''null''"
| "json_print (JBool b) = (if b then ''true'' else ''false'')"
| "json_print (JNum lit) = lit"
| "json_print (JStr raw) = CHR 0x22 # raw @ [CHR 0x22]"
| "json_print (JArr xs) = ''['' @ json_print_items xs @ '']''"
| "json_print (JObj ms) = ''{'' @ json_print_members ms @ ''}''"
| "json_print_items [] = []"
| "json_print_items [x] = json_print x"
| "json_print_items (x # y # xs) = json_print x @ '','' @ json_print_items (y # xs)"
| "json_print_members [] = []"
| "json_print_members [(k, v)] = json_quote k @ '':'' @ json_print v"
| "json_print_members ((k, v) # m # ms) =
     json_quote k @ '':'' @ json_print v @ '','' @ json_print_members (m # ms)"

text \<open>Decimal integers (\<^verbatim>\<open>strconv.AppendInt\<close>).\<close>

fun nat_dec :: "nat \<Rightarrow> string" where
  "nat_dec n = (if n < 10 then [char_of (48 + n)] else nat_dec (n div 10) @ [char_of (48 + n mod 10)])"

declare nat_dec.simps [simp del]

definition int_dec :: "int \<Rightarrow> string" where
  "int_dec i = (if i < 0 then CHR ''-'' # nat_dec (nat (- i)) else nat_dec (nat i))"

section \<open>The parser\<close>

definition json_space :: "char \<Rightarrow> bool" where
  "json_space c \<longleftrightarrow> c = CHR 0x20 \<or> c = CHR 0x09 \<or> c = CHR 0x0A \<or> c = CHR 0x0D"

definition skip_ws :: "string \<Rightarrow> string" where
  "skip_ws s = dropWhile json_space s"

definition is_digit :: "char \<Rightarrow> bool" where
  "is_digit c \<longleftrightarrow> 48 \<le> byte c \<and> byte c \<le> 57"

definition hex_value :: "char \<Rightarrow> nat option" where
  "hex_value c =
     (if 0x30 \<le> byte c \<and> byte c \<le> 0x39 then Some (byte c - 0x30)
      else if 0x61 \<le> byte c \<and> byte c \<le> 0x66 then Some (byte c - 0x61 + 10)
      else if 0x41 \<le> byte c \<and> byte c \<le> 0x46 then Some (byte c - 0x41 + 10)
      else None)"

fun hex4 :: "string \<Rightarrow> (nat \<times> string) option" where
  "hex4 (a # b # c # d # rest) =
     (case (hex_value a, hex_value b, hex_value c, hex_value d) of
        (Some w, Some x, Some y, Some z) \<Rightarrow> Some (((w * 16 + x) * 16 + y) * 16 + z, rest)
      | _ \<Rightarrow> None)"
| "hex4 _ = None"

text \<open>
  The escape \<^verbatim>\<open>\uXXXX\<close>: a high surrogate joins a following low one, any other surrogate is
  U+FFFD.
\<close>

definition utf16_escape :: "nat \<Rightarrow> string \<Rightarrow> string \<times> string" where
  "utf16_escape r rest =
     (if 0xD800 \<le> r \<and> r < 0xE000 then
        (case rest of
           b # u # rest' \<Rightarrow>
             if b = CHR 0x5C \<and> u = CHR ''u'' then
               (case hex4 rest' of
                  Some (r2, rest'') \<Rightarrow>
                    if r < 0xDC00 \<and> 0xDC00 \<le> r2 \<and> r2 < 0xE000
                    then (EncodeRune ((r - 0xD800) * 1024 + (r2 - 0xDC00) + 0x10000), rest'')
                    else (EncodeRune RuneError, rest)
                | None \<Rightarrow> (EncodeRune RuneError, rest))
             else (EncodeRune RuneError, rest)
         | _ \<Rightarrow> (EncodeRune RuneError, rest))
      else (EncodeRune r, rest))"

fun parse_escape :: "string \<Rightarrow> (string \<times> string) option" where
  "parse_escape [] = None"
| "parse_escape (c # rest) =
     (if c = CHR 0x22 \<or> c = CHR 0x5C \<or> c = CHR ''/'' then Some ([c], rest)
      else if c = CHR ''b'' then Some ([CHR 0x08], rest)
      else if c = CHR ''f'' then Some ([CHR 0x0C], rest)
      else if c = CHR ''n'' then Some ([CHR 0x0A], rest)
      else if c = CHR ''r'' then Some ([CHR 0x0D], rest)
      else if c = CHR ''t'' then Some ([CHR 0x09], rest)
      else if c = CHR ''u'' then
        (case hex4 rest of None \<Rightarrow> None | Some (r, rest') \<Rightarrow> Some (utf16_escape r rest'))
      else None)"

lemma hex4_length: "hex4 s = Some (r, t) \<Longrightarrow> length t < length s"
  by (induction s rule: hex4.induct) (auto split: option.splits)

lemma utf16_escape_length: "utf16_escape r s = (out, t) \<Longrightarrow> length t \<le> length s"
  by (auto simp: utf16_escape_def split: list.splits option.splits if_splits dest!: hex4_length)

lemma parse_escape_length: "parse_escape s = Some (out, t) \<Longrightarrow> length t < length s"
  by (cases s) (auto split: if_splits option.splits dest!: hex4_length utf16_escape_length)

text \<open>The rest of a string literal, after its opening quote.\<close>

function parse_str :: "string \<Rightarrow> (string \<times> string) option" where
  "parse_str s =
     (case s of
        [] \<Rightarrow> None
      | c # t \<Rightarrow>
          if c = CHR 0x22 then Some ([], t)
          else if byte c < 0x20 then None
          else if c = CHR 0x5C then
            (case parse_escape t of
               None \<Rightarrow> None
             | Some (out, t') \<Rightarrow>
                 (case parse_str t' of None \<Rightarrow> None | Some (str, rest) \<Rightarrow> Some (out @ str, rest)))
          else
            (case DecodeRune s of
               (r, n) \<Rightarrow>
                 (case parse_str (drop n s) of
                    None \<Rightarrow> None | Some (str, rest) \<Rightarrow> Some (EncodeRune r @ str, rest))))"
  by pat_completeness auto
termination
proof (relation "measure length", goal_cases)
  case (2 s c t x out t')
  then show ?case by (auto dest: parse_escape_length)
next
  case (3 s c t r n)
  then have "1 \<le> n" using DecodeRune_width [of s] by (metis list.discI snd_conv)
  with 3 show ?case by simp
qed simp

declare parse_str.simps [simp del]

lemma parse_str_quote: "parse_str (CHR 0x22 # t) = Some ([], t)"
  by (simp add: parse_str.simps)

lemma parse_str_escape:
  "parse_escape t = Some (out, t') \<Longrightarrow>
     parse_str (CHR 0x5C # t) = map_option (apfst ((@) out)) (parse_str t')"
  by (subst parse_str.simps) (auto split: option.splits)

lemma parse_str_plain:
  assumes "DecodeRune s = (r, n)" "s = c # t" "0x20 \<le> byte c" "c \<noteq> CHR 0x22" "c \<noteq> CHR 0x5C"
  shows "parse_str s = map_option (apfst ((@) (EncodeRune r))) (parse_str (drop n s))"
  using assms by (subst parse_str.simps) (auto split: option.splits)

lemma hd_EncodeRune_multibyte:
  assumes "0x80 \<le> r" "valid_rune r"
  obtains c cs where "EncodeRune r = c # cs" "0x80 \<le> byte c"
proof -
  note digits = base64_digits [of r]
  have "r div 4096 < 16" if "r < 0x10000" using that digits by linarith
  moreover have "r div 64 < 32" if "r < 0x800" using that digits by linarith
  moreover have "r div 262144 < 16" using assms digits unfolding valid_rune_def by linarith
  ultimately have "\<exists>c cs. EncodeRune r = c # cs \<and> 0x80 \<le> byte c"
    using assms by (auto simp: EncodeRune_def)
  then show thesis using that by blast
qed

lemma hex_digit_value: "n < 16 \<Longrightarrow> hex_value (hex_digit n) = Some n"
proof -
  assume "n < 16"
  then have "n \<in> set [0..<16]" by simp
  then show ?thesis by (simp add: upt_rec) (auto simp: hex_digit_def hex_value_def)
qed

lemma parse_escape_u00:
  assumes "r < 0x80"
  shows "parse_escape ([CHR ''u'', CHR ''0'', CHR ''0'', hex_digit (r div 16), hex_digit (r mod 16)] @ u)
    = Some (EncodeRune r, u)"
proof -
  have "hex_value (CHR ''0'') = Some 0" by (simp add: hex_value_def)
  then have "hex4 (CHR ''0'' # CHR ''0'' # hex_digit (r div 16) # hex_digit (r mod 16) # u) = Some (r, u)"
    using assms by (simp add: hex_digit_value)
  then show ?thesis using assms by (simp add: utf16_escape_def)
qed

lemma parse_escape_line_separators:
  "parse_escape (''u2028'' @ u) = Some (EncodeRune 0x2028, u)"
  "parse_escape (''u2029'' @ u) = Some (EncodeRune 0x2029, u)"
  by (simp_all add: hex_value_def utf16_escape_def)

lemma char_of_consts:
  "char_of (0x22::nat) = CHR 0x22" "char_of (0x5C::nat) = CHR 0x5C" "char_of (0x08::nat) = CHR 0x08"
  "char_of (0x0C::nat) = CHR 0x0C" "char_of (0x0A::nat) = CHR 0x0A" "char_of (0x0D::nat) = CHR 0x0D"
  "char_of (0x09::nat) = CHR 0x09"
  by (simp_all only: char_of_eq_iff) simp_all

lemma parse_str_ascii_rune:
  assumes "r < 0x80"
  shows "parse_str (json_escape_rune (r, EncodeRune r) @ u) =
    map_option (apfst ((@) (EncodeRune r))) (parse_str u)"
proof -
  have enc: "EncodeRune r = [char_of r]" using assms by (simp add: EncodeRune_def)
  consider "r = 0x22 \<or> r = 0x5C" | "r = 0x08 \<or> r = 0x0C \<or> r = 0x0A \<or> r = 0x0D \<or> r = 0x09"
    | "r \<notin> {0x22, 0x5C, 0x08, 0x0C, 0x0A, 0x0D, 0x09}" "r < 0x20 \<or> r = 0x3C \<or> r = 0x3E \<or> r = 0x26"
    | "r \<notin> {0x22, 0x5C, 0x08, 0x0C, 0x0A, 0x0D, 0x09}" "\<not> (r < 0x20 \<or> r = 0x3C \<or> r = 0x3E \<or> r = 0x26)"
    by auto
  then show ?thesis
  proof cases
    case 1
    then show ?thesis
      by (elim disjE) (simp_all add: json_escape_rune_def EncodeRune_def parse_str_escape char_of_consts)
  next
    case 2
    then show ?thesis by (elim disjE) (simp_all add: json_escape_rune_def EncodeRune_def parse_str_escape char_of_consts)
  next
    case 3
    then have "json_escape_rune (r, EncodeRune r) @ u =
        CHR 0x5C # ([CHR ''u'', CHR ''0'', CHR ''0'', hex_digit (r div 16), hex_digit (r mod 16)] @ u)"
      using assms by (auto simp: json_escape_rune_def)
    then show ?thesis using parse_str_escape [OF parse_escape_u00 [OF assms]] by simp
  next
    case 4
    then have esc: "json_escape_rune (r, EncodeRune r) = [char_of r]"
      using assms by (auto simp: json_escape_rune_def enc)
    have "char_of r \<noteq> CHR 0x22" "char_of r \<noteq> CHR 0x5C"
      using 4 assms by (auto dest: arg_cong [of _ _ byte])
    then show ?thesis
      using parse_str_plain [of "char_of r # u" r 1 "char_of r" u] 4 assms
      by (simp add: esc DecodeRune.simps)
  qed
qed

lemma parse_str_escape_rune:
  assumes "valid_rune r"
  shows "parse_str (json_escape_rune (r, EncodeRune r) @ u) =
    map_option (apfst ((@) (EncodeRune r))) (parse_str u)"
proof (cases "r < 0x80")
  case True
  then show ?thesis by (rule parse_str_ascii_rune)
next
  case False
  then obtain c cs where c: "EncodeRune r = c # cs" "0x80 \<le> byte c"
    using hd_EncodeRune_multibyte assms by (metis not_less)
  have "length (EncodeRune r) \<noteq> 1" using False by (simp add: EncodeRune_def)
  then have "r \<noteq> 0x2028 \<Longrightarrow> r \<noteq> 0x2029 \<Longrightarrow> json_escape_rune (r, EncodeRune r) = EncodeRune r"
    using False by (simp add: json_escape_rune_def)
  then consider "r = 0x2028" | "r = 0x2029" | "json_escape_rune (r, EncodeRune r) = EncodeRune r"
    by blast
  then show ?thesis
  proof cases
    case 3
    have "c \<noteq> CHR 0x22" "c \<noteq> CHR 0x5C" using c(2) by auto
    then show ?thesis
      using parse_str_plain [OF DecodeRune_EncodeRune [OF assms, of u]] c 3 by simp
  qed (simp_all add: json_escape_rune_def RuneError_def
      parse_str_escape [OF parse_escape_line_separators(1), simplified]
      parse_str_escape [OF parse_escape_line_separators(2), simplified])
qed

lemma parse_str_json_escape:
  assumes "valid_utf8 s"
  shows "parse_str (json_escape s @ CHR 0x22 # rest) = Some (s, rest)"
proof -
  have "parse_str (concat (map json_escape_rune (map (\<lambda>r. (r, EncodeRune r)) rs)) @ CHR 0x22 # rest)
      = Some (concat (map EncodeRune rs), rest)" if "\<forall>r \<in> set rs. valid_rune r" for rs
    using that by (induction rs) (simp_all add: parse_str_quote parse_str_escape_rune)
  moreover obtain rs where "\<forall>r \<in> set rs. valid_rune r" "s = concat (map EncodeRune rs)"
    using assms valid_utf8_iff by blast
  ultimately show ?thesis by (simp add: json_escape_def rune_chunks_concat_EncodeRune)
qed

text \<open>A string literal is scanned first and unquoted when its target is a string.\<close>

definition scan_str :: "string \<Rightarrow> (string \<times> string) option" where
  "scan_str t =
     (case parse_str t of None \<Rightarrow> None | Some (x, rest) \<Rightarrow> Some (take (length t - Suc (length rest)) t, rest))"

definition json_unquote :: "string \<Rightarrow> string" where
  "json_unquote raw = (case parse_str (raw @ [CHR 0x22]) of Some (s, _) \<Rightarrow> s | None \<Rightarrow> [])"

lemma scan_str_json_escape:
  "valid_utf8 s \<Longrightarrow> scan_str (json_escape s @ CHR 0x22 # rest) = Some (json_escape s, rest)"
  by (simp add: scan_str_def parse_str_json_escape)

lemma json_unquote_escape [simp]: "valid_utf8 s \<Longrightarrow> json_unquote (json_escape s) = s"
  by (simp add: json_unquote_def parse_str_json_escape)

text \<open>Number literals.\<close>

definition scan_digits :: "string \<Rightarrow> string \<Rightarrow> (string \<times> string) option" where
  "scan_digits lit s =
     (case takeWhile is_digit s of [] \<Rightarrow> None | ds \<Rightarrow> Some (lit @ ds, dropWhile is_digit s))"

definition scan_int :: "string \<Rightarrow> string \<Rightarrow> (string \<times> string) option" where
  "scan_int lit s =
     (case s of
        [] \<Rightarrow> None
      | c # t \<Rightarrow> if c = CHR ''0'' then Some (lit @ [c], t) else scan_digits lit s)"

definition scan_frac :: "string \<Rightarrow> string \<Rightarrow> (string \<times> string) option" where
  "scan_frac lit s =
     (case s of c # t \<Rightarrow> if c = CHR ''.'' then scan_digits (lit @ [c]) t else Some (lit, s) | [] \<Rightarrow> Some (lit, s))"

definition scan_exp :: "string \<Rightarrow> string \<Rightarrow> (string \<times> string) option" where
  "scan_exp lit s =
     (case s of
        c # t \<Rightarrow>
          if c = CHR ''e'' \<or> c = CHR ''E'' then
            (case t of
               x # u \<Rightarrow> if x = CHR ''+'' \<or> x = CHR ''-'' then scan_digits (lit @ [c, x]) u else scan_digits (lit @ [c]) t
             | [] \<Rightarrow> None)
          else Some (lit, s)
      | [] \<Rightarrow> Some (lit, s))"

definition scan_number :: "string \<Rightarrow> (string \<times> string) option" where
  "scan_number s =
     Option.bind
       (case s of c # t \<Rightarrow> if c = CHR ''-'' then scan_int [c] t else scan_int [] s | [] \<Rightarrow> None)
       (\<lambda>(lit, s1). Option.bind (scan_frac lit s1) (\<lambda>(lit, s2). scan_exp lit s2))"

text \<open>
  The value parser. \<open>None\<close> means the fuel ran out, \<open>Some (Inl [])\<close> is a syntax error; \<open>d\<close> counts the
  nesting levels that are still allowed (Go allows 10000).
\<close>

type_synonym 'a parsed = "('a \<times> string) res option"

definition parse_bind :: "'a parsed \<Rightarrow> ('a \<Rightarrow> string \<Rightarrow> 'b parsed) \<Rightarrow> 'b parsed" where
  "parse_bind r f =
     (case r of None \<Rightarrow> None | Some (Inl e) \<Rightarrow> Some (Inl e) | Some (Inr (x, rest)) \<Rightarrow> f x rest)"

abbreviation parse_error :: "'a parsed" where
  "parse_error \<equiv> Some (Inl [])"

definition of_scan :: "('a \<Rightarrow> json) \<Rightarrow> ('a \<times> string) option \<Rightarrow> json parsed" where
  "of_scan con r = (case r of None \<Rightarrow> parse_error | Some (x, rest) \<Rightarrow> Some (Inr (con x, rest)))"

fun parse_value :: "nat \<Rightarrow> nat \<Rightarrow> string \<Rightarrow> json parsed"
  and parse_items :: "nat \<Rightarrow> nat \<Rightarrow> string \<Rightarrow> json list parsed"
  and parse_members :: "nat \<Rightarrow> nat \<Rightarrow> string \<Rightarrow> (string \<times> json) list parsed" where
  "parse_value 0 d s = None"
| "parse_value (Suc fuel) d s =
     (case skip_ws s of
        [] \<Rightarrow> parse_error
      | c # t \<Rightarrow>
          if c = CHR 0x22 then of_scan JStr (scan_str t)
          else if c = CHR ''{'' then
            (if d = 0 then parse_error
             else case skip_ws t of
               [] \<Rightarrow> parse_error
             | e # u \<Rightarrow>
                 if e = CHR ''}'' then Some (Inr (JObj [], u))
                 else parse_bind (parse_members fuel (d - 1) t) (\<lambda>ms rest. Some (Inr (JObj ms, rest))))
          else if c = CHR ''['' then
            (if d = 0 then parse_error
             else case skip_ws t of
               [] \<Rightarrow> parse_error
             | e # u \<Rightarrow>
                 if e = CHR '']'' then Some (Inr (JArr [], u))
                 else parse_bind (parse_items fuel (d - 1) t) (\<lambda>xs rest. Some (Inr (JArr xs, rest))))
          else if prefix ''null'' (c # t) then Some (Inr (JNull, drop 4 (c # t)))
          else if prefix ''true'' (c # t) then Some (Inr (JBool True, drop 4 (c # t)))
          else if prefix ''false'' (c # t) then Some (Inr (JBool False, drop 5 (c # t)))
          else of_scan JNum (scan_number (c # t)))"
| "parse_items 0 d s = None"
| "parse_items (Suc fuel) d s =
     parse_bind (parse_value fuel d s) (\<lambda>x s1.
       case skip_ws s1 of
         [] \<Rightarrow> parse_error
       | c # t \<Rightarrow>
           if c = CHR '','' then parse_bind (parse_items fuel d t) (\<lambda>xs rest. Some (Inr (x # xs, rest)))
           else if c = CHR '']'' then Some (Inr ([x], t))
           else parse_error)"
| "parse_members 0 d s = None"
| "parse_members (Suc fuel) d s =
     (case skip_ws s of
        [] \<Rightarrow> parse_error
      | q # s1 \<Rightarrow>
          if q \<noteq> CHR 0x22 then parse_error
          else case parse_str s1 of
            None \<Rightarrow> parse_error
          | Some (k, s2) \<Rightarrow>
              (case skip_ws s2 of
                 [] \<Rightarrow> parse_error
               | c # s3 \<Rightarrow>
                   if c \<noteq> CHR '':'' then parse_error
                   else parse_bind (parse_value fuel d s3) (\<lambda>v s4.
                     case skip_ws s4 of
                       [] \<Rightarrow> parse_error
                     | e # t \<Rightarrow>
                         if e = CHR '','' then
                           parse_bind (parse_members fuel d t) (\<lambda>ms rest. Some (Inr ((k, v) # ms, rest)))
                         else if e = CHR ''}'' then Some (Inr ([(k, v)], t))
                         else parse_error)))"

declare parse_value.simps(2) [simp del] parse_items.simps(2) [simp del] parse_members.simps(2) [simp del]

definition max_nesting :: nat where
  "max_nesting = 10000"

text \<open>\<^verbatim>\<open>json.Unmarshal\<close> and \<^verbatim>\<open>decodeStrict\<close> accept exactly one value surrounded by white space.\<close>

definition json_parse :: "string \<Rightarrow> json res" where
  "json_parse s =
     (case parse_value (Suc (2 * length s)) max_nesting s of
        None \<Rightarrow> Inl []
      | Some (Inl e) \<Rightarrow> Inl e
      | Some (Inr (v, rest)) \<Rightarrow> if skip_ws rest = [] then Inr v else Inl [])"

subsection \<open>The fuel is enough\<close>

lemma skip_ws_length: "length (skip_ws s) \<le> length s"
  by (simp add: skip_ws_def length_dropWhile_le)

lemma skip_ws_Cons_length: "skip_ws s = c # t \<Longrightarrow> length t < length s"
  using skip_ws_length [of s] by simp

lemma parse_str_Cons:
  "parse_str (c # t) =
     (if c = CHR 0x22 then Some ([], t)
      else if byte c < 0x20 then None
      else if c = CHR 0x5C then
        Option.bind (parse_escape t) (\<lambda>(out, t'). map_option (apfst ((@) out)) (parse_str t'))
      else (case DecodeRune (c # t) of (r, n) \<Rightarrow>
        map_option (apfst ((@) (EncodeRune r))) (parse_str (drop n (c # t)))))"
  by (subst parse_str.simps) (auto split: option.splits prod.splits)

lemma parse_str_length: "parse_str s = Some (x, t) \<Longrightarrow> length t < length s"
proof (induction s arbitrary: x rule: measure_induct_rule [of length])
  case (less s)
  show ?case
  proof (cases s)
    case Nil
    with less.prems show ?thesis by (simp add: parse_str.simps)
  next
    case (Cons c u)
    obtain r n where d: "DecodeRune (c # u) = (r, n)" by fastforce
    have n: "length (drop n (c # u)) < length s"
      using DecodeRune_width [of "c # u"] d Cons by auto
    show ?thesis using less Cons d n less.IH [OF n]
      by (fastforce simp: parse_str_Cons bind_eq_Some_conv split: if_splits dest: parse_escape_length)
  qed
qed

lemma scan_str_length: "scan_str s = Some (x, t) \<Longrightarrow> length t < length s"
  by (auto simp: scan_str_def dest: parse_str_length split: option.splits)

lemma scan_digits_length: "scan_digits lit s = Some (l, t) \<Longrightarrow> length t < length s"
proof -
  assume a: "scan_digits lit s = Some (l, t)"
  then have "takeWhile is_digit s \<noteq> []" and t: "t = dropWhile is_digit s"
    by (auto simp: scan_digits_def split: list.splits)
  then have "0 < length (takeWhile is_digit s)" by simp
  then show ?thesis using t takeWhile_dropWhile_id [of is_digit s] by (metis add_less_cancel_right add_0 length_append)
qed

lemma scan_number_length:
  assumes "scan_number s = Some (l, t)"
  shows "length t < length s"
proof -
  have int: "length t < length s" if "scan_int lit s = Some (l, t)" for lit s l t
    using that scan_digits_length by (fastforce simp: scan_int_def split: list.splits if_splits)
  have frac: "length t \<le> length s" if "scan_frac lit s = Some (l, t)" for lit s l t
    using that scan_digits_length by (fastforce simp: scan_frac_def split: list.splits if_splits)
  have exp: "length t \<le> length s" if "scan_exp lit s = Some (l, t)" for lit s l t
    using that scan_digits_length by (fastforce simp: scan_exp_def split: list.splits if_splits)
  show ?thesis using assms
    by (fastforce simp: scan_number_def bind_eq_Some_conv split: list.splits if_splits
        dest!: int frac exp)
qed

text \<open>One unfolding of the parsers, by the first byte that is no white space.\<close>

lemma parse_value_Nil: "skip_ws s = [] \<Longrightarrow> parse_value (Suc n) d s = parse_error"
  by (simp add: parse_value.simps)

lemma parse_value_quote:
  "skip_ws s = CHR 0x22 # t \<Longrightarrow> parse_value (Suc n) d s = of_scan JStr (scan_str t)"
  by (simp add: parse_value.simps)

lemma parse_value_object:
  "skip_ws s = CHR ''{'' # t \<Longrightarrow> parse_value (Suc n) d s =
     (if d = 0 then parse_error
      else case skip_ws t of
        [] \<Rightarrow> parse_error
      | e # u \<Rightarrow>
          if e = CHR ''}'' then Some (Inr (JObj [], u))
          else parse_bind (parse_members n (d - 1) t) (\<lambda>ms rest. Some (Inr (JObj ms, rest))))"
  by (simp add: parse_value.simps)

lemma parse_value_array:
  "skip_ws s = CHR ''['' # t \<Longrightarrow> parse_value (Suc n) d s =
     (if d = 0 then parse_error
      else case skip_ws t of
        [] \<Rightarrow> parse_error
      | e # u \<Rightarrow>
          if e = CHR '']'' then Some (Inr (JArr [], u))
          else parse_bind (parse_items n (d - 1) t) (\<lambda>xs rest. Some (Inr (JArr xs, rest))))"
  by (simp add: parse_value.simps)

lemma parse_value_other:
  "skip_ws s = c # t \<Longrightarrow> c \<noteq> CHR 0x22 \<Longrightarrow> c \<noteq> CHR ''{'' \<Longrightarrow> c \<noteq> CHR ''['' \<Longrightarrow> parse_value (Suc n) d s =
     (if prefix ''null'' (c # t) then Some (Inr (JNull, drop 4 (c # t)))
      else if prefix ''true'' (c # t) then Some (Inr (JBool True, drop 4 (c # t)))
      else if prefix ''false'' (c # t) then Some (Inr (JBool False, drop 5 (c # t)))
      else of_scan JNum (scan_number (c # t)))"
  by (simp add: parse_value.simps)

text \<open>A parse that did not run out of fuel and, when it succeeds, consumed input.\<close>

definition progress :: "string \<Rightarrow> 'a parsed \<Rightarrow> bool" where
  "progress s r \<longleftrightarrow> (case r of None \<Rightarrow> False | Some (Inl e) \<Rightarrow> True | Some (Inr (x, t)) \<Rightarrow> length t < length s)"

lemma progress_error [simp]: "progress s parse_error"
  by (simp add: progress_def)

lemma progress_ret [simp]: "progress s (Some (Inr (x, t))) \<longleftrightarrow> length t < length s"
  by (simp add: progress_def)

lemma progress_bind:
  assumes "progress u r" "\<And>x t. length t < length u \<Longrightarrow> progress s (f x t)"
  shows "progress s (parse_bind r f)"
proof (cases "\<exists>x t. r = Some (Inr (x, t))")
  case True
  then obtain x t where "r = Some (Inr (x, t))" by blast
  then show ?thesis using assms by (simp add: parse_bind_def)
next
  case False
  then show ?thesis using assms(1)
    by (auto simp: progress_def parse_bind_def split: option.splits sum.splits)
qed

lemma progress_of_scan: "(\<And>x t. r = Some (x, t) \<Longrightarrow> length t < length s) \<Longrightarrow> progress s (of_scan con r)"
  by (auto simp: of_scan_def split: option.splits)

lemma progress_value:
  assumes items: "\<And>d u. length u < length s \<Longrightarrow> progress u (parse_items n d u)"
    and members: "\<And>d u. length u < length s \<Longrightarrow> progress u (parse_members n d u)"
  shows "progress s (parse_value (Suc n) d s)"
proof (cases "skip_ws s")
  case Nil
  then show ?thesis by (simp add: parse_value_Nil)
next
  case (Cons c u)
  then have u: "length u < length s" by (rule skip_ws_Cons_length)
  have inner: "length t < length s" if "skip_ws u = e # t" for e t
    using skip_ws_Cons_length [OF that] u by simp
  have obj: "progress s (parse_bind (parse_members n d' u) (\<lambda>ms rest. Some (Inr (JObj ms, rest))))" for d'
    using u by (intro progress_bind [OF members]) auto
  have arr: "progress s (parse_bind (parse_items n d' u) (\<lambda>xs rest. Some (Inr (JArr xs, rest))))" for d'
    using u by (intro progress_bind [OF items]) auto
  have str: "progress s (of_scan JStr (scan_str u))"
    using u by (intro progress_of_scan) (auto dest: scan_str_length)
  have num: "progress s (of_scan JNum (scan_number (c # u)))"
    using u by (intro progress_of_scan) (auto dest: scan_number_length)
  have "length u - k < length s" for k using u by simp
  then show ?thesis
    using str num obj arr inner u Cons
    by (cases "c = CHR 0x22"; cases "c = CHR ''{''"; cases "c = CHR ''[''")
      (simp_all add: parse_value_quote parse_value_object parse_value_array parse_value_other split: list.split)
qed

lemma progress_items:
  assumes val: "progress s (parse_value n d s)"
    and items: "\<And>u. length u < length s \<Longrightarrow> progress u (parse_items n d u)"
  shows "progress s (parse_items (Suc n) d s)"
  unfolding parse_items.simps
proof (rule progress_bind [OF val])
  fix x and s1 :: string
  assume s1: "length s1 < length s"
  have u: "length u < length s" if "skip_ws s1 = e # u" for e u
    using skip_ws_Cons_length [OF that] s1 by simp
  have "progress s (parse_bind (parse_items n d u) (\<lambda>xs rest. Some (Inr (x # xs, rest))))"
    if "length u < length s" for u
    using that by (intro progress_bind [OF items]) auto
  then show "progress s (case skip_ws s1 of [] \<Rightarrow> parse_error
       | c # t \<Rightarrow> if c = CHR '','' then parse_bind (parse_items n d t) (\<lambda>xs rest. Some (Inr (x # xs, rest)))
           else if c = CHR '']'' then Some (Inr ([x], t)) else parse_error)"
    using u by (simp split: list.split)
qed

lemma progress_members:
  assumes val: "\<And>u. length u < length s \<Longrightarrow> progress u (parse_value n d u)"
    and members: "\<And>u. length u < length s \<Longrightarrow> progress u (parse_members n d u)"
  shows "progress s (parse_members (Suc n) d s)"
proof -
  have tail: "progress s (case skip_ws s4 of [] \<Rightarrow> parse_error
      | e # t \<Rightarrow> if e = CHR '','' then
                   parse_bind (parse_members n d t) (\<lambda>ms rest. Some (Inr ((k, v) # ms, rest)))
                 else if e = CHR ''}'' then Some (Inr ([(k, v)], t)) else parse_error)"
    if "length s4 < length s" for k v s4
  proof -
    have u: "length u < length s" if "skip_ws s4 = e # u" for e u
      using skip_ws_Cons_length [OF that] \<open>length s4 < length s\<close> by simp
    have "progress s (parse_bind (parse_members n d u) (\<lambda>ms rest. Some (Inr ((k, v) # ms, rest))))"
      if "length u < length s" for u
      using that by (intro progress_bind [OF members]) auto
    then show ?thesis using u by (simp split: list.split)
  qed
  have "progress s (parse_bind (parse_value n d s3) f)"
    if "length s3 < length s" "\<And>v s4. length s4 < length s3 \<Longrightarrow> progress s (f v s4)" for s3 f
    using that by (intro progress_bind [OF val]) auto
  note bind = this
  have shorter: "length s3 < length s"
    if "skip_ws s = q # s1" "parse_str s1 = Some (k, s2)" "skip_ws s2 = c # s3" for q s1 k s2 c s3
    using skip_ws_Cons_length [OF that(1)] parse_str_length [OF that(2)] skip_ws_Cons_length [OF that(3)]
    by linarith
  show ?thesis unfolding parse_members.simps
    by (auto split: list.split option.split intro!: bind tail dest: shorter)
qed

lemma parse_fuel_enough:
  "2 * length s < n \<Longrightarrow> progress s (parse_value n d s)"
  "2 * length s + 1 < n \<Longrightarrow> progress s (parse_items n d s)"
  "2 * length s + 1 < n \<Longrightarrow> progress s (parse_members n d s)"
proof (induction n arbitrary: d s)
  case (Suc n)
  {
    case 1
    then show ?case by (intro progress_value Suc) auto
  next
    case 2
    then show ?case by (intro progress_items Suc) auto
  next
    case 3
    then show ?case by (intro progress_members Suc) auto
  }
qed simp_all


section \<open>Numbers\<close>

text \<open>What may follow a value in compact output: nothing, a comma, a closing bracket or the end of a line.\<close>

definition delimited :: "string \<Rightarrow> bool" where
  "delimited rest \<longleftrightarrow> rest = [] \<or> hd rest \<in> {CHR '','', CHR '']'', CHR ''}'', CHR 0x0A}"

lemma takeWhile_delimited: "delimited rest \<Longrightarrow> takeWhile is_digit (s @ rest) = takeWhile is_digit s"
  by (induction s; cases rest) (auto simp: delimited_def is_digit_def)

lemma dropWhile_delimited: "delimited rest \<Longrightarrow> dropWhile is_digit (s @ rest) = dropWhile is_digit s @ rest"
  by (induction s; cases rest) (auto simp: delimited_def is_digit_def)

lemma scan_digits_append:
  "scan_digits lit s = Some (l, t) \<Longrightarrow> delimited rest \<Longrightarrow> scan_digits lit (s @ rest) = Some (l, t @ rest)"
  by (auto simp: scan_digits_def takeWhile_delimited dropWhile_delimited split: list.splits)

lemma scan_number_append:
  assumes "scan_number s = Some (l, t)" "delimited rest"
  shows "scan_number (s @ rest) = Some (l, t @ rest)"
proof -
  have int: "scan_int lit (s @ rest) = Some (l, t @ rest)" if "scan_int lit s = Some (l, t)" for lit s l t
    using that scan_digits_append [OF _ assms(2), of lit s l t]
    by (auto simp: scan_int_def split: list.splits if_splits)
  have stop: "scan_frac lit rest = Some (lit, rest)" "scan_exp lit rest = Some (lit, rest)" for lit
    using assms(2) by (auto simp: scan_frac_def scan_exp_def delimited_def split: list.splits)
  have frac: "scan_frac lit (s @ rest) = Some (l, t @ rest)" if "scan_frac lit s = Some (l, t)" for lit s l t
  proof (cases s)
    case Nil
    with that stop show ?thesis by (simp add: scan_frac_def)
  next
    case (Cons c u)
    with that scan_digits_append [OF _ assms(2)] show ?thesis
      by (auto simp: scan_frac_def split: if_splits)
  qed
  have exp: "scan_exp lit (s @ rest) = Some (l, t @ rest)" if "scan_exp lit s = Some (l, t)" for lit s l t
  proof (cases s)
    case Nil
    with that stop show ?thesis by (simp add: scan_exp_def)
  next
    case (Cons c u)
    show ?thesis
    proof (cases u)
      case Nil
      with that Cons show ?thesis by (simp add: scan_exp_def split: if_splits)
    next
      case (Cons x w)
      with \<open>s = c # u\<close> that scan_digits_append [OF _ assms(2), of _ u]
        scan_digits_append [OF _ assms(2), of _ w] show ?thesis
        by (auto simp: scan_exp_def split: if_splits)
    qed
  qed
  obtain l1 s1 l2 s2 where steps:
      "(case s of c # t \<Rightarrow> if c = CHR ''-'' then scan_int [c] t else scan_int [] s | [] \<Rightarrow> None) = Some (l1, s1)"
      "scan_frac l1 s1 = Some (l2, s2)" "scan_exp l2 s2 = Some (l, t)"
    using assms(1) by (auto simp: scan_number_def bind_eq_Some_conv)
  obtain c u where cu: "s = c # u" using steps(1) by (cases s) auto
  have "(case s @ rest of c # t \<Rightarrow> if c = CHR ''-'' then scan_int [c] t else scan_int [] (s @ rest) | [] \<Rightarrow> None)
      = Some (l1, s1 @ rest)"
    using steps(1) int [of "[c]" u] int [of "[]" s] cu by (auto split: if_splits)
  with frac [OF steps(2)] exp [OF steps(3)] show ?thesis by (simp add: scan_number_def)
qed

definition number_literal :: "string \<Rightarrow> bool" where
  "number_literal l \<longleftrightarrow> scan_number l = Some (l, [])"

lemma nat_dec_digits: "c \<in> set (nat_dec n) \<Longrightarrow> is_digit c"
proof (induction n rule: nat_dec.induct)
  case (1 n)
  then show ?case
    by (subst (asm) (2) nat_dec.simps) (auto simp: is_digit_def split: if_splits)
qed

lemma nat_dec_nonempty [simp]: "nat_dec n \<noteq> []"
  by (subst nat_dec.simps) simp

lemma nat_dec_hd: "0 < n \<Longrightarrow> hd (nat_dec n) \<noteq> CHR ''0''"
proof (induction n rule: nat_dec.induct)
  case (1 n)
  have "char_of (48 + n) \<noteq> CHR ''0''" if "n < 10"
    using that 1(2) by (auto dest: arg_cong [of _ _ byte])
  with 1 show ?case by (subst nat_dec.simps) (auto simp: hd_append)
qed

lemma nat_dec_zero: "nat_dec 0 = ''0''"
proof -
  have "char_of (48::nat) = CHR ''0''" by (simp only: char_of_eq_iff) simp
  then show ?thesis by (subst nat_dec.simps) simp
qed

lemma scan_int_nat_dec: "scan_int lit (nat_dec n) = Some (lit @ nat_dec n, [])"
proof (cases "n = 0")
  case True
  then show ?thesis by (simp add: nat_dec_zero scan_int_def)
next
  case False
  have all: "takeWhile is_digit (nat_dec n) = nat_dec n" "dropWhile is_digit (nat_dec n) = []"
    using nat_dec_digits by (simp_all add: takeWhile_eq_all_conv dropWhile_eq_Nil_conv)
  obtain c t where ct: "nat_dec n = c # t" by (meson nat_dec_nonempty neq_Nil_conv)
  with False nat_dec_hd [of n] have "c \<noteq> CHR ''0''" by simp
  with all ct show ?thesis by (simp add: scan_int_def scan_digits_def)
qed

lemma number_literal_int_dec [simp]: "number_literal (int_dec i)"
proof -
  obtain c t where ct: "nat_dec (nat i) = c # t" by (meson nat_dec_nonempty neq_Nil_conv)
  then have "is_digit c" using nat_dec_digits [of c "nat i"] by simp
  then have "c \<noteq> CHR ''-''" by (auto simp: is_digit_def)
  then show ?thesis
    using scan_int_nat_dec [of "[]" "nat i"] ct
    by (simp add: number_literal_def int_dec_def scan_number_def scan_int_nat_dec scan_frac_def scan_exp_def)
qed

text \<open>\<^verbatim>\<open>strconv.ParseInt\<close> on a literal: an optional minus sign and digits only.\<close>

definition digits_value :: "string \<Rightarrow> nat" where
  "digits_value ds = foldl (\<lambda>n c. n * 10 + (byte c - 48)) 0 ds"

definition int_literal :: "string \<Rightarrow> int option" where
  "int_literal l =
     (case l of
        [] \<Rightarrow> None
      | c # t \<Rightarrow>
          if c = CHR ''-'' then
            (if t \<noteq> [] \<and> list_all is_digit t then Some (- int (digits_value t)) else None)
          else if list_all is_digit l then Some (int (digits_value l)) else None)"

lemma digits_value_nat_dec: "digits_value (nat_dec n) = n"
proof (induction n rule: nat_dec.induct)
  case (1 n)
  show ?case
  proof (cases "n < 10")
    case True
    then show ?thesis by (subst nat_dec.simps) (simp add: digits_value_def)
  next
    case False
    then show ?thesis using 1 by (subst nat_dec.simps) (simp add: digits_value_def)
  qed
qed

lemma int_literal_int_dec [simp]: "int_literal (int_dec i) = Some i"
proof -
  have digits: "list_all is_digit (nat_dec n)" for n using nat_dec_digits by (simp add: list_all_iff)
  obtain c t where ct: "nat_dec (nat i) = c # t" by (meson nat_dec_nonempty neq_Nil_conv)
  then have "is_digit c" using nat_dec_digits [of c "nat i"] by simp
  then have "c \<noteq> CHR ''-''" by (auto simp: is_digit_def)
  then show ?thesis
    using ct digits [of "nat i"] digits [of "nat (- i)"] digits_value_nat_dec [of "nat i"]
    by (auto simp: int_literal_def int_dec_def digits_value_nat_dec)
qed

section \<open>Parsing what was printed\<close>

text \<open>Values the encoder prints faithfully: valid UTF-8 in every string, well-formed number literals.\<close>

fun json_ok :: "json \<Rightarrow> bool" where
  "json_ok JNull = True"
| "json_ok (JBool b) = True"
| "json_ok (JNum l) = number_literal l"
| "json_ok (JStr raw) = (valid_utf8 (json_unquote raw) \<and> json_escape (json_unquote raw) = raw)"
| "json_ok (JArr xs) = list_all json_ok xs"
| "json_ok (JObj ms) = list_all (\<lambda>(k, v). valid_utf8 k \<and> json_ok v) ms"

fun json_depth :: "json \<Rightarrow> nat" where
  "json_depth (JArr xs) = Suc (fold max (map json_depth xs) 0)"
| "json_depth (JObj ms) = Suc (fold max (map (\<lambda>(k, v). json_depth v) ms) 0)"
| "json_depth _ = 0"

lemma json_ok_jstring [simp]: "valid_utf8 s \<Longrightarrow> json_ok (jstring s)"
  by (simp add: jstring_def)

lemma json_depth_jstring [simp]: "json_depth (jstring s) = 0"
  by (simp add: jstring_def)

lemma fold_max_le: "fold max ns a \<le> (b::nat) \<longleftrightarrow> a \<le> b \<and> list_all (\<lambda>n. n \<le> b) ns"
  by (induction ns arbitrary: a) auto

lemma json_depth_le:
  "json_depth (JArr xs) \<le> d \<longleftrightarrow> 0 < d \<and> list_all (\<lambda>x. json_depth x \<le> d - 1) xs"
  "json_depth (JObj ms) \<le> d \<longleftrightarrow> 0 < d \<and> list_all (\<lambda>(k, v). json_depth v \<le> d - 1) ms"
  by (cases d; auto simp: fold_max_le list_all_iff)+

declare json_depth.simps(1,2) [simp del] json_depth_le [simp]

lemma skip_ws_nonspace [simp]: "\<not> json_space c \<Longrightarrow> skip_ws (c # t) = c # t"
  by (simp add: skip_ws_def)

lemma json_space_punct [simp]:
  "\<not> json_space (CHR '','')" "\<not> json_space (CHR '':'')" "\<not> json_space (CHR 0x22)"
  "\<not> json_space (CHR '']'')" "\<not> json_space (CHR ''}'')" "\<not> json_space (CHR ''['')" "\<not> json_space (CHR ''{'')"
  by (simp_all add: json_space_def)

lemma json_quote_Cons: "\<exists>q. json_quote s = CHR 0x22 # q"
  by (simp add: json_quote_def)

lemma number_literal_hd:
  assumes "number_literal l"
  shows "\<exists>c t. l = c # t \<and> (is_digit c \<or> c = CHR ''-'')"
proof -
  have "is_digit c" if "scan_int lit (c # t) = Some r" for lit c t r
    using that by (auto simp: scan_int_def scan_digits_def is_digit_def split: if_splits)
  with assms show ?thesis
    by (cases l) (auto simp: number_literal_def scan_number_def bind_eq_Some_conv split: if_splits)
qed

lemma json_print_hd:
  assumes "json_ok v"
  shows "\<exists>c t. json_print v = c # t \<and> \<not> json_space c \<and> c \<noteq> CHR '']'' \<and> c \<noteq> CHR ''}''"
proof (cases v)
  case (JNum l)
  then obtain c t where "l = c # t" "is_digit c \<or> c = CHR ''-''"
    using number_literal_hd [of l] assms by auto
  with JNum show ?thesis by (auto simp: json_space_def is_digit_def)
qed (auto simp: json_space_def)

lemma json_print_items_hd:
  "list_all json_ok (x # xs) \<Longrightarrow> \<exists>c t. json_print_items (x # xs) = c # t \<and> \<not> json_space c \<and> c \<noteq> CHR '']''"
  using json_print_hd [of x] by (cases xs) auto

lemma json_print_members_hd: "\<exists>q. json_print_members (m # ms) = CHR 0x22 # q"
  using json_quote_Cons [of "fst m"] by (cases m; cases ms) auto

lemma delimited_Cons [simp]: "c \<in> {CHR '','', CHR '']'', CHR ''}'', CHR 0x0A} \<Longrightarrow> delimited (c # t)"
  by (simp add: delimited_def)

lemma parse_bind_Inr [simp]: "parse_bind (Some (Inr (x, t))) f = f x t"
  by (simp add: parse_bind_def)

lemma parse_value_number:
  assumes "number_literal l" "delimited rest"
  shows "parse_value (Suc n) d (l @ rest) = Some (Inr (JNum l, rest))"
proof -
  obtain c t where l: "l = c # t" "is_digit c \<or> c = CHR ''-''" using number_literal_hd assms by blast
  then have "c \<notin> {CHR 0x22, CHR ''{'', CHR ''['', CHR ''n'', CHR ''t'', CHR ''f''}" "\<not> json_space c"
    by (auto simp: is_digit_def json_space_def)
  moreover have "scan_number (l @ rest) = Some (l, rest)"
    using scan_number_append assms unfolding number_literal_def by fastforce
  ultimately show ?thesis using parse_value_other [of "l @ rest" c "t @ rest" n d] l
    by (auto simp: of_scan_def)
qed

lemma parse_member_step:
  assumes "valid_utf8 k" "parse_value n d (u @ rest) = Some (Inr (v, rest))"
  shows "parse_members (Suc n) d (json_quote k @ CHR '':'' # u @ rest) =
    (case skip_ws rest of
       [] \<Rightarrow> parse_error
     | e # t \<Rightarrow>
         if e = CHR '','' then parse_bind (parse_members n d t) (\<lambda>ms rest. Some (Inr ((k, v) # ms, rest)))
         else if e = CHR ''}'' then Some (Inr ([(k, v)], t)) else parse_error)"
proof -
  show ?thesis using assms(2) parse_str_json_escape [OF assms(1), of "CHR '':'' # u @ rest"]
    by (simp add: parse_members.simps json_quote_def)
qed

lemma parse_array_step:
  assumes "list_all json_ok xs" "0 < d"
    and "xs \<noteq> [] \<Longrightarrow> parse_items n (d - 1) (json_print_items xs @ CHR '']'' # rest) = Some (Inr (xs, rest))"
  shows "parse_value (Suc n) d (json_print (JArr xs) @ rest) = Some (Inr (JArr xs, rest))"
proof (cases xs)
  case (Cons y ys)
  then obtain c t where "json_print_items xs = c # t" "\<not> json_space c" "c \<noteq> CHR '']''"
    using json_print_items_hd [of y ys] assms(1) by auto
  then show ?thesis using assms(2,3) Cons by (simp add: parse_value_array)
qed (use assms in \<open>simp add: parse_value_array\<close>)

lemma parse_object_step:
  assumes "0 < d"
    and "ms \<noteq> [] \<Longrightarrow> parse_members n (d - 1) (json_print_members ms @ CHR ''}'' # rest) = Some (Inr (ms, rest))"
  shows "parse_value (Suc n) d (json_print (JObj ms) @ rest) = Some (Inr (JObj ms, rest))"
proof (cases ms)
  case (Cons y ys)
  then obtain q where "json_print_members ms = CHR 0x22 # q" using json_print_members_hd by blast
  then show ?thesis using assms Cons by (simp add: parse_value_object)
qed (use assms in \<open>simp add: parse_value_object\<close>)

lemma parse_string_step:
  assumes "json_ok (JStr raw)"
  shows "parse_value (Suc n) d (json_print (JStr raw) @ rest) = Some (Inr (JStr raw, rest))"
  using scan_str_json_escape [of "json_unquote raw" rest] assms by (simp add: parse_value_quote of_scan_def)

text \<open>Printing and parsing are inverse, by induction along the printer; the fuel covers each step.\<close>

lemma parse_print:
  "json_ok v \<Longrightarrow> json_depth v \<le> d \<Longrightarrow> 2 * length (json_print v) < n \<Longrightarrow> delimited rest \<Longrightarrow>
     parse_value n d (json_print v @ rest) = Some (Inr (v, rest))"
  "xs \<noteq> [] \<Longrightarrow> list_all json_ok xs \<Longrightarrow> list_all (\<lambda>x. json_depth x \<le> d) xs \<Longrightarrow>
     2 * length (json_print_items xs) + 1 < n \<Longrightarrow>
     parse_items n d (json_print_items xs @ CHR '']'' # rest) = Some (Inr (xs, rest))"
  "ms \<noteq> [] \<Longrightarrow> list_all (\<lambda>(k, v). valid_utf8 k \<and> json_ok v) ms \<Longrightarrow> list_all (\<lambda>(k, v). json_depth v \<le> d) ms \<Longrightarrow>
     2 * length (json_print_members ms) + 1 < n \<Longrightarrow>
     parse_members n d (json_print_members ms @ CHR ''}'' # rest) = Some (Inr (ms, rest))"
proof (induction v and xs and ms arbitrary: d n rest and d n rest and d n rest
    rule: json_print_json_print_items_json_print_members.induct)
  case 1
  then show ?case by (cases n) (auto simp: parse_value_other json_space_def)
next
  case (2 b)
  then show ?case by (cases n) (auto simp: parse_value_other json_space_def)
next
  case (3 lit)
  then show ?case by (cases n) (auto simp: parse_value_number)
next
  case (4 raw)
  then obtain m where n: "n = Suc m" by (cases n) auto
  show ?case unfolding n by (rule parse_string_step [OF 4(1)])
next
  case (5 xs)
  then obtain m where n: "n = Suc m" by (cases n) auto
  show ?case unfolding n using 5 n by (intro parse_array_step 5(1)) auto
next
  case (6 ms)
  then obtain m where n: "n = Suc m" by (cases n) auto
  show ?case unfolding n using 6 n by (intro parse_object_step 6(1)) auto
next
  case (8 x)
  then obtain m where n: "n = Suc m" by (cases n) auto
  have "parse_value m d (json_print x @ CHR '']'' # rest) = Some (Inr (x, CHR '']'' # rest))"
    using 8 n by (intro 8(1)) auto
  then show ?case by (simp add: n parse_items.simps)
next
  case (9 x y xs)
  then obtain m where n: "n = Suc m" by (cases n) auto
  let ?rest = "json_print_items (y # xs) @ CHR '']'' # rest"
  have "parse_value m d (json_print x @ CHR '','' # ?rest) = Some (Inr (x, CHR '','' # ?rest))"
    using 9 n by (intro 9(1)) auto
  moreover have "parse_items m d ?rest = Some (Inr (y # xs, rest))"
    using 9 n by (intro 9(2)) auto
  ultimately show ?case by (simp add: n parse_items.simps)
next
  case (11 k v)
  then obtain m where n: "n = Suc m" by (cases n) auto
  have "parse_value m d (json_print v @ CHR ''}'' # rest) = Some (Inr (v, CHR ''}'' # rest))"
    using 11 n by (intro 11(1)) auto
  then show ?case using 11 by (simp add: n parse_member_step)
next
  case (12 k v y ms)
  then obtain m where n: "n = Suc m" by (cases n) auto
  let ?rest = "json_print_members (y # ms) @ CHR ''}'' # rest"
  have "parse_value m d (json_print v @ CHR '','' # ?rest) = Some (Inr (v, CHR '','' # ?rest))"
    using 12 n by (intro 12(1)) auto
  moreover have "parse_members m d ?rest = Some (Inr (y # ms, rest))"
    using 12 n by (intro 12(2)) auto
  ultimately show ?case using 12 by (simp add: n parse_member_step)
qed simp_all

lemma json_parse_print:
  "json_ok v \<Longrightarrow> json_depth v \<le> max_nesting \<Longrightarrow> json_parse (json_print v) = Inr v"
  using parse_print(1) [of v max_nesting "Suc (2 * length (json_print v))" "[]"]
  by (simp add: json_parse_def delimited_def skip_ws_def)

text \<open>The output of \<^verbatim>\<open>json.Encoder\<close> ends with a newline.\<close>

lemma json_parse_line:
  "json_ok v \<Longrightarrow> json_depth v \<le> max_nesting \<Longrightarrow> json_parse (json_print v @ [CHR 0x0A]) = Inr v"
  using parse_print(1) [of v max_nesting "Suc (2 * length (json_print v @ [CHR 0x0A]))" "[CHR 0x0A]"]
  by (simp add: json_parse_def skip_ws_def json_space_def)

section \<open>Decoding into typed values\<close>

text \<open>
  A decoder writes a JSON value into a Go variable and so takes the value the variable has before:
  \<^verbatim>\<open>null\<close> leaves everything but pointers and slices unchanged, and the second of two equal keys is
  decoded over the result of the first. An element a slice grows by is decoded into a zero value.
\<close>

type_synonym 'a decoder = "json \<Rightarrow> 'a \<Rightarrow> 'a res"

definition dec_string :: "string decoder" where
  "dec_string j old = (case j of JStr raw \<Rightarrow> Inr (json_unquote raw) | JNull \<Rightarrow> Inr old | _ \<Rightarrow> Inl [])"

definition dec_bool :: "bool decoder" where
  "dec_bool j old = (case j of JBool b \<Rightarrow> Inr b | JNull \<Rightarrow> Inr old | _ \<Rightarrow> Inl [])"

definition dec_int64 :: "64 word decoder" where
  "dec_int64 j old =
     (case j of
        JNum l \<Rightarrow>
          (case int_literal l of
             Some i \<Rightarrow> if - (2 ^ 63) \<le> i \<and> i < 2 ^ 63 then Inr (word_of_int i) else Inl []
           | None \<Rightarrow> Inl [])
      | JNull \<Rightarrow> Inr old
      | _ \<Rightarrow> Inl [])"

definition dec_pointer :: "'a \<Rightarrow> 'a decoder \<Rightarrow> 'a option decoder" where
  "dec_pointer zero dec j old =
     (case j of
        JNull \<Rightarrow> Inr None
      | _ \<Rightarrow> res_bind (dec j (case old of None \<Rightarrow> zero | Some x \<Rightarrow> x)) (\<lambda>x. Inr (Some x)))"

definition dec_raw :: "json option decoder" where
  "dec_raw j old = Inr (Some j)"

fun dec_elements :: "'a \<Rightarrow> 'a decoder \<Rightarrow> json list \<Rightarrow> 'a list \<Rightarrow> 'a list res" where
  "dec_elements zero dec [] old = Inr []"
| "dec_elements zero dec (j # js) old =
     res_bind (dec j (case old of [] \<Rightarrow> zero | x # xs \<Rightarrow> x)) (\<lambda>x.
     res_bind (dec_elements zero dec js (tl old)) (\<lambda>xs. Inr (x # xs)))"

definition dec_slice :: "'a \<Rightarrow> 'a decoder \<Rightarrow> 'a list decoder" where
  "dec_slice zero dec j old =
     (case j of JArr js \<Rightarrow> dec_elements zero dec js old | JNull \<Rightarrow> Inr [] | _ \<Rightarrow> Inl [])"

text \<open>
  Struct fields: an exact name wins, then a name equal under simple case folding (the ASCII letters,
  U+017F for S and U+212A for K). An unknown name is skipped, or an error after
  \<^verbatim>\<open>DisallowUnknownFields\<close>.
\<close>

definition fold_rune :: "nat \<Rightarrow> nat" where
  "fold_rune r =
     (if 0x61 \<le> r \<and> r \<le> 0x7A then r - 0x20 else if r = 0x17F then 0x53 else if r = 0x212A then 0x4B else r)"

definition fold_name :: "string \<Rightarrow> nat list" where
  "fold_name k = map fold_rune (runes k)"

type_synonym 'a field = "string \<times> 'a decoder"

definition find_field :: "'a field list \<Rightarrow> string \<Rightarrow> 'a decoder option" where
  "find_field fs k =
     (case map_of fs k of
        Some dec \<Rightarrow> Some dec
      | None \<Rightarrow> map_of (map (\<lambda>(n, dec). (fold_name n, dec)) fs) (fold_name k))"

definition field :: "string \<Rightarrow> 'b decoder \<Rightarrow> ('a \<Rightarrow> 'b) \<Rightarrow> (('b \<Rightarrow> 'b) \<Rightarrow> 'a \<Rightarrow> 'a) \<Rightarrow> 'a field" where
  "field name dec get upd = (name, \<lambda>j r. res_bind (dec j (get r)) (\<lambda>x. Inr (upd (\<lambda>_. x) r)))"

fun dec_members :: "bool \<Rightarrow> 'a field list \<Rightarrow> (string \<times> json) list \<Rightarrow> 'a \<Rightarrow> 'a res" where
  "dec_members strict fs [] r = Inr r"
| "dec_members strict fs ((k, j) # ms) r =
     (case find_field fs k of
        None \<Rightarrow> if strict then Inl [] else dec_members strict fs ms r
      | Some dec \<Rightarrow> res_bind (dec j r) (\<lambda>r'. dec_members strict fs ms r'))"

definition dec_struct :: "bool \<Rightarrow> 'a field list \<Rightarrow> 'a decoder" where
  "dec_struct strict fs j r =
     (case j of JObj ms \<Rightarrow> dec_members strict fs ms r | JNull \<Rightarrow> Inr r | _ \<Rightarrow> Inl [])"

definition jstrings :: "string list \<Rightarrow> json" where
  "jstrings xs = JArr (map jstring xs)"

definition jint :: "64 word \<Rightarrow> json" where
  "jint w = JNum (int_dec (sint w))"

definition jint_pointer :: "64 word option \<Rightarrow> json" where
  "jint_pointer p = (case p of None \<Rightarrow> JNull | Some w \<Rightarrow> jint w)"

text \<open>A slice that is nil when it is empty, as \<^verbatim>\<open>append([]string(nil), xs...)\<close> leaves it.\<close>

definition jstrings_or_null :: "string list \<Rightarrow> json" where
  "jstrings_or_null xs = (if xs = [] then JNull else jstrings xs)"

definition json_unmarshal :: "'a decoder \<Rightarrow> string \<Rightarrow> 'a \<Rightarrow> 'a res" where
  "json_unmarshal dec s old = res_bind (json_parse s) (\<lambda>j. dec j old)"

subsection \<open>Decoding what was encoded\<close>

lemma dec_string_jstring [simp]: "valid_utf8 s \<Longrightarrow> dec_string (jstring s) old = Inr s"
  by (simp add: dec_string_def jstring_def)

lemma dec_bool_JBool [simp]: "dec_bool (JBool b) old = Inr b"
  by (simp add: dec_bool_def)

lemma dec_int64_jint [simp]: "dec_int64 (jint w) old = Inr w"
proof -
  have "- (2 ^ 63) \<le> sint w" "sint w < 2 ^ 63"
    using sint_ge [of w] sint_lt [of w] by simp_all
  then show ?thesis by (simp add: dec_int64_def jint_def)
qed

lemma dec_pointer_jint [simp]: "dec_pointer 0 dec_int64 (jint_pointer p) old = Inr p"
proof (cases p)
  case (Some w)
  then have "dec_pointer 0 dec_int64 (jint_pointer p) old =
      res_bind (dec_int64 (jint w) (case old of None \<Rightarrow> 0 | Some x \<Rightarrow> x)) (\<lambda>x. Inr (Some x))"
    by (simp add: dec_pointer_def jint_pointer_def jint_def)
  then show ?thesis by (simp add: Some)
qed (simp add: dec_pointer_def jint_pointer_def)

lemma dec_elements_map:
  "(\<And>x old. x \<in> set xs \<Longrightarrow> dec (enc x) old = Inr (f x)) \<Longrightarrow>
     dec_elements zero dec (map enc xs) old = Inr (map f xs)"
  by (induction xs arbitrary: old) simp_all

lemma dec_slice_map:
  "(\<And>x old. x \<in> set xs \<Longrightarrow> dec (enc x) old = Inr (f x)) \<Longrightarrow>
     dec_slice zero dec (JArr (map enc xs)) old = Inr (map f xs)"
  by (simp add: dec_slice_def dec_elements_map)

lemma dec_slice_map_fresh:
  assumes "\<And>x. x \<in> set xs \<Longrightarrow> dec (enc x) zero = Inr (f x)"
  shows "dec_slice zero dec (JArr (map enc xs)) [] = Inr (map f xs)"
proof -
  have "dec_elements zero dec (map enc xs) [] = Inr (map f xs)"
    using assms by (induction xs) simp_all
  then show ?thesis by (simp add: dec_slice_def)
qed

lemma dec_slice_jstrings [simp]:
  "list_all valid_utf8 xs \<Longrightarrow> dec_slice [] dec_string (jstrings xs) old = Inr xs"
  using dec_slice_map [of xs dec_string jstring "\<lambda>x. x"] by (simp add: jstrings_def list_all_iff)

lemma json_ok_jstrings [simp]: "list_all valid_utf8 xs \<Longrightarrow> json_ok (jstrings xs)"
  by (auto simp: jstrings_def list_all_iff)

lemma json_depth_jstrings [simp]: "json_depth (jstrings xs) \<le> d \<longleftrightarrow> 0 < d"
  by (auto simp: jstrings_def list_all_iff)

lemma json_ok_jint [simp]: "json_ok (jint w)" "json_ok (jint_pointer p)"
  by (simp_all add: jint_def jint_pointer_def split: option.split)

lemma json_depth_jint [simp]: "json_depth (jint w) = 0" "json_depth (jint_pointer p) = 0"
  by (simp_all add: jint_def jint_pointer_def split: option.split)

lemma json_unmarshal_print:
  "json_ok v \<Longrightarrow> json_depth v \<le> max_nesting \<Longrightarrow> json_unmarshal dec (json_print v) old = dec v old"
  by (simp add: json_unmarshal_def json_parse_print)

end
