(* ===== verification/GoDuration.thy ===== *)
theory GoDuration
  imports GoJson "HOL-Library.Word"
begin

text \<open>
  \<^verbatim>\<open>time.ParseDuration\<close> of the standard library, which reads the timeout of the Osprey adapter in
  \<^verbatim>\<open>configurePolicyEvaluator\<close>: the integers of the parser are 64-bit words, the fraction of a unit is
  computed with the \<^verbatim>\<open>float64\<close> operations of the library, rounding to nearest with ties to even. The
  lemmas show that the result is a 64-bit duration and what a whole number of a unit is read as.
\<close>

section \<open>Positive double precision numbers\<close>

text \<open>
  A non-negative \<^verbatim>\<open>float64\<close> is a fraction, numerator and denominator. The operations of the
  parser stay within the normal range of the format, so rounding to 53 significant bits is all there
  is to them.
\<close>

definition round_even :: "int \<Rightarrow> int \<Rightarrow> int" where
  "round_even p q =
     (let d = p div q; r = p mod q in if 2 * r < q \<or> 2 * r = q \<and> even d then d else d + 1)"

definition scaled :: "int \<Rightarrow> int \<Rightarrow> int \<Rightarrow> int \<times> int" where
  "scaled p q e = (if 0 \<le> e then (p, q * 2 ^ nat e) else (p * 2 ^ nat (- e), q))"

function bit_length :: "int \<Rightarrow> int" where
  "bit_length x = (if 0 < x then bit_length (x div 2) + 1 else 0)"
  by auto
termination
  by (relation "measure nat") auto

declare bit_length.simps [simp del]

definition float64_exponent :: "int \<Rightarrow> int \<Rightarrow> int" where
  "float64_exponent p q =
     (let b = bit_length p - bit_length q;
          (n, d) = scaled p q b
      in if n < d then b - 53 else b - 52)"

definition float64_of :: "int \<Rightarrow> int \<Rightarrow> int \<times> int" where
  "float64_of p q =
     (if p = 0 then (0, 1)
      else let e = float64_exponent p q; (n, d) = scaled p q e; m = round_even n d
           in if 0 \<le> e then (m * 2 ^ nat e, 1) else (m, 2 ^ nat (- e)))"

definition float64_div :: "int \<times> int \<Rightarrow> int \<times> int \<Rightarrow> int \<times> int" where
  "float64_div x y = float64_of (fst x * snd y) (snd x * fst y)"

definition float64_mul :: "int \<times> int \<Rightarrow> int \<times> int \<Rightarrow> int \<times> int" where
  "float64_mul x y = float64_of (fst x * fst y) (snd x * snd y)"

definition float64_trunc :: "int \<times> int \<Rightarrow> int" where
  "float64_trunc x = fst x div snd x"

section \<open>The parser\<close>

definition two63 :: "64 word" where
  "two63 = 9223372036854775808"

text \<open>\<^verbatim>\<open>leadingInt\<close> consumes \<^verbatim>\<open>[0-9]*\<close> and fails on a number beyond \<open>2 ^ 63\<close>.\<close>

fun leadingInt :: "64 word \<Rightarrow> string \<Rightarrow> (64 word \<times> string) res" where
  "leadingInt x [] = Inr (x, [])"
| "leadingInt x (c # s) =
     (if \<not> is_digit c then Inr (x, c # s)
      else if x > two63 div 10 then Inl []
      else let y = x * 10 + of_nat (byte c) - 48
           in if y > two63 then Inl [] else leadingInt y s)"

text \<open>\<^verbatim>\<open>leadingFraction\<close> consumes \<^verbatim>\<open>[0-9]*\<close> and drops the digits beyond its precision.\<close>

fun leadingFraction :: "bool \<Rightarrow> 64 word \<Rightarrow> int \<Rightarrow> string \<Rightarrow> 64 word \<times> int \<times> string" where
  "leadingFraction overflow x scale [] = (x, scale, [])"
| "leadingFraction overflow x scale (c # s) =
     (if \<not> is_digit c then (x, scale, c # s)
      else if overflow then leadingFraction True x scale s
      else if x > (two63 - 1) div 10 then leadingFraction True x scale s
      else let y = x * 10 + of_nat (byte c) - 48
           in if y > two63 then leadingFraction True x scale s
              else leadingFraction False y (scale * 10) s)"

definition unitMap :: "string \<Rightarrow> int option" where
  "unitMap u =
     (if u = ''ns'' then Some 1
      else if u = ''us'' \<or> u = [CHR 0xC2, CHR 0xB5, CHR ''s''] \<or> u = [CHR 0xCE, CHR 0xBC, CHR ''s''] then Some 1000
      else if u = ''ms'' then Some 1000000
      else if u = ''s'' then Some 1000000000
      else if u = ''m'' then Some 60000000000
      else if u = ''h'' then Some 3600000000000
      else None)"

definition fraction_of :: "64 word \<Rightarrow> int \<Rightarrow> int \<Rightarrow> int" where
  "fraction_of f unit scale =
     float64_trunc (float64_mul (float64_of (uint f) 1) (float64_div (float64_of unit 1) (scale, 1)))"

definition unit_char :: "char \<Rightarrow> bool" where
  "unit_char c \<longleftrightarrow> c \<noteq> CHR ''.'' \<and> \<not> is_digit c"

text \<open>One round of the loop: a number, with or without a fraction, and its unit.\<close>

definition parse_number :: "string \<Rightarrow> (64 word \<times> 64 word \<times> int \<times> string) res" where
  "parse_number s =
     (if s = [] \<or> unit_char (hd s) then Inl []
      else case leadingInt 0 s of
        Inl e \<Rightarrow> Inl []
      | Inr (v, s1) \<Rightarrow>
          let pre = (length s \<noteq> length s1) in
          if s1 \<noteq> [] \<and> hd s1 = CHR ''.'' then
            (case leadingFraction False 0 1 (tl s1) of (f, scale, s2) \<Rightarrow>
               let post = (length (tl s1) \<noteq> length s2) in
               if \<not> pre \<and> \<not> post then Inl [] else Inr (v, f, scale, s2))
          else if \<not> pre then Inl [] else Inr (v, 0, 1, s1))"

definition parse_term :: "string \<Rightarrow> (64 word \<times> string) res" where
  "parse_term s =
     (case parse_number s of
        Inl e \<Rightarrow> Inl []
      | Inr (v, f, scale, s2) \<Rightarrow>
          let u = takeWhile unit_char s2; rest = dropWhile unit_char s2 in
          if u = [] then Inl []
          else case unitMap u of
            None \<Rightarrow> Inl []
          | Some unit \<Rightarrow>
              if v > two63 div of_int unit then Inl []
              else let v1 = v * of_int unit in
                if f > 0 then
                  (let v2 = v1 + of_int (fraction_of f unit scale) in if v2 > two63 then Inl [] else Inr (v2, rest))
                else Inr (v1, rest))"

lemma leadingInt_length: "leadingInt x s = Inr (v, t) \<Longrightarrow> length t \<le> length s"
  by (induction x s rule: leadingInt.induct) (auto simp: Let_def split: if_splits)

lemma leadingFraction_length: "leadingFraction overflow x scale s = (f, k, t) \<Longrightarrow> length t \<le> length s"
  by (induction overflow x scale s rule: leadingFraction.induct) (auto simp: Let_def split: if_splits)

lemma parse_number_length: "parse_number s = Inr (v, f, scale, t) \<Longrightarrow> length t \<le> length s"
  using leadingFraction_length leadingInt_length
  by (fastforce simp: parse_number_def Let_def split: if_splits sum.splits prod.splits)

lemma parse_term_length: "parse_term s = Inr (v, t) \<Longrightarrow> length t < length s"
proof -
  assume a: "parse_term s = Inr (v, t)"
  then obtain v0 f scale s2 where n: "parse_number s = Inr (v0, f, scale, s2)"
    by (cases "parse_number s") (auto simp: parse_term_def)
  with a have u: "takeWhile unit_char s2 \<noteq> []" and t: "t = dropWhile unit_char s2"
    by (auto simp: parse_term_def Let_def split: if_splits option.splits)
  have "length s2 = length (takeWhile unit_char s2) + length t"
    unfolding t by (metis length_append takeWhile_dropWhile_id)
  with u parse_number_length [OF n] show ?thesis by (cases "takeWhile unit_char s2") auto
qed

function parse_terms :: "64 word \<Rightarrow> string \<Rightarrow> (64 word) res" where
  "parse_terms d s =
     (if s = [] then Inr d
      else case parse_term s of
        Inl e \<Rightarrow> Inl []
      | Inr (v, rest) \<Rightarrow> if d + v > two63 then Inl [] else parse_terms (d + v) rest)"
  by auto
termination
  by (relation "measure (length \<circ> snd)") (auto dest: parse_term_length)

declare parse_terms.simps [simp del]

text \<open>A \<^verbatim>\<open>time.Duration\<close> is a signed 64-bit count of nanoseconds.\<close>

definition ParseDuration :: "string \<Rightarrow> int res" where
  "ParseDuration s =
     (let signed = (s \<noteq> [] \<and> hd s \<in> {CHR ''-'', CHR ''+''});
          neg = (s \<noteq> [] \<and> hd s = CHR ''-'');
          t = (if signed then tl s else s)
      in if t = ''0'' then Inr 0
         else if t = [] then Inl []
         else case parse_terms 0 t of
           Inl e \<Rightarrow> Inl []
         | Inr d \<Rightarrow>
             if neg then Inr (sint (- d))
             else if d > two63 - 1 then Inl []
             else Inr (sint d))"

section \<open>The integers of the parser\<close>

definition decimal_from :: "nat \<Rightarrow> string \<Rightarrow> nat" where
  "decimal_from n ds = foldl (\<lambda>n c. n * 10 + (byte c - 48)) n ds"

lemma decimal_from_simps [simp]:
  "decimal_from n [] = n"
  "decimal_from n (c # ds) = decimal_from (n * 10 + (byte c - 48)) ds"
  by (simp_all add: decimal_from_def)

lemma decimal_from_ge: "n \<le> decimal_from n ds"
proof (induction ds arbitrary: n)
  case (Cons c ds)
  have "n \<le> n * 10 + (byte c - 48)" by simp
  also have "\<dots> \<le> decimal_from n (c # ds)" using Cons by simp
  finally show ?case .
qed simp

lemma unat_two63: "unat two63 = 9223372036854775808" "unat (two63 div 10) = 922337203685477580"
  "unat ((two63 - 1) div 10) = 922337203685477580" "unat (two63 - 1) = 9223372036854775807"
  by (simp_all add: two63_def unat_div)

lemma next_digit:
  assumes "is_digit c" "x \<le> two63 div 10"
  shows "unat (x * 10 + of_nat (byte c) - 48) = unat x * 10 + (byte c - 48)"
proof -
  have x: "unat x \<le> 922337203685477580" using assms(2) by (simp add: word_le_nat_alt unat_two63)
  have c: "48 \<le> byte c" "byte c \<le> 57" using assms(1) by (auto simp: is_digit_def)
  have "x * 10 + of_nat (byte c) - 48 = of_nat (unat x * 10 + (byte c - 48))"
    using c by (simp add: of_nat_diff algebra_simps)
  moreover have "unat x * 10 + (byte c - 48) < 2 ^ LENGTH(64)" using x c by simp
  ultimately show ?thesis by (simp only: unat_of_nat mod_less)
qed

lemma leadingInt_value:
  "unat x \<le> 9223372036854775808 \<Longrightarrow> leadingInt x s =
     (let n = decimal_from (unat x) (takeWhile is_digit s)
      in if n \<le> 9223372036854775808 then Inr (of_nat n, dropWhile is_digit s) else Inl [])"
proof (induction x s rule: leadingInt.induct)
  case (2 x c s)
  let ?y = "x * 10 + of_nat (byte c) - 48"
  show ?case
  proof (cases "is_digit c \<and> x \<le> two63 div 10")
    case True
    then have y: "unat ?y = unat x * 10 + (byte c - 48)" using next_digit by blast
    have "?y > two63 \<longleftrightarrow> unat x * 10 + (byte c - 48) > 9223372036854775808"
      by (simp only: word_less_nat_alt y unat_two63)
    with True y 2 decimal_from_ge [of "unat ?y" "takeWhile is_digit s"] show ?thesis
      by (auto simp: Let_def)
  next
    case False
    have "9223372036854775808 < decimal_from (unat x * 10 + (byte c - 48)) (takeWhile is_digit s)"
      if "922337203685477580 < unat x"
      using that decimal_from_ge [of "unat x * 10 + (byte c - 48)" "takeWhile is_digit s"] by linarith
    with False 2(2) show ?thesis by (cases "is_digit c") (auto simp: Let_def word_le_nat_alt word_less_nat_alt unat_two63)
  qed
qed simp

lemma leadingFraction_invariant:
  assumes "leadingFraction overflow x scale s = (f, k, t)" "unat x \<le> 9223372036854775808" "int (unat x) < scale"
  shows "int (unat f) < k \<and> scale \<le> k"
  using assms
proof (induction overflow x scale s rule: leadingFraction.induct)
  case (2 overflow x scale c s)
  let ?y = "x * 10 + of_nat (byte c) - 48"
  show ?case
  proof (cases "is_digit c \<and> \<not> overflow \<and> x \<le> (two63 - 1) div 10 \<and> ?y \<le> two63")
    case True
    then have guards: "is_digit c" "\<not> overflow" "\<not> (two63 - 1) div 10 < x" "\<not> two63 < ?y" by (simp_all only: not_less simp_thms)
    from True have "x \<le> two63 div 10" by (simp add: word_le_nat_alt unat_two63)
    with True have y: "unat ?y = unat x * 10 + (byte c - 48)" "byte c - 48 < 10"
      using next_digit [of c x] by (blast, auto simp: is_digit_def)
    then have "int (unat ?y) < scale * 10" using "2.prems"(3) by linarith
    moreover have "unat ?y \<le> 9223372036854775808" using True by (simp add: word_le_nat_alt unat_two63)
    moreover have "leadingFraction False ?y (scale * 10) s = (f, k, t)"
      using guards "2.prems"(1) by (simp add: Let_def)
    ultimately have "int (unat f) < k \<and> scale * 10 \<le> k" using "2.IH"(4) [OF _ _ _ refl] guards by blast
    then show ?thesis using "2.prems"(3) by linarith
  next
    case False
    then show ?thesis using 2 by (auto simp: Let_def split: if_splits)
  qed
qed simp

section \<open>Whole numbers of a unit\<close>

lemma unitMap_range: "unitMap u = Some unit \<Longrightarrow> 0 < unit \<and> unit \<le> 3600000000000"
  by (auto simp: unitMap_def split: if_splits)

lemma takeWhile_digits [simp]:
  assumes "list_all is_digit ds" "u = [] \<or> \<not> is_digit (hd u)"
  shows "takeWhile is_digit (ds @ u) = ds" "dropWhile is_digit (ds @ u) = u"
  using assms by (induction ds; cases u; simp)+

lemma unitMap_unit_chars: "unitMap u = Some unit \<Longrightarrow> u \<noteq> [] \<and> list_all unit_char u"
  by (auto simp: unitMap_def unit_char_def is_digit_def split: if_splits)

lemma nat_dec_hd_digit: "is_digit (hd (nat_dec n))"
  by (rule nat_dec_digits [OF hd_in_set]) simp

lemma parse_number_whole:
  assumes "u \<noteq> []" "list_all unit_char u"
  shows "parse_number (nat_dec n @ u) = (if n \<le> 9223372036854775808 then Inr (of_nat n, 0, 1, u) else Inl [])"
proof -
  have ds: "list_all is_digit (nat_dec n)" using nat_dec_digits by (simp add: list_all_iff)
  have "is_digit (hd (nat_dec n))" by (rule nat_dec_hd_digit)
  then have "\<not> unit_char (hd (nat_dec n @ u))" by (simp add: unit_char_def)
  moreover have "u = [] \<or> \<not> is_digit (hd u)" "hd u \<noteq> CHR ''.''" using assms by (cases u; simp add: unit_char_def)+
  moreover have "decimal_from 0 (nat_dec n) = n" using digits_value_nat_dec [of n] by (simp add: decimal_from_def digits_value_def)
  ultimately show ?thesis using ds by (simp add: parse_number_def leadingInt_value Let_def)
qed


lemma uint_of_int: "0 \<le> i \<Longrightarrow> i \<le> 9223372036854775808 \<Longrightarrow> uint (of_int i :: 64 word) = i"
  by (simp add: uint_word_of_int)

lemma unit_overflow:
  assumes "0 < unit" "unit \<le> 3600000000000" "0 \<le> i" "i \<le> 9223372036854775808"
  shows "of_int i > two63 div of_int unit \<longleftrightarrow> i * unit > 9223372036854775808"
proof -
  let ?D = "9223372036854775808 div unit"
  have "uint (two63 div of_int unit) = ?D" using assms by (simp add: uint_div uint_of_int two63_def)
  moreover have "uint (of_int i :: 64 word) = i" using assms by (simp add: uint_of_int)
  ultimately have "of_int i > two63 div of_int unit \<longleftrightarrow> ?D < i" by (simp only: word_less_def)
  also have "\<dots> \<longleftrightarrow> 9223372036854775808 < i * unit"
  proof -
    have r: "9223372036854775808 = ?D * unit + 9223372036854775808 mod unit"
      "0 \<le> 9223372036854775808 mod unit" "9223372036854775808 mod unit < unit" using assms(1) by (simp_all only: div_mult_mod_eq pos_mod_sign pos_mod_bound)
    show ?thesis
    proof (cases "?D < i")
      case True
      then have "(?D + 1) * unit \<le> i * unit" using assms(1) by (intro mult_right_mono) simp_all
      then have "9223372036854775808 < i * unit" using r unfolding distrib_right mult_1_left by linarith
      then show ?thesis using True by simp
    next
      case False
      then have "i * unit \<le> ?D * unit" using assms(1) by (intro mult_right_mono) simp_all
      then show ?thesis using False r by linarith
    qed
  qed
  finally show ?thesis .
qed

lemma parse_term_whole:
  assumes "unitMap u = Some unit"
  shows "parse_term (nat_dec n @ u) =
    (if int n * unit \<le> 9223372036854775808 then Inr (of_int (int n * unit), []) else Inl [])"
proof -
  have unit: "0 < unit" "unit \<le> 3600000000000" using unitMap_range [OF assms] by simp_all
  have u: "u \<noteq> []" "list_all unit_char u" using unitMap_unit_chars [OF assms] by simp_all
  then have tk: "takeWhile unit_char u = u" "dropWhile unit_char u = []"
    by (simp_all add: list_all_iff takeWhile_eq_all_conv dropWhile_eq_Nil_conv)
  have n: "int n \<le> int n * unit" using unit mult_left_mono [of 1 unit "int n"] by simp
  have "n \<le> 9223372036854775808 \<Longrightarrow> of_nat n > two63 div of_int unit \<longleftrightarrow> int n * unit > 9223372036854775808"
    using unit_overflow [OF unit, of "int n"] by simp
  then show ?thesis using n by (auto simp: parse_term_def parse_number_whole [OF u] tk assms u(1) Let_def)
qed

lemma ParseDuration_whole:
  assumes "unitMap u = Some unit"
  shows "ParseDuration (nat_dec n @ u) =
    (if int n * unit < 9223372036854775808 then Inr (int n * unit) else Inl [])"
proof -
  let ?s = "nat_dec n @ u" and ?i = "int n * unit"
  have "is_digit (hd ?s)" by (simp add: nat_dec_hd_digit)
  then have sign: "hd ?s \<noteq> CHR ''-''" "hd ?s \<noteq> CHR ''+''" by (auto simp: is_digit_def)
  have "0 < length (nat_dec n)" "0 < length u" using unitMap_unit_chars [OF assms] by simp_all
  then have "length ?s \<noteq> length ''0''" by (simp del: length_greater_0_conv)
  then have zero: "?s \<noteq> ''0''" by metis
  have i: "0 \<le> ?i" using unitMap_range [OF assms] by simp
  define w :: "64 word" where "w = of_int ?i"
  have whole: "parse_term ?s = (if ?i \<le> 9223372036854775808 then Inr (w, []) else Inl [])"
    unfolding w_def by (rule parse_term_whole [OF assms])
  have "two63 < w \<longleftrightarrow> ?i > 9223372036854775808" "two63 - 1 < w \<longleftrightarrow> ?i > 9223372036854775807"
    "?i < 9223372036854775808 \<Longrightarrow> sint w = ?i"
    if "?i \<le> 9223372036854775808"
    using uint_of_int [OF i that] i unfolding w_def
    by (simp_all only: word_less_def sint_uint) (simp_all add: two63_def signed_take_bit_int_eq_self)
  then show ?thesis using sign zero by (auto simp: ParseDuration_def Let_def parse_terms.simps whole)
qed

lemma ParseDuration_range: "ParseDuration s = Inr d \<Longrightarrow> - (2 ^ 63) \<le> d \<and> d < 2 ^ 63"
  using sint_greater_eq [where 'a = 64] sint_less [where 'a = 64]
  by (auto simp: ParseDuration_def Let_def split: if_splits sum.splits)

end
