(* ===== verification/DurationAccuracy.thy ===== *)
theory DurationAccuracy
  imports GoDuration Complex_Main "HOL-Library.Log_Nat"
begin

text \<open>
  The fraction of a unit in a duration. Each \<^verbatim>\<open>float64\<close> operation of the parser has a relative error of
  at most half a unit in the last place, so the nanoseconds of a fraction are within \<open>1.01\<close> of the
  exact value; the conversion of the product to \<^verbatim>\<open>uint64\<close> is in range.
\<close>

lemma round_even_error:
  assumes "0 < q"
  shows "\<bar>real_of_int (round_even p q) - p / q\<bar> \<le> 1 / 2"
proof -
  let ?x = "real_of_int (p mod q) / q"
  have "p / q = p div q + ?x" by (rule of_int_div_aux)
  moreover have "0 \<le> ?x" "?x < 1" using assms by simp_all
  moreover have "real_of_int (2 * (p mod q)) < q \<longleftrightarrow> ?x < 1 / 2" "real_of_int (2 * (p mod q)) = q \<longleftrightarrow> ?x = 1 / 2"
    using assms by (auto simp: field_simps)
  then have "2 * (p mod q) < q \<longleftrightarrow> ?x < 1 / 2" "2 * (p mod q) = q \<longleftrightarrow> ?x = 1 / 2" by linarith+
  moreover from this have "round_even p q = (if ?x < 1 / 2 \<or> ?x = 1 / 2 \<and> even (p div q) then p div q else p div q + 1)"
    by (simp only: round_even_def Let_def)
  ultimately show ?thesis by (cases "?x < 1 / 2 \<or> ?x = 1 / 2 \<and> even (p div q)") auto
qed

lemma scaled_ratio:
  assumes "scaled p q e = (n, d)" "0 < q"
  shows "0 < d" "real_of_int n / d = p / q * 2 powi (- e)"
  using assms by (auto simp: scaled_def power_int_def field_simps split: if_splits)

lemma bit_length_eq: "bit_length x = bitlen x"
proof (induction x rule: bit_length.induct)
  case (1 x)
  then show ?case by (subst bit_length.simps, subst compute_bitlen) simp
qed

lemma bitlen_powi:
  assumes "0 < p"
  shows "2 powi (bitlen p - 1) \<le> real_of_int p" "real_of_int p < 2 powi (bitlen p)"
proof -
  have "bitlen p \<noteq> 0" using assms bitlen_eq_zero_iff [of p] by simp
  then have b: "0 < bitlen p" using bitlen_nonneg [of p] by linarith
  have "real_of_int (2 ^ nat (bitlen p - 1)) \<le> p" "p < real_of_int (2 ^ nat (bitlen p))"
    using bitlen_bounds [OF assms] by linarith+
  then show "2 powi (bitlen p - 1) \<le> real_of_int p" "real_of_int p < 2 powi (bitlen p)"
    using b by (simp_all add: power_int_def)
qed

lemma exponent_ratio:
  assumes "0 < p" "0 < q" "scaled p q (float64_exponent p q) = (n, d)"
  shows "2 ^ 52 \<le> real_of_int n / d"
proof -
  let ?b = "bitlen p - bitlen q"
  obtain n0 d0 where s: "scaled p q ?b = (n0, d0)" by (cases "scaled p q ?b")
  note r0 = scaled_ratio [OF s assms(2)]
  have "2 powi (?b - 1) = 2 powi (bitlen p - 1) / (2 powi bitlen q :: real)"
    by (simp add: power_int_diff)
  also have "\<dots> \<le> p / q"
    using bitlen_powi [OF assms(1)] bitlen_powi [OF assms(2)] assms(1,2) by (intro frac_le) (simp_all add: less_imp_le)
  finally have low: "2 powi (?b - 1) \<le> real_of_int p / q" .
  have r: "real_of_int n / d = p / q * 2 powi (- float64_exponent p q)" using scaled_ratio [OF assms(3,2)] by simp
  show ?thesis
  proof (cases "n0 < d0")
    case True
    then have e: "float64_exponent p q = ?b - 53" using s by (simp add: float64_exponent_def bit_length_eq)
    have "2 ^ 52 = 2 powi (?b - 1) * (2 powi (- (?b - 53)) :: real)"
      by (simp add: power_int_add [symmetric])
    also have "\<dots> \<le> real_of_int n / d" unfolding r e by (intro mult_right_mono low) simp
    finally show ?thesis .
  next
    case False
    then have e: "float64_exponent p q = ?b - 52" using s by (simp add: float64_exponent_def bit_length_eq)
    have "1 \<le> real_of_int n0 / d0" using False r0(1) by simp
    then have "2 ^ 52 * 1 \<le> 2 ^ 52 * (real_of_int p / q * 2 powi (- ?b))" unfolding r0(2) by (intro mult_left_mono) simp_all
    also have "\<dots> = p / q * (2 powi (- ?b) * 2 powi 52)" by simp
    also have "2 powi (- ?b) * 2 powi 52 = (2 powi (- (?b - 52)) :: real)" by (subst power_int_add [symmetric]) (simp_all add: algebra_simps)
    also have "p / q * \<dots> = real_of_int n / d" unfolding r e ..
    finally show ?thesis by simp
  qed
qed

definition float64_value :: "int \<times> int \<Rightarrow> real" where
  "float64_value x = real_of_int (fst x) / snd x"

lemma float64_of_error:
  assumes "0 < p" "0 < q"
  shows "\<bar>float64_value (float64_of p q) - p / q\<bar> \<le> p / q / 2 ^ 53"
    and "0 < fst (float64_of p q)" "0 < snd (float64_of p q)"
proof -
  let ?e = "float64_exponent p q"
  obtain n d where s: "scaled p q ?e = (n, d)" by (cases "scaled p q ?e")
  note r = scaled_ratio [OF s assms(2)] and big = exponent_ratio [OF assms s]
  let ?m = "round_even n d"
  have m: "\<bar>?m - real_of_int n / d\<bar> \<le> 1 / 2" using round_even_error [OF r(1)] .
  have f: "float64_of p q = (if 0 \<le> ?e then (?m * 2 ^ nat ?e, 1) else (?m, 2 ^ nat (- ?e)))"
    using assms(1) by (simp only: float64_of_def Let_def s prod.case) simp
  have v: "float64_value (float64_of p q) = ?m * 2 powi ?e"
    unfolding f by (cases "0 \<le> ?e") (simp_all add: float64_value_def power_int_def field_simps)
  have q: "real_of_int p / q = real_of_int n / d * 2 powi ?e"
    by (simp only: r(2) mult.assoc power_int_minus) simp
  have "float64_value (float64_of p q) - p / q = (?m - real_of_int n / d) * 2 powi ?e" 
    by (simp only: v q left_diff_distrib)
  then have "\<bar>float64_value (float64_of p q) - p / q\<bar> = \<bar>?m - real_of_int n / d\<bar> * 2 powi ?e"
    by (simp only: abs_mult abs_of_nonneg zero_le_power_int zero_le_numeral)
  also have "\<dots> \<le> (real_of_int n / d / 2 ^ 53) * 2 powi ?e"
  proof (rule mult_right_mono)
    have half: "1 / 2 \<le> x / 2 ^ 53" if "2 ^ 52 \<le> x" for x :: real using that by simp
    show "\<bar>?m - real_of_int n / d\<bar> \<le> real_of_int n / d / 2 ^ 53" by (rule order_trans [OF m half [OF big]])
  qed simp
  also have "\<dots> = p / q / 2 ^ 53" unfolding q times_divide_eq_left ..
  finally show "\<bar>float64_value (float64_of p q) - p / q\<bar> \<le> p / q / 2 ^ 53" .
  have near: "0 < y" if "\<bar>y - x\<bar> \<le> 1 / 2" "2 ^ 52 \<le> x" for x y :: real
  proof -
    have "x - y \<le> 1 / 2" "4503599627370496 \<le> x" using abs_le_D2 [OF that(1)] that(2) by simp_all
    then show ?thesis by linarith
  qed
  have "0 < real_of_int ?m" by (rule near [OF m big])
  then show "0 < fst (float64_of p q)" "0 < snd (float64_of p q)" unfolding f by simp_all
qed

text \<open>A chain of roundings: \<open>x\<close> is \<open>X\<close> up to \<open>k\<close> roundings.\<close>

definition half_ulp :: real where
  "half_ulp = 1 / 2 ^ 53"

definition rounded :: "nat \<Rightarrow> real \<Rightarrow> real \<Rightarrow> bool" where
  "rounded k x X \<longleftrightarrow> 0 < X \<and> X * (1 - half_ulp) ^ k \<le> x \<and> x \<le> X * (1 + half_ulp) ^ k"

lemma half_ulp_bounds: "0 < half_ulp" "half_ulp < 1"
  by (simp_all add: half_ulp_def)

lemma half_ulp_powers [simp]: "0 < (1 - half_ulp) ^ k" "0 < (1 + half_ulp) ^ k" "0 \<le> (1 - half_ulp) ^ k" "0 \<le> (1 + half_ulp) ^ k"
  using half_ulp_bounds by simp_all

lemma rounded_exact: "0 < x \<Longrightarrow> rounded 0 x x"
  by (simp add: rounded_def)

lemma rounded_pos: "rounded k x X \<Longrightarrow> 0 < x"
proof -
  assume r: "rounded k x X"
  have "0 < X * (1 - half_ulp) ^ k" using r by (simp add: rounded_def)
  with r show ?thesis unfolding rounded_def by linarith
qed

lemma rounded_mult:
  assumes "rounded k x X" "rounded l y Y"
  shows "rounded (k + l) (x * y) (X * Y)"
proof -
  have pos: "0 < x" "0 < y" using assms rounded_pos by blast+
  have "(X * (1 - half_ulp) ^ k) * (Y * (1 - half_ulp) ^ l) \<le> x * y"
    using assms pos by (intro mult_mono) (simp_all add: rounded_def)
  moreover have "x * y \<le> (X * (1 + half_ulp) ^ k) * (Y * (1 + half_ulp) ^ l)"
    using assms pos by (intro mult_mono) (simp_all add: rounded_def)
  ultimately show ?thesis using assms by (simp add: rounded_def power_add algebra_simps)
qed

lemma rounded_trans:
  assumes "rounded k x y" "rounded l y Y"
  shows "rounded (k + l) x Y"
proof -
  have "Y * (1 - half_ulp) ^ l * (1 - half_ulp) ^ k \<le> y * (1 - half_ulp) ^ k"
    using assms(2) by (intro mult_right_mono) (simp_all add: rounded_def)
  moreover have "y * (1 + half_ulp) ^ k \<le> Y * (1 + half_ulp) ^ l * (1 + half_ulp) ^ k"
    using assms(2) by (intro mult_right_mono) (simp_all add: rounded_def)
  ultimately show ?thesis using assms unfolding rounded_def power_add mult.assoc mult.commute [of "_ ^ k" "_ ^ l"]
    by linarith
qed

lemma float64_of_rounded:
  assumes "0 < p" "0 < q"
  shows "rounded 1 (float64_value (float64_of p q)) (p / q)"
  using float64_of_error(1) [OF assms] assms by (simp add: rounded_def half_ulp_def algebra_simps abs_if split: if_splits)

lemma fraction_rounded:
  assumes "0 < f" "0 < unit" "0 < scale"
  shows "rounded 4 (float64_value (float64_mul (float64_of f 1) (float64_div (float64_of unit 1) (scale, 1))))
           (f * unit / scale)"
proof -
  let ?f = "float64_of f 1" and ?u = "float64_of unit 1"
  let ?q = "float64_div ?u (scale, 1)"
  have u: "rounded 1 (float64_value ?u) unit" "0 < fst ?u" "0 < snd ?u"
    using float64_of_rounded [of unit 1] float64_of_error [of unit 1] assms by simp_all
  have f: "rounded 1 (float64_value ?f) f" "0 < fst ?f" "0 < snd ?f"
    using float64_of_rounded [of f 1] float64_of_error [of f 1] assms by simp_all
  have q: "rounded 1 (float64_value ?q) (float64_value ?u * (1 / scale))" "0 < fst ?q" "0 < snd ?q"
    using float64_of_rounded [of "fst ?u" "snd ?u * scale"] float64_of_error [of "fst ?u" "snd ?u * scale"] u assms
    by (simp_all add: float64_div_def float64_value_def)
  have "rounded 1 (float64_value ?u * (1 / scale)) (unit * (1 / scale))"
    using rounded_mult [OF u(1) rounded_exact, of "1 / scale"] assms by simp
  from rounded_mult [OF f(1) rounded_trans [OF q(1) this]]
  have "rounded 3 (float64_value ?f * float64_value ?q) (f * (unit * (1 / scale)))" by (simp add: numeral_3_eq_3)
  moreover have "rounded 1 (float64_value (float64_mul ?f ?q)) (float64_value ?f * float64_value ?q)"
    using float64_of_rounded [of "fst ?f * fst ?q" "snd ?f * snd ?q"] f q by (simp add: float64_mul_def float64_value_def)
  ultimately have "rounded (1 + 3) (float64_value (float64_mul ?f ?q)) (f * (unit * (1 / scale)))"
    using rounded_trans by blast
  then show ?thesis by simp
qed

text \<open>The fraction of a unit is its exact value, cut to nanoseconds, up to the error of the float operations.\<close>

lemma fraction_accurate:
  assumes "0 < f" "int (unat f) < scale" "0 < unit" "unit \<le> 3600000000000"
  shows "real_of_int (uint f) * unit / scale - 101 / 100 < fraction_of f unit scale"
    and "fraction_of f unit scale \<le> real_of_int (uint f) * unit / scale + 1 / 100"
    and "0 \<le> fraction_of f unit scale"
proof -
  let ?x = "float64_mul (float64_of (uint f) 1) (float64_div (float64_of unit 1) (scale, 1))"
  define E where "E = real_of_int (uint f) * unit / scale"
  have f: "0 < uint f" "uint f < scale" using assms(1,2) by (simp_all add: word_less_def)
  then have r: "rounded 4 (float64_value ?x) E" using fraction_rounded [of "uint f" unit scale] assms(3) unfolding E_def by simp
  have "real_of_int (uint f) \<le> scale" using f(2) by (intro of_int_le_iff [THEN iffD2]) simp
  then have "real_of_int (uint f) / scale \<le> 1" using f(1,2) by (intro divide_le_eq_1 [THEN iffD2] disjI1 conjI) linarith+
  then have "real_of_int (uint f) / scale * unit \<le> 1 * 3600000000000" using assms(3,4) f by (intro mult_mono) simp_all
  then have E: "E \<le> 3600000000000" unfolding E_def by simp
  have pos: "0 < E" using r by (simp add: rounded_def)
  have "(1 + half_ulp) ^ 4 \<le> 1 + 1 / 10 ^ 15" "1 - 1 / 10 ^ 15 \<le> (1 - half_ulp) ^ 4"
    by (simp_all add: half_ulp_def power_divide)
  then have "E * (1 + half_ulp) ^ 4 \<le> E * (1 + 1 / 10 ^ 15)" "E * (1 - 1 / 10 ^ 15) \<le> E * (1 - half_ulp) ^ 4"
    using pos by simp_all
  moreover have "E * (1 + 1 / 10 ^ 15) \<le> E + 1 / 100" "E - 1 / 100 \<le> E * (1 - 1 / 10 ^ 15)"
    using E by (simp_all add: algebra_simps)
  ultimately have "E - 1 / 100 \<le> float64_value ?x" "float64_value ?x \<le> E + 1 / 100"
    using r unfolding rounded_def by linarith+
  moreover have "fraction_of f unit scale = \<lfloor>float64_value ?x\<rfloor>"
    by (simp add: fraction_of_def float64_trunc_def float64_value_def floor_divide_of_int_eq)
  moreover have "of_int \<lfloor>float64_value ?x\<rfloor> \<le> float64_value ?x" "float64_value ?x < of_int \<lfloor>float64_value ?x\<rfloor> + 1" by linarith+
  ultimately show "real_of_int (uint f) * unit / scale - 101 / 100 < fraction_of f unit scale"
    "fraction_of f unit scale \<le> real_of_int (uint f) * unit / scale + 1 / 100"
    "0 \<le> fraction_of f unit scale"
    unfolding E_def [symmetric] using rounded_pos [OF r] by linarith+
qed

text \<open>
  The conversion of the product to \<^verbatim>\<open>uint64\<close> is in range for what the parser read, and adding it to the
  whole part does not wrap around.
\<close>

lemma parse_number_fraction:
  assumes "parse_number s = Inr (v, f, scale, t)"
  shows "int (unat f) < scale"
  using assms leadingFraction_invariant [of False 0 1]
  by (fastforce simp: parse_number_def Let_def split: if_splits sum.splits prod.splits)

lemma fraction_in_range:
  assumes "parse_number s = Inr (v, f, scale, t)" "0 < f" "unitMap u = Some unit"
  shows "0 \<le> fraction_of f unit scale \<and> fraction_of f unit scale \<le> unit"
proof -
  have f: "int (unat f) < scale" using parse_number_fraction [OF assms(1)] .
  have unit: "0 < unit" "unit \<le> 3600000000000" using unitMap_range [OF assms(3)] by simp_all
  have s: "0 < uint f" "uint f < scale" using assms(2) f by (simp_all add: word_less_def)
  have ratio: "0 < real_of_int (uint f) / scale" "real_of_int (uint f) / scale < 1"
    using s by (simp_all only: divide_less_eq_1 zero_less_divide_iff of_int_0_less_iff of_int_less_iff) auto
  have "real_of_int (uint f) / scale * unit < 1 * real_of_int unit"
    using ratio unit by (intro mult_strict_right_mono) simp_all
  then have "real_of_int (uint f) * unit / scale < real_of_int unit" by simp
  with fraction_accurate(2) [OF assms(2) f unit]
  have "real_of_int (fraction_of f unit scale) < real_of_int (unit + 1)" unfolding of_int_add of_int_1 by linarith
  then have "fraction_of f unit scale < unit + 1" by (rule of_int_less_iff [THEN iffD1])
  then show ?thesis using fraction_accurate(3) [OF assms(2) f unit] by simp
qed

end
