(* ===== verification/DomainValues.thy ===== *)
theory DomainValues
  imports UnicodeCase
begin

text \<open>
  The value objects of \<^verbatim>\<open>internal/domain\<close>: reason codes, required actions, decisions, policy
  effects, principals, delegations, targets, digests and payload facts. The typed strings of the
  source are strings with a \<open>Valid\<close> predicate, the structs are records and every constructor
  returns a fallible result.
\<close>

section \<open>Reason codes (reason\_code.go)\<close>

type_synonym ReasonCode = string

definition ReasonDelegatorApprovalRequired :: ReasonCode where
  "ReasonDelegatorApprovalRequired = ''DELEGATOR_APPROVAL_REQUIRED''"
definition ReasonExternalDestination :: ReasonCode where
  "ReasonExternalDestination = ''EXTERNAL_DESTINATION''"
definition ReasonVisibilityExpansion :: ReasonCode where
  "ReasonVisibilityExpansion = ''VISIBILITY_EXPANSION''"
definition ReasonDestructiveOperation :: ReasonCode where
  "ReasonDestructiveOperation = ''DESTRUCTIVE_OPERATION''"
definition ReasonActorNotAuthorized :: ReasonCode where
  "ReasonActorNotAuthorized = ''ACTOR_NOT_AUTHORIZED''"
definition ReasonPolicyUnavailable :: ReasonCode where
  "ReasonPolicyUnavailable = ''POLICY_UNAVAILABLE''"

lemmas reason_defs =
  ReasonDelegatorApprovalRequired_def ReasonExternalDestination_def ReasonVisibilityExpansion_def
  ReasonDestructiveOperation_def ReasonActorNotAuthorized_def ReasonPolicyUnavailable_def

definition ReasonCode_Valid :: "ReasonCode \<Rightarrow> bool" where
  "ReasonCode_Valid code \<longleftrightarrow>
     code = ReasonDelegatorApprovalRequired \<or> code = ReasonExternalDestination \<or>
     code = ReasonVisibilityExpansion \<or> code = ReasonDestructiveOperation \<or>
     code = ReasonActorNotAuthorized \<or> code = ReasonPolicyUnavailable"

definition ParseReasonCode :: "string \<Rightarrow> ReasonCode res" where
  "ParseReasonCode value = (if \<not> ReasonCode_Valid value then Inl [Domain ErrInvalidReasonCode] else Inr value)"

section \<open>Required actions (required\_action.go)\<close>

type_synonym RequiredActionType = string

definition RequiredActionRequireApproval :: RequiredActionType where
  "RequiredActionRequireApproval = ''REQUIRE_APPROVAL''"

definition RequiredActionType_Valid :: "RequiredActionType \<Rightarrow> bool" where
  "RequiredActionType_Valid typ \<longleftrightarrow> typ = RequiredActionRequireApproval"

definition ParseRequiredActionType :: "string \<Rightarrow> RequiredActionType res" where
  "ParseRequiredActionType value =
     (if \<not> RequiredActionType_Valid value then Inl [Domain ErrInvalidRequiredActionType] else Inr value)"

record RequiredAction =
  required_typ :: RequiredActionType

definition NewRequireApprovalAction :: RequiredAction where
  "NewRequireApprovalAction = \<lparr>required_typ = RequiredActionRequireApproval\<rparr>"

definition RequiredAction_valid :: "RequiredAction \<Rightarrow> bool" where
  "RequiredAction_valid action \<longleftrightarrow> RequiredActionType_Valid (required_typ action)"

section \<open>Decisions (decision.go)\<close>

type_synonym DecisionType = string

definition DecisionAllow :: DecisionType where
  "DecisionAllow = ''ALLOW''"
definition DecisionDeny :: DecisionType where
  "DecisionDeny = ''DENY''"

definition DecisionType_Valid :: "DecisionType \<Rightarrow> bool" where
  "DecisionType_Valid typ \<longleftrightarrow> typ = DecisionAllow \<or> typ = DecisionDeny"

definition ParseDecisionType :: "string \<Rightarrow> DecisionType res" where
  "ParseDecisionType value =
     (if \<not> DecisionType_Valid value then Inl [Domain ErrInvalidDecisionType] else Inr value)"

record Decision =
  decision_typ :: DecisionType
  reasonCodes :: "ReasonCode list"
  requiredActions :: "RequiredAction list"

definition NewAllowDecision :: Decision where
  "NewAllowDecision = \<lparr>decision_typ = DecisionAllow, reasonCodes = [], requiredActions = []\<rparr>"

text \<open>
  The two loops of \<^verbatim>\<open>NewDenyDecision\<close>: stop at the first invalid item, skip an item already seen,
  keep first-seen order.
\<close>

fun normalizeReasons :: "ReasonCode list \<Rightarrow> ReasonCode list \<Rightarrow> ReasonCode list res" where
  "normalizeReasons seen [] = Inr []"
| "normalizeReasons seen (code # codes) =
     (if \<not> ReasonCode_Valid code then Inl [Domain ErrInvalidReasonCode]
      else if code \<in> set seen then normalizeReasons seen codes
      else res_bind (normalizeReasons (code # seen) codes) (\<lambda>rest. Inr (code # rest)))"

fun normalizeRequiredActions :: "RequiredActionType list \<Rightarrow> RequiredAction list \<Rightarrow> RequiredAction list res" where
  "normalizeRequiredActions seen [] = Inr []"
| "normalizeRequiredActions seen (action # actions) =
     (if \<not> RequiredAction_valid action then Inl [Domain ErrInvalidRequiredActionType]
      else if required_typ action \<in> set seen then normalizeRequiredActions seen actions
      else res_bind (normalizeRequiredActions (required_typ action # seen) actions)
             (\<lambda>rest. Inr (action # rest)))"

definition NewDenyDecision :: "ReasonCode list \<Rightarrow> RequiredAction list \<Rightarrow> Decision res" where
  "NewDenyDecision codes actions =
     (if codes = [] then Inl [Domain ErrInvalidArgument]
      else
        res_bind (normalizeReasons [] codes) (\<lambda>normalizedReasons.
        res_bind (normalizeRequiredActions [] actions) (\<lambda>normalizedActions.
          let hasApprovalReason = ReasonDelegatorApprovalRequired \<in> set normalizedReasons in
          if normalizedActions \<noteq> [] \<and> \<not> hasApprovalReason then Inl [Domain ErrInvariantViolation]
          else if hasApprovalReason \<and> normalizedActions = [] then Inl [Domain ErrInvariantViolation]
          else Inr \<lparr>decision_typ = DecisionDeny, reasonCodes = normalizedReasons,
                    requiredActions = normalizedActions\<rparr>)))"

text \<open>
  First-seen order without duplicates, the reference the loops are compared with.
\<close>

fun first_seen :: "'a list \<Rightarrow> 'a list" where
  "first_seen [] = []"
| "first_seen (x # xs) = x # filter (\<lambda>y. y \<noteq> x) (first_seen xs)"

lemma set_first_seen [simp]: "set (first_seen xs) = set xs"
  by (induction xs) auto

lemma distinct_first_seen [simp]: "distinct (first_seen xs)"
  by (induction xs) auto

lemma first_seen_id: "distinct xs \<Longrightarrow> first_seen xs = xs"
  by (induction xs) (auto intro: filter_True)

lemma normalizeReasons_eq:
  "normalizeReasons seen codes =
     (if list_all ReasonCode_Valid codes then Inr (filter (\<lambda>c. c \<notin> set seen) (first_seen codes))
      else Inl [Domain ErrInvalidReasonCode])"
proof (induction codes arbitrary: seen)
  case (Cons code codes)
  show ?case
    by (auto simp: Cons.IH intro!: filter_cong)
qed simp

lemma RequiredAction_valid_eq: "RequiredAction_valid a \<longleftrightarrow> a = NewRequireApprovalAction"
  by (cases a) (auto simp: RequiredAction_valid_def RequiredActionType_Valid_def NewRequireApprovalAction_def)

lemma normalizeRequiredActions_eq:
  "normalizeRequiredActions seen actions =
     (if list_all RequiredAction_valid actions
      then Inr (if actions = [] \<or> RequiredActionRequireApproval \<in> set seen then [] else [NewRequireApprovalAction])
      else Inl [Domain ErrInvalidRequiredActionType])"
proof (induction actions arbitrary: seen)
  case (Cons action actions)
  then show ?case
    by (auto simp: Cons.IH RequiredAction_valid_eq NewRequireApprovalAction_def)
qed simp

text \<open>The invariant of a decision: what \<^verbatim>\<open>NewAllowDecision\<close> and \<^verbatim>\<open>NewDenyDecision\<close> establish.\<close>

definition wf_decision :: "Decision \<Rightarrow> bool" where
  "wf_decision d \<longleftrightarrow>
     (decision_typ d = DecisionAllow \<and> reasonCodes d = [] \<and> requiredActions d = []) \<or>
     (decision_typ d = DecisionDeny \<and> reasonCodes d \<noteq> [] \<and> distinct (reasonCodes d) \<and>
      list_all ReasonCode_Valid (reasonCodes d) \<and>
      requiredActions d =
        (if ReasonDelegatorApprovalRequired \<in> set (reasonCodes d) then [NewRequireApprovalAction] else []))"

lemma NewDenyDecision_Inr_iff:
  "NewDenyDecision codes actions = Inr d \<longleftrightarrow>
     codes \<noteq> [] \<and> list_all ReasonCode_Valid codes \<and> list_all RequiredAction_valid actions \<and>
     (actions \<noteq> [] \<longleftrightarrow> ReasonDelegatorApprovalRequired \<in> set codes) \<and>
     d = \<lparr>decision_typ = DecisionDeny, reasonCodes = first_seen codes,
          requiredActions = (if actions = [] then [] else [NewRequireApprovalAction])\<rparr>"
  by (auto simp: NewDenyDecision_def normalizeReasons_eq normalizeRequiredActions_eq)

lemma wf_NewAllowDecision [simp]: "wf_decision NewAllowDecision"
  by (simp add: wf_decision_def NewAllowDecision_def)

lemma wf_NewDenyDecision: "NewDenyDecision codes actions = Inr d \<Longrightarrow> wf_decision d"
  by (auto simp: NewDenyDecision_Inr_iff wf_decision_def list_all_iff)
    (metis first_seen.simps(1) set_empty set_first_seen)+

text \<open>A stored decision rebuilt through the constructor is the decision itself.\<close>

lemma NewDenyDecision_rebuild:
  assumes "wf_decision d" "decision_typ d = DecisionDeny"
  shows "NewDenyDecision (reasonCodes d) (requiredActions d) = Inr d"
  using assms
  by (cases d) (auto simp: NewDenyDecision_Inr_iff wf_decision_def first_seen_id RequiredAction_valid_eq
      DecisionAllow_def DecisionDeny_def)

section \<open>Policy effects (policy\_effect.go)\<close>

type_synonym PolicyEffectType = string

definition PolicyEffectCreateSafetyReview :: PolicyEffectType where
  "PolicyEffectCreateSafetyReview = ''CREATE_SAFETY_REVIEW''"

definition PolicyEffectType_Valid :: "PolicyEffectType \<Rightarrow> bool" where
  "PolicyEffectType_Valid typ \<longleftrightarrow> typ = PolicyEffectCreateSafetyReview"

definition ParsePolicyEffectType :: "string \<Rightarrow> PolicyEffectType res" where
  "ParsePolicyEffectType value =
     (if \<not> PolicyEffectType_Valid value then Inl [Domain ErrInvalidPolicyEffectType] else Inr value)"

type_synonym SafetyReviewPriority = string

definition SafetyReviewLow :: SafetyReviewPriority where "SafetyReviewLow = ''LOW''"
definition SafetyReviewMedium :: SafetyReviewPriority where "SafetyReviewMedium = ''MEDIUM''"
definition SafetyReviewHigh :: SafetyReviewPriority where "SafetyReviewHigh = ''HIGH''"
definition SafetyReviewCritical :: SafetyReviewPriority where "SafetyReviewCritical = ''CRITICAL''"

definition SafetyReviewPriority_Valid :: "SafetyReviewPriority \<Rightarrow> bool" where
  "SafetyReviewPriority_Valid p \<longleftrightarrow>
     p = SafetyReviewLow \<or> p = SafetyReviewMedium \<or> p = SafetyReviewHigh \<or> p = SafetyReviewCritical"

record SafetyReviewRequirement =
  review_priority :: SafetyReviewPriority
  review_evidenceRefs :: "string list"

fun checkEvidenceRefs :: "string list \<Rightarrow> string list \<Rightarrow> unit res" where
  "checkEvidenceRefs seen [] = Inr ()"
| "checkEvidenceRefs seen (ref # refs) =
     (if TrimSpace ref = [] then Inl [Domain ErrInvalidArgument]
      else if ref \<in> set seen then Inl [Domain ErrInvalidArgument]
      else checkEvidenceRefs (ref # seen) refs)"

definition NewSafetyReviewRequirement ::
    "SafetyReviewPriority \<Rightarrow> string list \<Rightarrow> SafetyReviewRequirement res" where
  "NewSafetyReviewRequirement priority refs =
     (if \<not> SafetyReviewPriority_Valid priority then Inl [Domain ErrInvalidArgument]
      else res_bind (checkEvidenceRefs [] refs)
             (\<lambda>_. Inr \<lparr>review_priority = priority, review_evidenceRefs = refs\<rparr>))"

text \<open>
  \<^verbatim>\<open>PolicyEffect\<close> is an interface with an unexported method: its implementations are
  \<^verbatim>\<open>CreateSafetyReviewEffect\<close> and the pointer to it, which may be nil. A nil interface is \<open>None\<close>
  of \<open>PolicyEffect option\<close>.
\<close>

record CreateSafetyReview =
  requirement :: SafetyReviewRequirement

datatype PolicyEffect =
    CreateSafetyReviewEffect CreateSafetyReview
  | CreateSafetyReviewPtr "CreateSafetyReview option"

definition CreateSafetyReview_validate :: "CreateSafetyReview \<Rightarrow> unit res" where
  "CreateSafetyReview_validate effect =
     guard_res (SafetyReviewPriority_Valid (review_priority (requirement effect))) [Domain ErrInvalidArgument]"

definition NewCreateSafetyReviewEffect :: "SafetyReviewRequirement \<Rightarrow> CreateSafetyReview res" where
  "NewCreateSafetyReviewEffect req =
     (let effect = \<lparr>requirement = req\<rparr>
      in res_bind (CreateSafetyReview_validate effect) (\<lambda>_. Inr effect))"

lemma checkEvidenceRefs_Inr_iff:
  "checkEvidenceRefs seen refs = Inr u \<longleftrightarrow>
     distinct refs \<and> set refs \<inter> set seen = {} \<and> (\<forall>r \<in> set refs. TrimSpace r \<noteq> [])"
  by (induction refs arbitrary: seen) auto

lemma NewSafetyReviewRequirement_Inr_iff:
  "NewSafetyReviewRequirement priority refs = Inr req \<longleftrightarrow>
     SafetyReviewPriority_Valid priority \<and> distinct refs \<and> (\<forall>r \<in> set refs. TrimSpace r \<noteq> []) \<and>
     req = \<lparr>review_priority = priority, review_evidenceRefs = refs\<rparr>"
  by (auto simp: NewSafetyReviewRequirement_def res_simps checkEvidenceRefs_Inr_iff)

section \<open>Principals, delegations and targets (principal.go)\<close>

type_synonym PrincipalType = string

definition PrincipalUser :: PrincipalType where "PrincipalUser = ''USER''"
definition PrincipalAgent :: PrincipalType where "PrincipalAgent = ''AGENT''"
definition PrincipalRuntime :: PrincipalType where "PrincipalRuntime = ''RUNTIME''"
definition PrincipalService :: PrincipalType where "PrincipalService = ''SERVICE''"

definition PrincipalType_Valid :: "PrincipalType \<Rightarrow> bool" where
  "PrincipalType_Valid typ \<longleftrightarrow>
     typ = PrincipalUser \<or> typ = PrincipalAgent \<or> typ = PrincipalRuntime \<or> typ = PrincipalService"

definition ParsePrincipalType :: "string \<Rightarrow> PrincipalType res" where
  "ParsePrincipalType value =
     (if \<not> PrincipalType_Valid value then Inl [Domain ErrInvalidPrincipalType] else Inr value)"

definition normalizeRequiredIdentifier :: "string \<Rightarrow> string res" where
  "normalizeRequiredIdentifier value0 =
     (let value = TrimSpace value0 in
      if value = [] then Inl [Domain ErrInvalidArgument]
      else if 256 < length value then Inl [Domain ErrInvalidArgument]
      else Inr value)"

definition normalizeOptionalIdentifier :: "string \<Rightarrow> string res" where
  "normalizeOptionalIdentifier value0 =
     (let value = TrimSpace value0 in
      if 256 < length value then Inl [Domain ErrInvalidArgument] else Inr value)"

record Principal =
  principal_typ :: PrincipalType
  principal_id :: string

definition NewPrincipal :: "PrincipalType \<Rightarrow> string \<Rightarrow> Principal res" where
  "NewPrincipal typ ident =
     (if \<not> PrincipalType_Valid typ then Inl [Domain ErrInvalidPrincipalType]
      else res_bind (normalizeRequiredIdentifier ident)
             (\<lambda>ident'. Inr \<lparr>principal_typ = typ, principal_id = ident'\<rparr>))"

definition Principal_valid :: "Principal \<Rightarrow> bool" where
  "Principal_valid p \<longleftrightarrow> PrincipalType_Valid (principal_typ p) \<and> TrimSpace (principal_id p) \<noteq> []"

record Delegation =
  delegation_id :: string
  delegator :: Principal

definition NewDelegation :: "string \<Rightarrow> Principal \<Rightarrow> Delegation res" where
  "NewDelegation ident by_whom =
     res_bind (normalizeRequiredIdentifier ident) (\<lambda>ident'.
       if \<not> Principal_valid by_whom then Inl [Domain ErrInvalidArgument]
       else Inr \<lparr>delegation_id = ident', delegator = by_whom\<rparr>)"

definition Delegation_valid :: "Delegation \<Rightarrow> bool" where
  "Delegation_valid d \<longleftrightarrow> TrimSpace (delegation_id d) \<noteq> [] \<and> Principal_valid (delegator d)"

record Target =
  resourceType :: string
  resourceID :: string

definition NewTarget :: "string \<Rightarrow> string \<Rightarrow> Target res" where
  "NewTarget rtype rid =
     (let rtype' = TrimSpace rtype in
      if rtype' = [] then Inl [Domain ErrInvalidArgument]
      else if 128 < length rtype' then Inl [Domain ErrInvalidArgument]
      else res_bind (normalizeRequiredIdentifier rid)
             (\<lambda>rid'. Inr \<lparr>resourceType = rtype', resourceID = rid'\<rparr>))"

definition Target_valid :: "Target \<Rightarrow> bool" where
  "Target_valid target \<longleftrightarrow> TrimSpace (resourceType target) \<noteq> [] \<and> TrimSpace (resourceID target) \<noteq> []"

text \<open>A normalised identifier: trimmed, of 1 to 256 bytes.\<close>

definition wf_identifier :: "string \<Rightarrow> bool" where
  "wf_identifier s \<longleftrightarrow> trimmed s \<and> s \<noteq> [] \<and> length s \<le> 256"

lemma normalizeRequiredIdentifier_Inr_iff:
  "normalizeRequiredIdentifier v = Inr s \<longleftrightarrow> s = TrimSpace v \<and> wf_identifier s"
  by (auto simp: normalizeRequiredIdentifier_def wf_identifier_def Let_def)

lemma normalizeOptionalIdentifier_Inr_iff:
  "normalizeOptionalIdentifier v = Inr s \<longleftrightarrow> s = TrimSpace v \<and> length s \<le> 256"
  by (auto simp: normalizeOptionalIdentifier_def Let_def)

lemma wf_identifier_TrimSpace [simp]: "wf_identifier s \<Longrightarrow> TrimSpace s = s"
  by (simp add: wf_identifier_def TrimSpace_id)

lemma wf_identifier_not_Nil [simp]: "wf_identifier s \<Longrightarrow> s \<noteq> []"
  by (simp add: wf_identifier_def)

definition wf_principal :: "Principal \<Rightarrow> bool" where
  "wf_principal p \<longleftrightarrow> PrincipalType_Valid (principal_typ p) \<and> wf_identifier (principal_id p)"

definition wf_delegation :: "Delegation \<Rightarrow> bool" where
  "wf_delegation d \<longleftrightarrow> wf_identifier (delegation_id d) \<and> wf_principal (delegator d)"

definition wf_target :: "Target \<Rightarrow> bool" where
  "wf_target t \<longleftrightarrow> trimmed (resourceType t) \<and> resourceType t \<noteq> [] \<and> length (resourceType t) \<le> 128 \<and>
     wf_identifier (resourceID t)"

lemma NewPrincipal_Inr_iff:
  "NewPrincipal typ ident = Inr p \<longleftrightarrow>
     p = \<lparr>principal_typ = typ, principal_id = TrimSpace ident\<rparr> \<and> wf_principal p"
  by (auto simp: NewPrincipal_def res_simps normalizeRequiredIdentifier_Inr_iff wf_principal_def)

lemma NewPrincipal_rebuild: "wf_principal p \<Longrightarrow> NewPrincipal (principal_typ p) (principal_id p) = Inr p"
  by (simp add: NewPrincipal_Inr_iff) (simp add: wf_principal_def)

lemma Principal_valid_wf: "wf_principal p \<Longrightarrow> Principal_valid p"
  by (simp add: wf_principal_def Principal_valid_def)

lemma NewDelegation_Inr_iff:
  "NewDelegation ident p = Inr d \<longleftrightarrow>
     d = \<lparr>delegation_id = TrimSpace ident, delegator = p\<rparr> \<and> wf_identifier (TrimSpace ident) \<and> Principal_valid p"
  by (auto simp: NewDelegation_def res_simps normalizeRequiredIdentifier_Inr_iff)

lemma NewDelegation_rebuild: "wf_delegation d \<Longrightarrow> NewDelegation (delegation_id d) (delegator d) = Inr d"
  by (simp add: NewDelegation_Inr_iff wf_delegation_def Principal_valid_wf)

lemma NewTarget_Inr_iff:
  "NewTarget rt rid = Inr t \<longleftrightarrow> t = \<lparr>resourceType = TrimSpace rt, resourceID = TrimSpace rid\<rparr> \<and> wf_target t"
  by (auto simp: NewTarget_def Let_def res_simps normalizeRequiredIdentifier_Inr_iff wf_target_def)

lemma NewTarget_rebuild: "wf_target t \<Longrightarrow> NewTarget (resourceType t) (resourceID t) = Inr t"
  by (simp add: NewTarget_Inr_iff) (simp add: wf_target_def TrimSpace_id)

lemma Target_valid_wf: "wf_target t \<Longrightarrow> Target_valid t"
  by (simp add: wf_target_def Target_valid_def TrimSpace_id)

lemma Delegation_valid_wf: "wf_delegation d \<Longrightarrow> Delegation_valid d"
  by (simp add: wf_delegation_def Delegation_valid_def Principal_valid_wf)

end
