(* ===== verification/GoTime.thy ===== *)
theory GoTime
  imports GoJson
begin

text \<open>
  Go's \<^verbatim>\<open>time.Time\<close>: an instant, counted in nanoseconds since 0001-01-01T00:00:00Z, and the offset in
  seconds of the location it is presented in. \<^verbatim>\<open>IsZero\<close> reads the instant only; \<^verbatim>\<open>UTC\<close> changes the
  location only. The two layouts the program formats with and the one it parses are modelled over
  the proleptic Gregorian calendar; the main result is that parsing a formatted UTC time of the years
  0 to 9999 gives the time back.
\<close>

record Time =
  instant :: int
  zone_offset :: int

definition Time_IsZero :: "Time \<Rightarrow> bool" where
  "Time_IsZero t \<longleftrightarrow> instant t = 0"

definition Time_UTC :: "Time \<Rightarrow> Time" where
  "Time_UTC t = t\<lparr>zone_offset := 0\<rparr>"

definition zero_time :: Time where
  "zero_time = \<lparr>instant = 0, zone_offset = 0\<rparr>"

lemma Time_UTC_idem [simp]: "Time_UTC (Time_UTC t) = Time_UTC t"
  by (simp add: Time_UTC_def)

lemma Time_IsZero_UTC [simp]: "Time_IsZero (Time_UTC t) = Time_IsZero t"
  by (simp add: Time_IsZero_def Time_UTC_def)

definition utc_time :: "Time \<Rightarrow> bool" where
  "utc_time t \<longleftrightarrow> zone_offset t = 0"

lemma Time_UTC_id: "utc_time t \<Longrightarrow> Time_UTC t = t"
  by (cases t) (simp add: Time_UTC_def utc_time_def)

lemma utc_time_UTC [simp]: "utc_time (Time_UTC t)"
  by (simp add: Time_UTC_def utc_time_def)

section \<open>The calendar\<close>

definition leap_year :: "int \<Rightarrow> bool" where
  "leap_year y \<longleftrightarrow> y mod 4 = 0 \<and> (y mod 100 \<noteq> 0 \<or> y mod 400 = 0)"

definition month_lengths :: "int \<Rightarrow> int list" where
  "month_lengths y = [31, if leap_year y then 29 else 28, 31, 30, 31, 30, 31, 31, 30, 31, 30, 31]"

text \<open>Days from 0001-01-01 to the first day of a year, and to a date of it (\<^verbatim>\<open>time.Date\<close>).\<close>

definition days_before_year :: "int \<Rightarrow> int" where
  "days_before_year y = 365 * (y - 1) + (y - 1) div 4 - (y - 1) div 100 + (y - 1) div 400"

definition days_of_date :: "int \<Rightarrow> nat \<Rightarrow> int \<Rightarrow> int" where
  "days_of_date y m d = days_before_year y + sum_list (take (m - 1) (month_lengths y)) + (d - 1)"

text \<open>The year of a day and the day of that year: 400, 100, 4 and 1 year cycles in turn.\<close>

definition year_of_days :: "int \<Rightarrow> int \<times> int" where
  "year_of_days n =
     (let c = n div 146097; r = n mod 146097;
          q = min 3 (r div 36524); r = r - 36524 * q;
          p = r div 1461; r = r - 1461 * p;
          y = min 3 (r div 365)
      in (400 * c + 100 * q + 4 * p + y + 1, r - 365 * y))"

fun split_months :: "int list \<Rightarrow> nat \<Rightarrow> int \<Rightarrow> nat \<times> int" where
  "split_months [] m d = (m, d)"
| "split_months (n # ns) m d = (if d < n then (m, d) else split_months ns (Suc m) (d - n))"

definition date_of_days :: "int \<Rightarrow> int \<times> nat \<times> int" where
  "date_of_days n =
     (case year_of_days n of (y, yday) \<Rightarrow>
      case split_months (month_lengths y) 1 yday of (m, d) \<Rightarrow> (y, m, d + 1))"

lemma days_before_year_cycles:
  assumes "0 \<le> q" "q \<le> 3" "0 \<le> p" "p \<le> 24" "0 \<le> r" "r \<le> (3::int)"
  shows "days_before_year (400 * c + 100 * q + 4 * p + r + 1) = 146097 * c + 36524 * q + 1461 * p + 365 * r"
proof -
  let ?y = "400 * c + 100 * q + 4 * p + r"
  have "?y div 4 = 100 * c + 25 * q + p" using assms by linarith
  moreover have "?y div 100 = 4 * c + q" using assms by linarith
  moreover have "?y div 400 = c" using assms by linarith
  ultimately show ?thesis by (simp add: days_before_year_def)
qed

lemma leap_year_cycles:
  assumes "0 \<le> q" "q \<le> 3" "0 \<le> p" "p \<le> 24" "0 \<le> r" "r \<le> (3::int)"
  shows "leap_year (400 * c + 100 * q + 4 * p + r + 1) \<longleftrightarrow> r = 3 \<and> (p \<noteq> 24 \<or> q = 3)"
proof -
  let ?y = "400 * c + 100 * q + 4 * p + r + 1"
  have period: "(x + m * k) mod m = 0 \<longleftrightarrow> x = m" if "0 < x" "x \<le> m" for x m k :: int
    using that by (cases "x = m") (simp_all add: mod_pos_pos_trivial)
  have "?y mod 4 = 0 \<longleftrightarrow> r + 1 = 4"
    using period [of "r + 1" 4 "100 * c + 25 * q + p"] assms by (simp add: algebra_simps)
  moreover have "?y mod 100 = 0 \<longleftrightarrow> 4 * p + r + 1 = 100"
    using period [of "4 * p + r + 1" 100 "4 * c + q"] assms by (simp add: algebra_simps)
  moreover have "?y mod 400 = 0 \<longleftrightarrow> 100 * q + 4 * p + r + 1 = 400"
    using period [of "100 * q + 4 * p + r + 1" 400 c] assms by (simp add: algebra_simps)
  ultimately show ?thesis unfolding leap_year_def using assms by auto
qed

lemma min3_cycle:
  fixes r m :: int
  assumes "0 \<le> r" "r < 4 * m + 1" "0 < m"
  shows "0 \<le> min 3 (r div m)" "min 3 (r div m) \<le> 3" "0 \<le> r - m * min 3 (r div m)"
    "r - m * min 3 (r div m) < m + 1" "r - m * min 3 (r div m) < m \<or> min 3 (r div m) = 3"
proof -
  have d: "0 \<le> r div m" "r = m * (r div m) + r mod m" "0 \<le> r mod m" "r mod m < m"
    using assms by (simp_all add: pos_imp_zdiv_nonneg_iff)
  consider "r div m < 3" | "3 \<le> r div m" by linarith
  then have "0 \<le> min 3 (r div m) \<and> min 3 (r div m) \<le> 3 \<and> 0 \<le> r - m * min 3 (r div m) \<and>
    r - m * min 3 (r div m) < m + 1 \<and> (r - m * min 3 (r div m) < m \<or> min 3 (r div m) = 3)"
  proof cases
    case 1
    then have "min 3 (r div m) = r div m" by simp
    moreover have "r - m * (r div m) = r mod m" by (simp add: minus_mult_div_eq_mod)
    ultimately show ?thesis using d 1 by linarith
  next
    case 2
    then have "m * 3 \<le> m * (r div m)" using assms(3) by (intro mult_left_mono) simp_all
    then have "m * 3 \<le> r" using d by linarith
    with 2 assms show ?thesis by (simp add: min_def)
  qed
  then show "0 \<le> min 3 (r div m)" "min 3 (r div m) \<le> 3" "0 \<le> r - m * min 3 (r div m)"
    "r - m * min 3 (r div m) < m + 1" "r - m * min 3 (r div m) < m \<or> min 3 (r div m) = 3"
    by auto
qed

lemma year_of_days_correct:
  assumes "year_of_days n = (y, yday)"
  shows "n = days_before_year y + yday" "0 \<le> yday" "yday < (if leap_year y then 366 else 365)"
proof -
  define c r0 where "c = n div 146097" and "r0 = n mod 146097"
  define q where "q = min 3 (r0 div 36524)"
  define r1 where "r1 = r0 - 36524 * q"
  define p where "p = r1 div 1461"
  define r2 where "r2 = r1 - 1461 * p"
  define k where "k = min 3 (r2 div 365)"
  have y: "y = 400 * c + 100 * q + 4 * p + k + 1" "yday = r2 - 365 * k"
    using assms
    by (simp_all only: year_of_days_def Let_def prod.inject c_def [symmetric] r0_def [symmetric]
        q_def [symmetric] r1_def [symmetric] p_def [symmetric] r2_def [symmetric] k_def [symmetric])
  have r0: "0 \<le> r0" "r0 < 146097" "n = 146097 * c + r0" by (simp_all add: r0_def c_def)
  have q: "0 \<le> q" "q \<le> 3" "0 \<le> r1" "r1 < 36525" "r1 < 36524 \<or> q = 3"
    using min3_cycle [of r0 36524] r0 by (simp_all add: q_def r1_def)
  have p: "0 \<le> p" "0 \<le> r2" "r2 < 1461" using q(3) by (simp_all add: p_def r2_def minus_mult_div_eq_mod)
  have r1: "r1 = 1461 * p + r2" by (simp add: r2_def)
  have r0': "r0 = 36524 * q + r1" by (simp add: r1_def)
  have p': "p \<le> 24" using r1 q(4) p by linarith
  have r2': "r2 < 1460 \<or> p \<noteq> 24 \<or> q = 3" using r1 q(5) by linarith
  have k: "0 \<le> k" "k \<le> 3" "0 \<le> yday" "yday < 366" "yday < 365 \<or> k = 3"
    using min3_cycle [of r2 365] p by (simp_all add: k_def y(2))
  have k': "yday < 365 \<or> p \<noteq> 24 \<or> q = 3" using r2' k(5) by (auto simp: y(2))
  show "n = days_before_year y + yday"
    using days_before_year_cycles [OF q(1,2) p(1) p' k(1,2), of c] r0(3) r1 r0'
    by (simp only: y)
  show "0 \<le> yday" by (rule k)
  show "yday < (if leap_year y then 366 else 365)"
    using leap_year_cycles [OF q(1,2) p(1) p' k(1,2), of c] k(4,5) k' by (auto simp: y(1))
qed

lemma split_months_correct:
  assumes "0 \<le> d" "d < sum_list ns"
  shows "\<exists>k < length ns. \<exists>d'. split_months ns m d = (m + k, d') \<and>
    d = sum_list (take k ns) + d' \<and> 0 \<le> d' \<and> d' < ns ! k"
  using assms
proof (induction ns m d rule: split_months.induct)
  case (2 n ns m d)
  show ?case
  proof (cases "d < n")
    case False
    then obtain k d' where "k < length ns" "split_months ns (Suc m) (d - n) = (Suc m + k, d')"
        "d - n = sum_list (take k ns) + d'" "0 \<le> d'" "d' < ns ! k"
      using 2 by fastforce
    then show ?thesis using False by (intro exI [of _ "Suc k"]) simp
  qed (use 2 in auto)
qed simp

lemma date_of_days_correct:
  assumes "date_of_days n = (y, m, d)"
  shows "n = days_of_date y m d" "1 \<le> m" "m \<le> 12" "1 \<le> d" "d \<le> month_lengths y ! (m - 1)" "d \<le> 31"
proof -
  obtain yday where yd: "year_of_days n = (y, yday)" "split_months (month_lengths y) 1 yday = (m, d - 1)"
    using assms by (auto simp: date_of_days_def split: prod.splits)
  note yc = year_of_days_correct [OF yd(1)]
  have sum: "sum_list (month_lengths y) = (if leap_year y then 366 else 365)"
    by (simp add: month_lengths_def)
  obtain k where "k < length (month_lengths y)" "m = 1 + k" "yday = sum_list (take k (month_lengths y)) + (d - 1)"
      "0 \<le> d - 1" "d - 1 < month_lengths y ! k"
    using split_months_correct [of yday "month_lengths y" 1] yc(2,3) sum yd(2) by auto
  moreover from this have "month_lengths y ! k \<le> 31"
    by (auto simp: month_lengths_def less_Suc_eq numeral_eq_Suc)
  ultimately show "n = days_of_date y m d" "1 \<le> m" "m \<le> 12" "1 \<le> d" "d \<le> month_lengths y ! (m - 1)" "d \<le> 31"
    using yc by (auto simp: days_of_date_def month_lengths_def)
qed

section \<open>Formatting\<close>

text \<open>\<^verbatim>\<open>appendInt\<close>: at least \<open>w\<close> digits, padded with zeros, after a sign when negative.\<close>

definition pad_nat :: "nat \<Rightarrow> nat \<Rightarrow> string" where
  "pad_nat w n = replicate (w - length (nat_dec n)) CHR ''0'' @ nat_dec n"

definition appendInt :: "int \<Rightarrow> nat \<Rightarrow> string" where
  "appendInt x w = (if x < 0 then CHR ''-'' # pad_nat w (nat (- x)) else pad_nat w (nat x))"

definition nanos_per_second :: int where
  "nanos_per_second = 1000000000"

text \<open>The instant as it is presented in the location: date, time of day and nanosecond.\<close>

record civil =
  c_year :: int
  c_month :: nat
  c_day :: int
  c_hour :: int
  c_minute :: int
  c_second :: int
  c_nano :: int

definition civil_of :: "Time \<Rightarrow> civil" where
  "civil_of t =
     (let local = instant t + zone_offset t * nanos_per_second;
          secs = local div nanos_per_second;
          sod = secs mod 86400
      in case date_of_days (secs div 86400) of (y, m, d) \<Rightarrow>
        \<lparr>c_year = y, c_month = m, c_day = d, c_hour = sod div 3600, c_minute = sod mod 3600 div 60,
         c_second = sod mod 60, c_nano = local mod nanos_per_second\<rparr>)"

definition format_seconds :: "civil \<Rightarrow> string" where
  "format_seconds c =
     appendInt (c_year c) 4 @ ''-'' @ pad_nat 2 (c_month c) @ ''-'' @ appendInt (c_day c) 2 @ ''T'' @
     appendInt (c_hour c) 2 @ '':'' @ appendInt (c_minute c) 2 @ '':'' @ appendInt (c_second c) 2"

text \<open>The layout \<^verbatim>\<open>2006-01-02T15:04:05.000000000Z\<close>, used on UTC times: nine digits and a literal Z.\<close>

definition format_canonical :: "Time \<Rightarrow> string" where
  "format_canonical t =
     (let c = civil_of t in format_seconds c @ ''.'' @ appendInt (c_nano c) 9 @ ''Z'')"

text \<open>\<^verbatim>\<open>RFC3339Nano\<close>: the fraction without trailing zeros, or none, and the zone.\<close>

definition strip_zeros :: "string \<Rightarrow> string" where
  "strip_zeros ds = rev (dropWhile (\<lambda>c. c = CHR ''0'') (rev ds))"

definition format_fraction :: "int \<Rightarrow> string" where
  "format_fraction n = (if n = 0 then [] else ''.'' @ strip_zeros (appendInt n 9))"

definition format_zone :: "int \<Rightarrow> string" where
  "format_zone off =
     (if off = 0 then ''Z''
      else let z = \<bar>off\<bar> div 60 in
        (if off \<le> - 60 then ''-'' else ''+'') @ appendInt (z div 60) 2 @ '':'' @ appendInt (z mod 60) 2)"

definition format_rfc3339nano :: "Time \<Rightarrow> string" where
  "format_rfc3339nano t =
     (let c = civil_of t in format_seconds c @ format_fraction (c_nano c) @ format_zone (zone_offset t))"

text \<open>\<^verbatim>\<open>Time.MarshalJSON\<close>: the same text in quotes, an error outside the years 0 to 9999.\<close>

definition marshal_time :: "Time \<Rightarrow> json res" where
  "marshal_time t =
     (if 0 \<le> c_year (civil_of t) \<and> c_year (civil_of t) \<le> 9999 \<and> \<bar>zone_offset t\<bar> < 86400
      then Inr (JStr (format_rfc3339nano t)) else Inl [])"

section \<open>Parsing RFC 3339\<close>

text \<open>
  \<^verbatim>\<open>time.Parse(time.RFC3339Nano, s)\<close>; \<^verbatim>\<open>Time.UnmarshalJSON\<close> accepts the same texts. The hour may have
  one digit, the fraction may follow a comma and only its first nine digits count, the zone offset
  goes up to 24:60.
\<close>

definition getnum :: "bool \<Rightarrow> string \<Rightarrow> (nat \<times> string) option" where
  "getnum fixed s =
     (case s of
        a # t \<Rightarrow>
          if \<not> is_digit a then None
          else (case t of
            b # u \<Rightarrow> if is_digit b then Some (digits_value [a, b], u) else if fixed then None else Some (digits_value [a], t)
          | [] \<Rightarrow> if fixed then None else Some (digits_value [a], t))
      | [] \<Rightarrow> None)"

definition get_year :: "string \<Rightarrow> (nat \<times> string) option" where
  "get_year s =
     (if 4 \<le> length s \<and> list_all is_digit (take 4 s) then Some (digits_value (take 4 s), drop 4 s) else None)"

definition expect :: "char \<Rightarrow> string \<Rightarrow> string option" where
  "expect c s = (case s of x # t \<Rightarrow> if x = c then Some t else None | [] \<Rightarrow> None)"

definition parseNanoseconds :: "string \<Rightarrow> nat" where
  "parseNanoseconds ds = digits_value (take 9 ds) * 10 ^ (9 - length ds)"

definition get_fraction :: "string \<Rightarrow> nat \<times> string" where
  "get_fraction s =
     (case s of
        c # d # t \<Rightarrow>
          if (c = CHR ''.'' \<or> c = CHR '','') \<and> is_digit d
          then (parseNanoseconds (takeWhile is_digit (d # t)), dropWhile is_digit (d # t))
          else (0, s)
      | _ \<Rightarrow> (0, s))"

definition get_zone :: "string \<Rightarrow> (int \<times> string) option" where
  "get_zone s =
     (case s of
        [] \<Rightarrow> None
      | c # t \<Rightarrow>
          if c = CHR ''Z'' then Some (0, t)
          else if length s < 6 \<or> s ! 3 \<noteq> CHR '':'' then None
          else
            (case (getnum True (take 2 t), getnum True (take 2 (drop 3 t))) of
               (Some (hr, _), Some (mm, _)) \<Rightarrow>
                 if 24 < hr \<or> 60 < mm then None
                 else if c = CHR ''+'' then Some (int ((hr * 60 + mm) * 60), drop 6 s)
                 else if c = CHR ''-'' then Some (- int ((hr * 60 + mm) * 60), drop 6 s)
                 else None
             | _ \<Rightarrow> None))"

definition time_Date :: "int \<Rightarrow> nat \<Rightarrow> nat \<Rightarrow> nat \<Rightarrow> nat \<Rightarrow> nat \<Rightarrow> nat \<Rightarrow> int \<Rightarrow> Time" where
  "time_Date y mo d h mi sec ns off =
     \<lparr>instant = ((days_of_date y mo (int d) * 86400 + int h * 3600 + int mi * 60 + int sec) - off) * nanos_per_second + int ns,
      zone_offset = off\<rparr>"

definition parse_rfc3339nano :: "string \<Rightarrow> Time option" where
  "parse_rfc3339nano s =
     Option.bind (get_year s) (\<lambda>(y, s).
     Option.bind (expect CHR ''-'' s) (\<lambda>s.
     Option.bind (getnum True s) (\<lambda>(mo, s).
     if mo = 0 \<or> 12 < mo then None else
     Option.bind (expect CHR ''-'' s) (\<lambda>s.
     Option.bind (getnum True s) (\<lambda>(d, s).
     Option.bind (expect CHR ''T'' s) (\<lambda>s.
     Option.bind (getnum False s) (\<lambda>(h, s).
     if 24 \<le> h then None else
     Option.bind (expect CHR '':'' s) (\<lambda>s.
     Option.bind (getnum True s) (\<lambda>(mi, s).
     if 60 \<le> mi then None else
     Option.bind (expect CHR '':'' s) (\<lambda>s.
     Option.bind (getnum True s) (\<lambda>(sec, s).
     if 60 \<le> sec then None else
     case get_fraction s of (ns, s) \<Rightarrow>
     Option.bind (get_zone s) (\<lambda>(off, s).
       if s \<noteq> [] then None
       else if d < 1 \<or> int d > month_lengths (int y) ! (mo - 1) then None
       else Some (time_Date (int y) mo d h mi sec ns off)))))))))))))"

definition time_Parse :: "string \<Rightarrow> Time res" where
  "time_Parse s = (case parse_rfc3339nano s of Some t \<Rightarrow> Inr t | None \<Rightarrow> Inl [])"

definition unmarshal_time :: "Time decoder" where
  "unmarshal_time j old = (case j of JStr raw \<Rightarrow> time_Parse raw | JNull \<Rightarrow> Inr old | _ \<Rightarrow> Inl [])"

section \<open>Parsing a formatted time\<close>

lemma is_digit_zero [simp]: "is_digit CHR ''0''"
  by (simp add: is_digit_def)

lemma nat_dec_length: "n < 10 ^ w \<Longrightarrow> 0 < w \<Longrightarrow> length (nat_dec n) \<le> w"
proof (induction w arbitrary: n)
  case (Suc w)
  show ?case
  proof (cases "n < 10")
    case True
    then show ?thesis by (subst nat_dec.simps) simp
  next
    case False
    then have w: "0 < w" using Suc.prems by (cases w) auto
    have "n div 10 < 10 ^ w" using Suc.prems(1) by (simp add: less_mult_imp_div_less)
    then have "length (nat_dec (n div 10)) \<le> w" using Suc.IH w by blast
    then show ?thesis using False by (subst nat_dec.simps) simp
  qed
qed simp

lemma digits_value_append:
  "digits_value (xs @ ys) = digits_value xs * 10 ^ length ys + digits_value ys"
proof (induction ys rule: rev_induct)
  case (snoc y ys)
  have "digits_value (xs @ ys @ [y]) = digits_value (xs @ ys) * 10 + (byte y - 48)"
    "digits_value (ys @ [y]) = digits_value ys * 10 + (byte y - 48)"
    by (simp_all add: digits_value_def)
  with snoc show ?case by (simp add: algebra_simps)
qed (simp add: digits_value_def)

lemma digits_value_zeros [simp]: "digits_value (replicate k CHR ''0'') = 0"
  by (induction k) (simp_all add: digits_value_def)

lemma pad_nat_digits:
  assumes "n < 10 ^ w" "0 < w"
  shows "length (pad_nat w n) = w" "list_all is_digit (pad_nat w n)" "digits_value (pad_nat w n) = n"
  using assms nat_dec_length [OF assms] nat_dec_digits
  by (auto simp: pad_nat_def list_all_iff digits_value_append digits_value_nat_dec)

lemma getnum_pad [simp]: "n < 100 \<Longrightarrow> getnum fixed (pad_nat 2 n @ rest) = Some (n, rest)"
proof -
  assume "n < 100"
  then have p: "length (pad_nat 2 n) = 2" "list_all is_digit (pad_nat 2 n)" "digits_value (pad_nat 2 n) = n"
    using pad_nat_digits [of n 2] by simp_all
  then obtain a b where "pad_nat 2 n = [a, b]" by (auto simp: length_Suc_conv numeral_2_eq_2)
  with p show ?thesis by (simp add: getnum_def)
qed

lemma get_year_pad [simp]: "n < 10000 \<Longrightarrow> get_year (pad_nat 4 n @ rest) = Some (n, rest)"
  using pad_nat_digits [of n 4] by (simp add: get_year_def)

lemma expect_Cons [simp]: "expect c (c # t) = Some t"
  by (simp add: expect_def)

lemma takeWhile_digits_stop:
  assumes "list_all is_digit ds" "\<not> is_digit c"
  shows "takeWhile is_digit (ds @ c # t) = ds" "dropWhile is_digit (ds @ c # t) = c # t"
  using assms by (induction ds) auto

lemma get_fraction_digits:
  assumes "list_all is_digit ds" "ds \<noteq> []"
  shows "get_fraction (CHR ''.'' # ds @ CHR ''Z'' # t) = (parseNanoseconds ds, CHR ''Z'' # t)"
proof -
  obtain d us where ds: "ds = d # us" using assms(2) by (cases ds) auto
  moreover have "\<not> is_digit CHR ''Z''" by (simp add: is_digit_def)
  ultimately show ?thesis
    using takeWhile_digits_stop [OF assms(1), of "CHR ''Z''" t] assms(1) by (simp add: get_fraction_def)
qed

lemma strip_zeros_split: "ds = strip_zeros ds @ replicate (length ds - length (strip_zeros ds)) CHR ''0''"
proof -
  let ?P = "\<lambda>c. c = CHR ''0''"
  have "rev ds = takeWhile ?P (rev ds) @ dropWhile ?P (rev ds)" by simp
  then have "ds = strip_zeros ds @ rev (takeWhile ?P (rev ds))"
    by (metis rev_append rev_rev_ident strip_zeros_def)
  moreover have "takeWhile ?P xs = replicate (length (takeWhile ?P xs)) CHR ''0''" for xs
    by (induction xs) auto
  then have "rev (takeWhile ?P (rev ds)) = replicate (length (takeWhile ?P (rev ds))) CHR ''0''"
    by (metis rev_replicate)
  ultimately show ?thesis by (metis add_diff_cancel_left' length_append length_replicate)
qed

lemma parseNanoseconds_strip:
  assumes "length ds = 9"
  shows "parseNanoseconds (strip_zeros ds) = digits_value ds"
proof -
  define k where "k = length ds - length (strip_zeros ds)"
  have split: "ds = strip_zeros ds @ replicate k CHR ''0''" unfolding k_def by (rule strip_zeros_split)
  have len: "length (strip_zeros ds) + k = 9" using arg_cong [OF split, of length] assms by simp
  have "digits_value ds = digits_value (strip_zeros ds) * 10 ^ k"
    by (subst split) (simp add: digits_value_append)
  moreover have "9 - length (strip_zeros ds) = k" "length (strip_zeros ds) \<le> 9" using len by simp_all
  ultimately show ?thesis by (simp add: parseNanoseconds_def)
qed

lemma get_fraction_format:
  assumes "0 \<le> n" "n < 1000000000"
  shows "get_fraction (CHR ''.'' # appendInt n 9 @ CHR ''Z'' # t) = (nat n, CHR ''Z'' # t)"
    and "get_fraction (format_fraction n @ CHR ''Z'' # t) = (nat n, CHR ''Z'' # t)"
proof -
  let ?ds = "pad_nat 9 (nat n)"
  have ds: "length ?ds = 9" "list_all is_digit ?ds" "digits_value ?ds = nat n"
    using pad_nat_digits [of "nat n" 9] assms by simp_all
  then show "get_fraction (CHR ''.'' # appendInt n 9 @ CHR ''Z'' # t) = (nat n, CHR ''Z'' # t)"
    using get_fraction_digits [of ?ds t] assms by (fastforce simp: appendInt_def parseNanoseconds_def)
  show "get_fraction (format_fraction n @ CHR ''Z'' # t) = (nat n, CHR ''Z'' # t)"
  proof (cases "n = 0")
    case True
    then show ?thesis by (simp add: format_fraction_def get_fraction_def split: list.split)
  next
    case False
    have "strip_zeros ?ds \<noteq> []"
    proof
      assume "strip_zeros ?ds = []"
      then have "digits_value ?ds = 0" using strip_zeros_split [of ?ds] by (metis digits_value_zeros append_Nil)
      with ds(3) False assms show False by simp
    qed
    moreover have "list_all is_digit (strip_zeros ?ds)"
      using ds(2) by (auto simp: strip_zeros_def list_all_iff dest: set_dropWhileD)
    ultimately show ?thesis
      using get_fraction_digits [of "strip_zeros ?ds" t] parseNanoseconds_strip [OF ds(1)] ds(3) False assms
      by (simp add: format_fraction_def appendInt_def)
  qed
qed

lemma get_zone_Z [simp]: "get_zone (CHR ''Z'' # t) = Some (0, t)"
  by (simp add: get_zone_def)

text \<open>The times of the years 0 to 9999, presented in UTC.\<close>

definition rfc3339_time :: "Time \<Rightarrow> bool" where
  "rfc3339_time t \<longleftrightarrow> utc_time t \<and> 0 \<le> c_year (civil_of t) \<and> c_year (civil_of t) \<le> 9999"

lemma zero_time_range: "rfc3339_time zero_time"
  by code_simp

lemma civil_of_correct:
  fixes t
  assumes "utc_time t"
  defines "c \<equiv> civil_of t"
  shows "instant t = ((days_of_date (c_year c) (c_month c) (c_day c) * 86400 + c_hour c * 3600 + c_minute c * 60 + c_second c)
      * nanos_per_second + c_nano c)"
    and "1 \<le> c_month c" "c_month c \<le> 12" "1 \<le> c_day c" "c_day c \<le> 31"
    and "c_day c \<le> month_lengths (c_year c) ! (c_month c - 1)"
    and "0 \<le> c_hour c" "c_hour c < 24" "0 \<le> c_minute c" "c_minute c < 60" "0 \<le> c_second c" "c_second c < 60"
    and "0 \<le> c_nano c" "c_nano c < 1000000000"
proof -
  define secs where "secs = instant t div nanos_per_second"
  define sod where "sod = secs mod 86400"
  obtain y m d where date: "date_of_days (secs div 86400) = (y, m, d)" by (metis prod_cases3)
  have c: "c = \<lparr>c_year = y, c_month = m, c_day = d, c_hour = sod div 3600, c_minute = sod mod 3600 div 60,
      c_second = sod mod 60, c_nano = instant t mod nanos_per_second\<rparr>"
    using assms date by (simp add: civil_of_def Let_def utc_time_def secs_def [symmetric] sod_def [symmetric])
  have sod: "0 \<le> sod" "sod < 86400" by (simp_all add: sod_def)
  have "x div 60 < 60" if "x < 3600" for x :: int using that by linarith
  then have "sod mod 3600 div 60 < 60" by simp
  moreover have "0 \<le> sod div 3600" "sod div 3600 < 24" using sod by linarith+
  ultimately have hms: "0 \<le> sod div 3600" "sod div 3600 < 24" "sod mod 3600 div 60 < 60"
    "0 \<le> sod mod 3600 div 60" by (simp_all add: pos_imp_zdiv_nonneg_iff)
  have "sod = sod div 3600 * 3600 + sod mod 3600 div 60 * 60 + sod mod 60"
  proof -
    have "sod mod 3600 mod 60 = sod mod 60" by (rule mod_mod_cancel) simp
    then have "sod mod 3600 = sod mod 3600 div 60 * 60 + sod mod 60" by (metis div_mult_mod_eq)
    then show ?thesis by (metis add.assoc div_mult_mod_eq)
  qed
  moreover have "secs = secs div 86400 * 86400 + sod" unfolding sod_def by simp
  ultimately have hms_secs: "days_of_date y m d * 86400 + sod div 3600 * 3600 + sod mod 3600 div 60 * 60 + sod mod 60 = secs"
    using date_of_days_correct(1) [OF date] by linarith
  have "secs * nanos_per_second + instant t mod nanos_per_second = instant t"
    unfolding secs_def by simp
  then show "instant t = ((days_of_date (c_year c) (c_month c) (c_day c) * 86400 + c_hour c * 3600 + c_minute c * 60 + c_second c)
      * nanos_per_second + c_nano c)"
    by (simp add: c hms_secs)
  show "1 \<le> c_month c" "c_month c \<le> 12" "1 \<le> c_day c" "c_day c \<le> 31"
    "c_day c \<le> month_lengths (c_year c) ! (c_month c - 1)"
    using date_of_days_correct [OF date] by (simp_all add: c)
  show "0 \<le> c_hour c" "c_hour c < 24" "0 \<le> c_minute c" "c_minute c < 60" "0 \<le> c_second c" "c_second c < 60"
    "0 \<le> c_nano c" "c_nano c < 1000000000"
    using hms by (simp_all add: c nanos_per_second_def)
qed

lemma parse_format_seconds:
  assumes "rfc3339_time t" "get_fraction (frac @ ''Z'') = (nat (c_nano (civil_of t)), ''Z'')"
  shows "parse_rfc3339nano (format_seconds (civil_of t) @ frac @ ''Z'') = Some t"
proof -
  define c where "c = civil_of t"
  have utc: "utc_time t" and year: "0 \<le> c_year c" "c_year c \<le> 9999"
    using assms(1) by (auto simp: rfc3339_time_def c_def)
  note civil = civil_of_correct [OF utc, folded c_def]
  have t: "t = time_Date (c_year c) (c_month c) (nat (c_day c)) (nat (c_hour c)) (nat (c_minute c)) (nat (c_second c))
      (nat (c_nano c)) 0"
    using civil utc by (cases t) (simp add: time_Date_def utc_time_def)
  have "parse_rfc3339nano (format_seconds c @ frac @ ''Z'') =
      Some (time_Date (c_year c) (c_month c) (nat (c_day c)) (nat (c_hour c)) (nat (c_minute c)) (nat (c_second c))
      (nat (c_nano c)) 0)"
    using civil(2-) year assms(2) [folded c_def]
    by (simp add: parse_rfc3339nano_def format_seconds_def appendInt_def) linarith
  with t show ?thesis by (simp add: c_def)
qed

theorem parse_format_rfc3339nano:
  "rfc3339_time t \<Longrightarrow> parse_rfc3339nano (format_rfc3339nano t) = Some t"
  using parse_format_seconds [of t "format_fraction (c_nano (civil_of t))"] civil_of_correct [of t]
    get_fraction_format(2) [of "c_nano (civil_of t)" "[]"]
  by (simp add: format_rfc3339nano_def Let_def rfc3339_time_def utc_time_def format_zone_def)

theorem parse_format_canonical:
  "rfc3339_time t \<Longrightarrow> parse_rfc3339nano (format_canonical t) = Some t"
  using parse_format_seconds [of t "CHR ''.'' # appendInt (c_nano (civil_of t)) 9"] civil_of_correct [of t]
    get_fraction_format(1) [of "c_nano (civil_of t)" "[]"]
  by (simp add: format_canonical_def Let_def rfc3339_time_def)

end
