(* ===== verification/DomainAction.thy ===== *)
theory DomainAction
  imports DomainValues GoTime
begin

text \<open>
  The proposed action of \<^verbatim>\<open>internal/domain\<close>: digests, payload facts, the three kinds of action
  parameters, authorization evidence and \<^verbatim>\<open>ProposedAction\<close> itself, with the normal form every
  constructor establishes and the fact that rebuilding a normal value changes nothing.
\<close>

section \<open>Action types, digests and actors (proposed\_action.go)\<close>

type_synonym ActionType = string

definition ActionExternalSend :: ActionType where "ActionExternalSend = ''EXTERNAL_SEND''"
definition ActionUpdateResourceAccess :: ActionType where
  "ActionUpdateResourceAccess = ''UPDATE_RESOURCE_ACCESS''"
definition ActionDelete :: ActionType where "ActionDelete = ''DELETE''"

lemmas action_type_defs = ActionExternalSend_def ActionUpdateResourceAccess_def ActionDelete_def

definition ActionType_Valid :: "ActionType \<Rightarrow> bool" where
  "ActionType_Valid typ \<longleftrightarrow>
     typ = ActionExternalSend \<or> typ = ActionUpdateResourceAccess \<or> typ = ActionDelete"

definition ParseActionType :: "string \<Rightarrow> ActionType res" where
  "ParseActionType value = (if \<not> ActionType_Valid value then Inl [Domain ErrInvalidActionType] else Inr value)"

definition digest_prefix :: string where
  "digest_prefix = ''sha256:''"

definition lower_hex_rune :: "nat \<Rightarrow> bool" where
  "lower_hex_rune r \<longleftrightarrow> \<not> ((r < 0x61 \<or> 0x66 < r) \<and> (r < 0x30 \<or> 0x39 < r))"

definition validateSHA256Digest :: "string \<Rightarrow> unit res" where
  "validateSHA256Digest value =
     (if length value \<noteq> 71 \<or> \<not> prefix digest_prefix value then Inl [Domain ErrInvalidDigest]
      else guard_res (list_all lower_hex_rune (runes (drop 7 value))) [Domain ErrInvalidDigest])"

definition ParseActionDigest :: "string \<Rightarrow> string res" where
  "ParseActionDigest value = res_bind (validateSHA256Digest value) (\<lambda>_. Inr value)"

definition ActionDigest_Valid :: "string \<Rightarrow> bool" where
  "ActionDigest_Valid digest = is_ok (ParseActionDigest digest)"

definition ParsePayloadDigest :: "string \<Rightarrow> string res" where
  "ParsePayloadDigest value = res_bind (validateSHA256Digest value) (\<lambda>_. Inr value)"

definition PayloadDigest_Valid :: "string \<Rightarrow> bool" where
  "PayloadDigest_Valid digest = is_ok (ParsePayloadDigest digest)"

lemma ParsePayloadDigest_Inr_iff: "ParsePayloadDigest v = Inr d \<longleftrightarrow> d = v \<and> PayloadDigest_Valid v"
  by (auto simp: PayloadDigest_Valid_def ParsePayloadDigest_def res_simps is_ok_iff)

lemma ParseActionDigest_Inr_iff: "ParseActionDigest v = Inr d \<longleftrightarrow> d = v \<and> ActionDigest_Valid v"
  by (auto simp: ActionDigest_Valid_def ParseActionDigest_def res_simps is_ok_iff)

record Actor =
  agentID :: string
  runtimeID :: string
  sessionID :: string

definition NewActor :: "string \<Rightarrow> string \<Rightarrow> string \<Rightarrow> Actor res" where
  "NewActor agent runtime session =
     res_bind (normalizeRequiredIdentifier agent) (\<lambda>agent'.
     res_bind (normalizeRequiredIdentifier runtime) (\<lambda>runtime'.
     res_bind (normalizeOptionalIdentifier session) (\<lambda>session'.
       Inr \<lparr>agentID = agent', runtimeID = runtime', sessionID = session'\<rparr>)))"

definition Actor_valid :: "Actor \<Rightarrow> bool" where
  "Actor_valid actor \<longleftrightarrow> TrimSpace (agentID actor) \<noteq> [] \<and> TrimSpace (runtimeID actor) \<noteq> []"

definition wf_actor :: "Actor \<Rightarrow> bool" where
  "wf_actor a \<longleftrightarrow> wf_identifier (agentID a) \<and> wf_identifier (runtimeID a) \<and>
     trimmed (sessionID a) \<and> length (sessionID a) \<le> 256"

lemma NewActor_Inr_iff:
  "NewActor ag rt se = Inr a \<longleftrightarrow>
     a = \<lparr>agentID = TrimSpace ag, runtimeID = TrimSpace rt, sessionID = TrimSpace se\<rparr> \<and> wf_actor a"
  by (auto simp: NewActor_def res_simps normalizeRequiredIdentifier_Inr_iff
      normalizeOptionalIdentifier_Inr_iff wf_actor_def)

lemma NewActor_rebuild: "wf_actor a \<Longrightarrow> NewActor (agentID a) (runtimeID a) (sessionID a) = Inr a"
  by (simp add: NewActor_Inr_iff) (simp add: wf_actor_def TrimSpace_id)

lemma Actor_valid_wf: "wf_actor a \<Longrightarrow> Actor_valid a"
  by (simp add: wf_actor_def Actor_valid_def)

section \<open>Normalised slices (action\_parameters.go)\<close>

definition normalizeStrings :: "string list \<Rightarrow> nat \<Rightarrow> nat \<Rightarrow> string list res" where
  "normalizeStrings values maximumItems maximumLength =
     (if maximumItems < length values then Inl [Domain ErrInvalidArgument]
      else res_bind
        (res_mapM (\<lambda>value0. let value = TrimSpace value0 in
            if value = [] \<or> maximumLength < length value then Inl [Domain ErrInvalidArgument]
            else Inr value) values)
        (\<lambda>trimmed_values. Inr (sorted_set trimmed_values)))"

definition wf_strings :: "nat \<Rightarrow> nat \<Rightarrow> string list \<Rightarrow> bool" where
  "wf_strings maxItems maxLength xs \<longleftrightarrow>
     sorted xs \<and> distinct xs \<and> length xs \<le> maxItems \<and>
     (\<forall>x \<in> set xs. trimmed x \<and> x \<noteq> [] \<and> length x \<le> maxLength)"

lemma normalizeStrings_Inr_iff:
  "normalizeStrings vs mi ml = Inr r \<longleftrightarrow>
     length vs \<le> mi \<and> (\<forall>v \<in> set vs. TrimSpace v \<noteq> [] \<and> length (TrimSpace v) \<le> ml) \<and>
     r = sorted_set (map TrimSpace vs)"
proof -
  let ?f = "\<lambda>value0. let value = TrimSpace value0 in
            if value = [] \<or> ml < length value then Inl [Domain ErrInvalidArgument] else Inr value"
  have "res_mapM ?f vs = Inr ts \<longleftrightarrow>
      (\<forall>v \<in> set vs. TrimSpace v \<noteq> [] \<and> length (TrimSpace v) \<le> ml) \<and> ts = map TrimSpace vs" for ts
    by (induction vs arbitrary: ts) (auto simp: res_simps Let_def)
  then show ?thesis by (auto simp: normalizeStrings_def res_simps)
qed

lemma wf_strings_normalizeStrings: "normalizeStrings vs mi ml = Inr r \<Longrightarrow> wf_strings mi ml r"
  using length_sorted_set [of "map TrimSpace vs"]
  by (auto simp: normalizeStrings_Inr_iff wf_strings_def)

lemma normalizeStrings_rebuild: "wf_strings mi ml xs \<Longrightarrow> normalizeStrings xs mi ml = Inr xs"
proof -
  assume wf: "wf_strings mi ml xs"
  have "map TrimSpace xs = xs" using wf by (auto simp: wf_strings_def TrimSpace_id intro: map_idI)
  then show ?thesis using wf by (auto simp: normalizeStrings_Inr_iff wf_strings_def TrimSpace_id sorted_set_id)
qed

definition principal_key :: "Principal \<Rightarrow> string" where
  "principal_key p = principal_typ p @ CHR 0x00 # principal_id p"

definition normalizePrincipals :: "Principal list \<Rightarrow> Principal list res" where
  "normalizePrincipals values =
     (if 100 < length values then Inl [Domain ErrInvalidArgument]
      else if \<not> list_all Principal_valid values then Inl [Domain ErrInvalidArgument]
      else Inr (unique_by_key principal_key values))"

lemma principal_key_inj: "inj_on principal_key {p. PrincipalType_Valid (principal_typ p)}"
  by (rule inj_onI)
    (auto simp: principal_key_def PrincipalType_Valid_def PrincipalUser_def PrincipalAgent_def
      PrincipalRuntime_def PrincipalService_def)

lemma principal_key_inj_valid: "list_all Principal_valid ps \<Longrightarrow> inj_on principal_key (set ps)"
  by (rule inj_on_subset [OF principal_key_inj]) (auto simp: list_all_iff Principal_valid_def)

definition wf_principals :: "Principal list \<Rightarrow> bool" where
  "wf_principals ps \<longleftrightarrow> length ps \<le> 100 \<and> list_all wf_principal ps \<and> unique_by_key principal_key ps = ps"

lemma normalizePrincipals_rebuild: "wf_principals ps \<Longrightarrow> normalizePrincipals ps = Inr ps"
  by (auto simp: wf_principals_def normalizePrincipals_def list_all_iff Principal_valid_wf)

lemma wf_principals_normalizePrincipals:
  assumes "normalizePrincipals ps = Inr qs" "list_all wf_principal ps"
  shows "wf_principals qs \<and> set qs = set ps"
proof -
  have v: "list_all Principal_valid ps" "length ps \<le> 100" "qs = unique_by_key principal_key ps"
    using assms by (auto simp: normalizePrincipals_def split: if_splits)
  note inj = principal_key_inj_valid [OF v(1)]
  show ?thesis using v assms(2) length_unique_by_key [of principal_key ps]
    by (auto simp: wf_principals_def list_all_iff set_unique_by_key [OF inj] unique_by_key_idem [OF inj])
qed

section \<open>Action parameters (action\_parameters.go)\<close>

type_synonym DestinationScope = string
type_synonym AccessScope = string
type_synonym DeleteMode = string

definition DestinationInternal :: DestinationScope where "DestinationInternal = ''INTERNAL''"
definition DestinationExternal :: DestinationScope where "DestinationExternal = ''EXTERNAL''"
definition AccessPrivate :: AccessScope where "AccessPrivate = ''PRIVATE''"
definition AccessShared :: AccessScope where "AccessShared = ''SHARED''"
definition AccessWorkspace :: AccessScope where "AccessWorkspace = ''WORKSPACE''"
definition AccessPublic :: AccessScope where "AccessPublic = ''PUBLIC''"
definition DeleteSoft :: DeleteMode where "DeleteSoft = ''SOFT''"
definition DeleteHard :: DeleteMode where "DeleteHard = ''HARD''"

lemmas scope_defs =
  DestinationInternal_def DestinationExternal_def AccessPrivate_def AccessShared_def
  AccessWorkspace_def AccessPublic_def DeleteSoft_def DeleteHard_def

definition ParseDestinationScope :: "string \<Rightarrow> DestinationScope res" where
  "ParseDestinationScope value =
     (let scope = upper_trim value in
      if scope \<noteq> DestinationInternal \<and> scope \<noteq> DestinationExternal then Inl [Domain ErrInvalidArgument]
      else Inr scope)"

definition ParseAccessScope :: "string \<Rightarrow> AccessScope res" where
  "ParseAccessScope value0 =
     (let value = upper_trim value0 in
      if value = [] \<or> 128 < length value then Inl [Domain ErrInvalidArgument] else Inr value)"

definition ParseDeleteMode :: "string \<Rightarrow> DeleteMode res" where
  "ParseDeleteMode value =
     (let mode = upper_trim value in
      if mode \<noteq> DeleteSoft \<and> mode \<noteq> DeleteHard then Inl [Domain ErrInvalidArgument] else Inr mode)"

record ExternalSendParameters =
  send_destinationScope :: DestinationScope
  send_recipients :: "string list"

record UpdateResourceAccessParameters =
  access_currentScope :: AccessScope
  access_requestedScope :: AccessScope
  access_targetPrincipals :: "Principal list"

record DeleteParameters =
  delete_mode :: DeleteMode
  delete_recoverable :: bool

definition NewExternalSendParameters ::
    "DestinationScope \<Rightarrow> string list \<Rightarrow> ExternalSendParameters res" where
  "NewExternalSendParameters scope recipients =
     res_bind (ParseDestinationScope scope) (\<lambda>normalizedScope.
       case normalizeStrings recipients 100 320 of
         Inl _ \<Rightarrow> Inl [Domain ErrInvalidArgument]
       | Inr normalized \<Rightarrow>
           if normalized = [] then Inl [Domain ErrInvalidArgument]
           else Inr \<lparr>send_destinationScope = normalizedScope, send_recipients = normalized\<rparr>)"

definition NewUpdateResourceAccessParameters ::
    "AccessScope \<Rightarrow> AccessScope \<Rightarrow> Principal list \<Rightarrow> UpdateResourceAccessParameters res" where
  "NewUpdateResourceAccessParameters currentScope requestedScope targetPrincipals =
     res_bind (ParseAccessScope currentScope) (\<lambda>normalizedCurrent.
     res_bind (ParseAccessScope requestedScope) (\<lambda>normalizedRequested.
       if normalizedCurrent = normalizedRequested then Inl [Domain ErrInvalidArgument]
       else res_bind (normalizePrincipals targetPrincipals) (\<lambda>principals.
         if normalizedRequested = AccessShared \<and> principals = [] then Inl [Domain ErrInvalidArgument]
         else Inr \<lparr>access_currentScope = normalizedCurrent, access_requestedScope = normalizedRequested,
                   access_targetPrincipals = principals\<rparr>)))"

definition NewDeleteParameters :: "DeleteMode \<Rightarrow> bool \<Rightarrow> DeleteParameters res" where
  "NewDeleteParameters mode recoverable =
     res_bind (ParseDeleteMode mode) (\<lambda>normalizedMode.
       Inr \<lparr>delete_mode = normalizedMode, delete_recoverable = recoverable\<rparr>)"

text \<open>
  The interface \<^verbatim>\<open>ActionParameters\<close> is closed by its unexported methods; a nil interface value is
  \<open>None\<close> of \<open>ActionParameters option\<close>. \<^verbatim>\<open>clone\<close> copies the slices and returns an equal value.
\<close>

datatype ActionParameters =
    ExternalSend ExternalSendParameters
  | UpdateResourceAccess UpdateResourceAccessParameters
  | Delete DeleteParameters

fun ActionParameters_ActionType :: "ActionParameters \<Rightarrow> ActionType" where
  "ActionParameters_ActionType (ExternalSend _) = ActionExternalSend"
| "ActionParameters_ActionType (UpdateResourceAccess _) = ActionUpdateResourceAccess"
| "ActionParameters_ActionType (Delete _) = ActionDelete"

definition ExternalSendParameters_validate :: "ExternalSendParameters \<Rightarrow> unit res" where
  [simp]: "ExternalSendParameters_validate p =
     res_bind (NewExternalSendParameters (send_destinationScope p) (send_recipients p)) (\<lambda>_. Inr ())"

definition UpdateResourceAccessParameters_validate :: "UpdateResourceAccessParameters \<Rightarrow> unit res" where
  [simp]: "UpdateResourceAccessParameters_validate p =
     res_bind (NewUpdateResourceAccessParameters (access_currentScope p) (access_requestedScope p)
                 (access_targetPrincipals p)) (\<lambda>_. Inr ())"

definition DeleteParameters_validate :: "DeleteParameters \<Rightarrow> unit res" where
  [simp]: "DeleteParameters_validate p =
     res_bind (NewDeleteParameters (delete_mode p) (delete_recoverable p)) (\<lambda>_. Inr ())"

text \<open>The call of \<^verbatim>\<open>validate\<close> through the interface.\<close>

fun ActionParameters_validate :: "ActionParameters \<Rightarrow> unit res" where
  "ActionParameters_validate (ExternalSend p) = ExternalSendParameters_validate p"
| "ActionParameters_validate (UpdateResourceAccess p) = UpdateResourceAccessParameters_validate p"
| "ActionParameters_validate (Delete p) = DeleteParameters_validate p"

text \<open>Normal forms of the parameters.\<close>

definition wf_destination_scope :: "DestinationScope \<Rightarrow> bool" where
  "wf_destination_scope s \<longleftrightarrow> s = DestinationInternal \<or> s = DestinationExternal"

definition wf_access_scope :: "AccessScope \<Rightarrow> bool" where
  "wf_access_scope s \<longleftrightarrow> upper_trim s = s \<and> s \<noteq> [] \<and> length s \<le> 128"

definition wf_delete_mode :: "DeleteMode \<Rightarrow> bool" where
  "wf_delete_mode m \<longleftrightarrow> m = DeleteSoft \<or> m = DeleteHard"

fun wf_parameters :: "ActionParameters \<Rightarrow> bool" where
  "wf_parameters (ExternalSend p) \<longleftrightarrow>
     wf_destination_scope (send_destinationScope p) \<and> wf_strings 100 320 (send_recipients p) \<and>
     send_recipients p \<noteq> []"
| "wf_parameters (UpdateResourceAccess p) \<longleftrightarrow>
     wf_access_scope (access_currentScope p) \<and> wf_access_scope (access_requestedScope p) \<and>
     access_currentScope p \<noteq> access_requestedScope p \<and> wf_principals (access_targetPrincipals p) \<and>
     (access_requestedScope p = AccessShared \<longrightarrow> access_targetPrincipals p \<noteq> [])"
| "wf_parameters (Delete p) \<longleftrightarrow> wf_delete_mode (delete_mode p)"

lemma upper_trim_ascii_consts [simp]:
  "upper_trim ''INTERNAL'' = ''INTERNAL''" "upper_trim ''EXTERNAL'' = ''EXTERNAL''"
  "upper_trim ''SOFT'' = ''SOFT''" "upper_trim ''HARD'' = ''HARD''"
  by (simp_all add: upper_trim_def TrimSpace_ascii ToUpper_def ascii_ToUpper_def)

lemma ParseDestinationScope_Inr_iff:
  "ParseDestinationScope v = Inr s \<longleftrightarrow> s = upper_trim v \<and> wf_destination_scope s"
  by (auto simp: ParseDestinationScope_def wf_destination_scope_def Let_def)

lemma ParseAccessScope_Inr_iff: "ParseAccessScope v = Inr s \<longleftrightarrow> s = upper_trim v \<and> wf_access_scope s"
  by (auto simp: ParseAccessScope_def wf_access_scope_def Let_def)

lemma ParseDeleteMode_Inr_iff: "ParseDeleteMode v = Inr s \<longleftrightarrow> s = upper_trim v \<and> wf_delete_mode s"
  by (auto simp: ParseDeleteMode_def wf_delete_mode_def Let_def)

lemma wf_scope_fixed [simp]:
  "wf_destination_scope s \<Longrightarrow> upper_trim s = s"
  "wf_delete_mode s \<Longrightarrow> upper_trim s = s"
  "wf_access_scope s \<Longrightarrow> upper_trim s = s"
  by (auto simp: wf_destination_scope_def wf_delete_mode_def wf_access_scope_def scope_defs)

lemma NewExternalSendParameters_Inr_iff:
  "NewExternalSendParameters sc rs = Inr p \<longleftrightarrow>
     ParseDestinationScope sc = Inr (send_destinationScope p) \<and>
     normalizeStrings rs 100 320 = Inr (send_recipients p) \<and> send_recipients p \<noteq> []"
  by (cases p; cases "normalizeStrings rs 100 320") (auto simp: NewExternalSendParameters_def res_simps)

lemma NewUpdateResourceAccessParameters_Inr_iff:
  "NewUpdateResourceAccessParameters cs rs ps = Inr p \<longleftrightarrow>
     ParseAccessScope cs = Inr (access_currentScope p) \<and>
     ParseAccessScope rs = Inr (access_requestedScope p) \<and>
     access_currentScope p \<noteq> access_requestedScope p \<and>
     normalizePrincipals ps = Inr (access_targetPrincipals p) \<and>
     (access_requestedScope p = AccessShared \<longrightarrow> access_targetPrincipals p \<noteq> [])"
  by (cases p) (auto simp: NewUpdateResourceAccessParameters_def res_simps split: if_splits)

lemma NewDeleteParameters_Inr_iff:
  "NewDeleteParameters m r = Inr p \<longleftrightarrow> ParseDeleteMode m = Inr (delete_mode p) \<and> delete_recoverable p = r"
  by (cases p) (auto simp: NewDeleteParameters_def res_simps)

lemmas new_parameters_iffs =
  NewExternalSendParameters_Inr_iff NewUpdateResourceAccessParameters_Inr_iff NewDeleteParameters_Inr_iff
  ParseDestinationScope_Inr_iff ParseAccessScope_Inr_iff ParseDeleteMode_Inr_iff

lemma wf_NewExternalSendParameters:
  "NewExternalSendParameters sc rs = Inr p \<Longrightarrow> wf_parameters (ExternalSend p)"
  by (auto simp: new_parameters_iffs dest: wf_strings_normalizeStrings)

lemma wf_NewUpdateResourceAccessParameters:
  "NewUpdateResourceAccessParameters cs rs ps = Inr p \<Longrightarrow> list_all wf_principal ps \<Longrightarrow>
     wf_parameters (UpdateResourceAccess p)"
  by (auto simp: new_parameters_iffs dest: wf_principals_normalizePrincipals)

lemma wf_NewDeleteParameters: "NewDeleteParameters m r = Inr p \<Longrightarrow> wf_parameters (Delete p)"
  by (auto simp: new_parameters_iffs)

lemma parameters_rebuild:
  "wf_parameters (ExternalSend ps) \<Longrightarrow>
     NewExternalSendParameters (send_destinationScope ps) (send_recipients ps) = Inr ps"
  "wf_parameters (UpdateResourceAccess pu) \<Longrightarrow>
     NewUpdateResourceAccessParameters (access_currentScope pu) (access_requestedScope pu)
       (access_targetPrincipals pu) = Inr pu"
  "wf_parameters (Delete pd) \<Longrightarrow> NewDeleteParameters (delete_mode pd) (delete_recoverable pd) = Inr pd"
  by (auto simp: new_parameters_iffs normalizeStrings_rebuild normalizePrincipals_rebuild)

lemma wf_parameters_validate: "wf_parameters p \<Longrightarrow> ActionParameters_validate p = Inr ()"
  by (cases p) (simp_all add: parameters_rebuild del: wf_parameters.simps)

section \<open>Payload facts (payload\_facts.go)\<close>

record PayloadFacts =
  payload_digest :: string
  payload_classification :: "string list"
  payload_sizeBytes :: "64 word option"

definition NewPayloadFacts :: "string \<Rightarrow> string list \<Rightarrow> 64 word option \<Rightarrow> PayloadFacts res" where
  "NewPayloadFacts digest classification sizeBytes =
     (if \<not> PayloadDigest_Valid digest then Inl [Domain ErrInvalidDigest]
      else case normalizeStrings classification 32 128 of
        Inl _ \<Rightarrow> Inl [Domain ErrInvalidArgument]
      | Inr labels \<Rightarrow>
          if (case sizeBytes of Some n \<Rightarrow> sint n < 0 | None \<Rightarrow> False) then Inl [Domain ErrInvalidArgument]
          else Inr \<lparr>payload_digest = digest, payload_classification = labels, payload_sizeBytes = sizeBytes\<rparr>)"

definition PayloadFacts_valid :: "PayloadFacts \<Rightarrow> bool" where
  "PayloadFacts_valid p =
     is_ok (NewPayloadFacts (payload_digest p) (payload_classification p) (payload_sizeBytes p))"

definition wf_payload :: "PayloadFacts \<Rightarrow> bool" where
  "wf_payload p \<longleftrightarrow> PayloadDigest_Valid (payload_digest p) \<and> wf_strings 32 128 (payload_classification p) \<and>
     (\<forall>n. payload_sizeBytes p = Some n \<longrightarrow> 0 \<le> sint n)"

lemma NewPayloadFacts_Inr_iff:
  "NewPayloadFacts d cs n = Inr p \<longleftrightarrow>
     payload_digest p = d \<and> PayloadDigest_Valid d \<and>
     normalizeStrings cs 32 128 = Inr (payload_classification p) \<and>
     payload_sizeBytes p = n \<and> (\<forall>k. n = Some k \<longrightarrow> 0 \<le> sint k)"
  by (cases p; cases "normalizeStrings cs 32 128") (auto simp: NewPayloadFacts_def split: option.splits)

lemma wf_NewPayloadFacts: "NewPayloadFacts d cs n = Inr p \<Longrightarrow> wf_payload p"
  by (auto simp: NewPayloadFacts_Inr_iff wf_payload_def dest: wf_strings_normalizeStrings)

lemma NewPayloadFacts_rebuild:
  "wf_payload p \<Longrightarrow> NewPayloadFacts (payload_digest p) (payload_classification p) (payload_sizeBytes p) = Inr p"
  by (simp add: NewPayloadFacts_Inr_iff wf_payload_def normalizeStrings_rebuild)

lemma PayloadFacts_valid_wf: "wf_payload p \<Longrightarrow> PayloadFacts_valid p"
  by (simp add: PayloadFacts_valid_def NewPayloadFacts_rebuild)

section \<open>Authorization evidence (authorization\_evidence.go)\<close>

type_synonym AuthorizationEvidenceType = string

definition EvidenceUserInstruction :: AuthorizationEvidenceType where
  "EvidenceUserInstruction = ''USER_INSTRUCTION''"
definition EvidenceDelegationGrant :: AuthorizationEvidenceType where
  "EvidenceDelegationGrant = ''DELEGATION_GRANT''"
definition EvidenceSystemAssertion :: AuthorizationEvidenceType where
  "EvidenceSystemAssertion = ''SYSTEM_ASSERTION''"

definition wf_evidence_type :: "AuthorizationEvidenceType \<Rightarrow> bool" where
  "wf_evidence_type t \<longleftrightarrow>
     t = EvidenceUserInstruction \<or> t = EvidenceDelegationGrant \<or> t = EvidenceSystemAssertion"

definition ParseAuthorizationEvidenceType :: "string \<Rightarrow> AuthorizationEvidenceType res" where
  "ParseAuthorizationEvidenceType value =
     (let typ = upper_trim value in
      if typ = EvidenceUserInstruction \<or> typ = EvidenceDelegationGrant \<or> typ = EvidenceSystemAssertion
      then Inr typ else Inl [Domain ErrInvalidArgument])"

record AuthorizationScope =
  scope_actionType :: ActionType
  scope_destinationScope :: DestinationScope
  scope_requestedScope :: AccessScope
  scope_deleteMode :: DeleteMode

definition NewAuthorizationScope ::
    "ActionType \<Rightarrow> DestinationScope \<Rightarrow> AccessScope \<Rightarrow> DeleteMode \<Rightarrow> AuthorizationScope res" where
  "NewAuthorizationScope actionType destinationScope requestedScope deleteMode =
     (let scope = \<lparr>scope_actionType = actionType, scope_destinationScope = [],
                   scope_requestedScope = [], scope_deleteMode = []\<rparr> in
      if \<not> ActionType_Valid actionType then Inl [Domain ErrInvalidActionType]
      else if actionType = ActionExternalSend then
        (case ParseDestinationScope destinationScope of
           Inl _ \<Rightarrow> Inl [Domain ErrInvalidArgument]
         | Inr normalized \<Rightarrow> Inr (scope\<lparr>scope_destinationScope := normalized\<rparr>))
      else if actionType = ActionUpdateResourceAccess then
        (case ParseAccessScope requestedScope of
           Inl _ \<Rightarrow> Inl [Domain ErrInvalidArgument]
         | Inr normalized \<Rightarrow> Inr (scope\<lparr>scope_requestedScope := normalized\<rparr>))
      else if actionType = ActionDelete then
        (case ParseDeleteMode deleteMode of
           Inl _ \<Rightarrow> Inl [Domain ErrInvalidArgument]
         | Inr normalized \<Rightarrow> Inr (scope\<lparr>scope_deleteMode := normalized\<rparr>))
      else Inr scope)"

definition AuthorizationScope_valid :: "AuthorizationScope \<Rightarrow> bool" where
  "AuthorizationScope_valid s =
     is_ok (NewAuthorizationScope (scope_actionType s) (scope_destinationScope s) (scope_requestedScope s)
              (scope_deleteMode s))"

record AuthorizationEvidence =
  evidence_typ :: AuthorizationEvidenceType
  evidence_id :: string
  evidence_issuedBy :: Principal
  evidence_scope :: AuthorizationScope

definition NewAuthorizationEvidence ::
    "AuthorizationEvidenceType \<Rightarrow> string \<Rightarrow> Principal \<Rightarrow> AuthorizationScope \<Rightarrow> AuthorizationEvidence res" where
  "NewAuthorizationEvidence typ ident issuedBy scope =
     res_bind (ParseAuthorizationEvidenceType typ) (\<lambda>normalizedType.
     res_bind (normalizeRequiredIdentifier ident) (\<lambda>ident'.
       if \<not> Principal_valid issuedBy \<or> \<not> AuthorizationScope_valid scope then Inl [Domain ErrInvalidArgument]
       else Inr \<lparr>evidence_typ = normalizedType, evidence_id = ident', evidence_issuedBy = issuedBy,
                 evidence_scope = scope\<rparr>))"

definition AuthorizationEvidence_valid :: "AuthorizationEvidence \<Rightarrow> bool" where
  "AuthorizationEvidence_valid e =
     is_ok (NewAuthorizationEvidence (evidence_typ e) (evidence_id e) (evidence_issuedBy e) (evidence_scope e))"

definition evidence_key :: "AuthorizationEvidence \<Rightarrow> string" where
  "evidence_key e = evidence_typ e @ CHR 0x00 # evidence_id e"

text \<open>The loop of \<^verbatim>\<open>NormalizeAuthorizationEvidence\<close> that fills the map \<^verbatim>\<open>unique\<close>.\<close>

fun collectEvidence ::
    "(string \<times> AuthorizationEvidence) list \<Rightarrow> AuthorizationEvidence list \<Rightarrow> (string \<times> AuthorizationEvidence) list res" where
  "collectEvidence unique [] = Inr unique"
| "collectEvidence unique (e # es) =
     (if \<not> AuthorizationEvidence_valid e then Inl [Domain ErrInvalidArgument]
      else if (case map_of unique (evidence_key e) of Some existing \<Rightarrow> existing \<noteq> e | None \<Rightarrow> False)
      then Inl [Domain ErrInvalidArgument]
      else collectEvidence (AList.update (evidence_key e) e unique) es)"

definition NormalizeAuthorizationEvidence :: "AuthorizationEvidence list \<Rightarrow> AuthorizationEvidence list res" where
  "NormalizeAuthorizationEvidence values =
     (if 100 < length values then Inl [Domain ErrInvalidArgument]
      else res_bind (collectEvidence [] values) (\<lambda>unique. Inr (go_map_sorted_values unique)))"

fun wf_scope :: "AuthorizationScope \<Rightarrow> bool" where
  "wf_scope s \<longleftrightarrow>
     (scope_actionType s = ActionExternalSend \<and> wf_destination_scope (scope_destinationScope s) \<and>
      scope_requestedScope s = [] \<and> scope_deleteMode s = []) \<or>
     (scope_actionType s = ActionUpdateResourceAccess \<and> scope_destinationScope s = [] \<and>
      wf_access_scope (scope_requestedScope s) \<and> scope_deleteMode s = []) \<or>
     (scope_actionType s = ActionDelete \<and> scope_destinationScope s = [] \<and>
      scope_requestedScope s = [] \<and> wf_delete_mode (scope_deleteMode s))"

definition wf_evidence :: "AuthorizationEvidence \<Rightarrow> bool" where
  "wf_evidence e \<longleftrightarrow> wf_evidence_type (evidence_typ e) \<and> wf_identifier (evidence_id e) \<and>
     wf_principal (evidence_issuedBy e) \<and> wf_scope (evidence_scope e)"

definition wf_evidence_list :: "AuthorizationEvidence list \<Rightarrow> bool" where
  "wf_evidence_list es \<longleftrightarrow> length es \<le> 100 \<and> list_all wf_evidence es \<and> inj_on evidence_key (set es) \<and>
     unique_by_key evidence_key es = es"

lemma upper_trim_evidence_consts:
  "wf_evidence_type t \<Longrightarrow> upper_trim t = t"
  by (auto simp: wf_evidence_type_def EvidenceUserInstruction_def EvidenceDelegationGrant_def
      EvidenceSystemAssertion_def upper_trim_def TrimSpace_ascii ToUpper_def ascii_ToUpper_def)

lemma ParseAuthorizationEvidenceType_Inr_iff:
  "ParseAuthorizationEvidenceType v = Inr t \<longleftrightarrow> t = upper_trim v \<and> wf_evidence_type t"
  by (auto simp: ParseAuthorizationEvidenceType_def wf_evidence_type_def Let_def)

lemma wf_NewAuthorizationScope: "NewAuthorizationScope a d r m = Inr s \<Longrightarrow> wf_scope s"
  by (auto simp: NewAuthorizationScope_def Let_def ParseDestinationScope_Inr_iff ParseAccessScope_Inr_iff
      ParseDeleteMode_Inr_iff ActionType_Valid_def split: if_splits sum.splits)

lemma NewAuthorizationScope_rebuild:
  assumes "wf_scope s"
  shows "NewAuthorizationScope (scope_actionType s) (scope_destinationScope s) (scope_requestedScope s)
           (scope_deleteMode s) = Inr s"
proof -
  have "ParseDestinationScope d = Inr d" if "wf_destination_scope d" for d
    using that by (simp add: ParseDestinationScope_Inr_iff)
  moreover have "ParseAccessScope d = Inr d" if "wf_access_scope d" for d
    using that by (simp add: ParseAccessScope_Inr_iff)
  moreover have "ParseDeleteMode d = Inr d" if "wf_delete_mode d" for d
    using that by (simp add: ParseDeleteMode_Inr_iff)
  ultimately show ?thesis using assms
    by (cases s) (auto simp: NewAuthorizationScope_def ActionType_Valid_def action_type_defs Let_def)
qed

lemma AuthorizationScope_valid_wf: "wf_scope s \<Longrightarrow> AuthorizationScope_valid s"
  by (simp add: AuthorizationScope_valid_def NewAuthorizationScope_rebuild del: wf_scope.simps)

lemma NewAuthorizationEvidence_Inr_iff:
  "NewAuthorizationEvidence t i p s = Inr e \<longleftrightarrow>
     wf_evidence_type (upper_trim t) \<and> wf_identifier (TrimSpace i) \<and> Principal_valid p \<and> AuthorizationScope_valid s \<and>
     e = \<lparr>evidence_typ = upper_trim t, evidence_id = TrimSpace i, evidence_issuedBy = p, evidence_scope = s\<rparr>"
  by (auto simp: NewAuthorizationEvidence_def res_simps ParseAuthorizationEvidenceType_Inr_iff
      normalizeRequiredIdentifier_Inr_iff)

lemma wf_NewAuthorizationEvidence:
  "NewAuthorizationEvidence t i p s = Inr e \<Longrightarrow> wf_principal p \<Longrightarrow> wf_scope s \<Longrightarrow> wf_evidence e"
  by (auto simp: NewAuthorizationEvidence_Inr_iff wf_evidence_def simp del: wf_scope.simps)

lemma NewAuthorizationEvidence_rebuild:
  "wf_evidence e \<Longrightarrow>
     NewAuthorizationEvidence (evidence_typ e) (evidence_id e) (evidence_issuedBy e) (evidence_scope e) = Inr e"
  by (auto simp: NewAuthorizationEvidence_Inr_iff wf_evidence_def upper_trim_evidence_consts Principal_valid_wf
      AuthorizationScope_valid_wf simp del: wf_scope.simps)

lemma AuthorizationEvidence_valid_wf: "wf_evidence e \<Longrightarrow> AuthorizationEvidence_valid e"
  by (simp add: AuthorizationEvidence_valid_def NewAuthorizationEvidence_rebuild)

lemma collectEvidence_Inr_iff:
  "inj_on evidence_key (set pre) \<Longrightarrow>
   collectEvidence (go_map_fill evidence_key pre) es = Inr m \<longleftrightarrow>
     list_all AuthorizationEvidence_valid es \<and> inj_on evidence_key (set (pre @ es)) \<and>
     m = go_map_fill evidence_key (pre @ es)"
proof (induction es arbitrary: pre)
  case (Cons e es)
  let ?m = "go_map_fill evidence_key pre"
  have clash: "(case map_of ?m (evidence_key e) of Some x \<Rightarrow> x \<noteq> e | None \<Rightarrow> False) \<longleftrightarrow>
      \<not> inj_on evidence_key (set (pre @ [e]))"
  proof (cases "\<exists>x \<in> set pre. evidence_key x = evidence_key e")
    case True
    then obtain x where x: "x \<in> set pre" "evidence_key x = evidence_key e" by blast
    have "map_of ?m (evidence_key e) = Some x"
      using map_of_go_map_fill [OF Cons.prems x(1)] x(2) by simp
    moreover have "inj_on evidence_key (set (pre @ [e])) \<longleftrightarrow> x = e"
      using Cons.prems x by (auto simp: inj_on_def)
    ultimately show ?thesis by simp
  next
    case False
    then have "map_of ?m (evidence_key e) = None"
      using set_keys_go_map_fill [of evidence_key pre] by (auto simp: map_of_eq_None_iff)
    moreover have "inj_on evidence_key (set (pre @ [e]))"
      using Cons.prems False by (auto simp: inj_on_def)
    ultimately show ?thesis by simp
  qed
  have sub: "inj_on evidence_key (set (pre @ e # es)) \<Longrightarrow> inj_on evidence_key (set (pre @ [e]))"
    by (erule inj_on_subset) auto
  show ?case
    using Cons.IH [of "pre @ [e]"] clash sub by (auto simp: go_map_fill_snoc simp del: set_append)
qed auto

lemma NormalizeAuthorizationEvidence_Inr_iff:
  "NormalizeAuthorizationEvidence es = Inr r \<longleftrightarrow>
     length es \<le> 100 \<and> list_all AuthorizationEvidence_valid es \<and> inj_on evidence_key (set es) \<and>
     r = unique_by_key evidence_key es"
  using collectEvidence_Inr_iff [of "[]" es]
  by (auto simp: NormalizeAuthorizationEvidence_def res_simps unique_by_key_def go_map_fill_def)

lemma wf_NormalizeAuthorizationEvidence:
  assumes "NormalizeAuthorizationEvidence es = Inr r" "list_all wf_evidence es"
  shows "wf_evidence_list r \<and> set r = set es"
proof -
  have r: "length es \<le> 100" "inj_on evidence_key (set es)" "r = unique_by_key evidence_key es"
    using assms(1) by (simp_all add: NormalizeAuthorizationEvidence_Inr_iff)
  then have "length r \<le> 100" using length_unique_by_key [of evidence_key es] by simp
  then show ?thesis using r assms(2)
    by (simp add: wf_evidence_list_def set_unique_by_key unique_by_key_idem list_all_iff)
qed

lemma NormalizeAuthorizationEvidence_rebuild:
  "wf_evidence_list es \<Longrightarrow> NormalizeAuthorizationEvidence es = Inr es"
  by (auto simp: wf_evidence_list_def NormalizeAuthorizationEvidence_Inr_iff list_all_iff
      AuthorizationEvidence_valid_wf)

section \<open>Proposed actions (proposed\_action.go)\<close>

record ProposedAction =
  action_typ :: ActionType
  action_requestedAt :: Time
  action_actor :: Actor
  action_delegation :: Delegation
  action_target :: Target
  action_parameters :: "ActionParameters option"
  action_payload :: PayloadFacts
  action_evidence :: "AuthorizationEvidence list"

definition NewProposedAction ::
    "ActionType \<Rightarrow> Time \<Rightarrow> Actor \<Rightarrow> Delegation \<Rightarrow> Target \<Rightarrow> ActionParameters option \<Rightarrow> PayloadFacts \<Rightarrow>
     AuthorizationEvidence list \<Rightarrow> ProposedAction res" where
  "NewProposedAction typ requestedAt actor delegation target parameters payload evidence =
     (if \<not> ActionType_Valid typ then Inl [Domain ErrInvalidActionType]
      else if Time_IsZero requestedAt then Inl [Domain ErrInvalidArgument]
      else if \<not> Actor_valid actor then Inl [Domain ErrInvalidArgument]
      else if \<not> Delegation_valid delegation then Inl [Domain ErrInvalidArgument]
      else if \<not> Target_valid target then Inl [Domain ErrInvalidArgument]
      else case parameters of
        None \<Rightarrow> Inl [Domain ErrInvalidArgument]
      | Some params \<Rightarrow>
          if ActionParameters_ActionType params \<noteq> typ then Inl [Domain ErrInvalidArgument]
          else res_bind (ActionParameters_validate params) (\<lambda>_.
            if \<not> PayloadFacts_valid payload then Inl [Domain ErrInvalidDigest]
            else res_bind (NormalizeAuthorizationEvidence evidence) (\<lambda>normalizedEvidence.
              Inr \<lparr>action_typ = typ, action_requestedAt = Time_UTC requestedAt, action_actor = actor,
                   action_delegation = delegation, action_target = target,
                   action_parameters = Some params, action_payload = payload,
                   action_evidence = normalizedEvidence\<rparr>)))"

text \<open>The normal form of a proposed action: every part is normal and the parameters fit the type.\<close>

definition wf_action :: "ProposedAction \<Rightarrow> bool" where
  "wf_action a \<longleftrightarrow>
     ActionType_Valid (action_typ a) \<and> \<not> Time_IsZero (action_requestedAt a) \<and>
     utc_time (action_requestedAt a) \<and> wf_actor (action_actor a) \<and> wf_delegation (action_delegation a) \<and>
     wf_target (action_target a) \<and>
     (\<exists>p. action_parameters a = Some p \<and> wf_parameters p \<and> ActionParameters_ActionType p = action_typ a) \<and>
     wf_payload (action_payload a) \<and> wf_evidence_list (action_evidence a)"

lemma NewProposedAction_rebuild:
  assumes "wf_action a"
  shows "NewProposedAction (action_typ a) (action_requestedAt a) (action_actor a) (action_delegation a)
           (action_target a) (action_parameters a) (action_payload a) (action_evidence a) = Inr a"
  using assms
  by (cases a) (auto simp: wf_action_def NewProposedAction_def Actor_valid_wf Delegation_valid_wf
      Target_valid_wf wf_parameters_validate PayloadFacts_valid_wf NormalizeAuthorizationEvidence_rebuild
      Time_UTC_id)

lemma NewProposedAction_Inr_iff:
  "NewProposedAction typ at actor deleg target params payload evidence = Inr a \<longleftrightarrow>
     ActionType_Valid typ \<and> \<not> Time_IsZero at \<and> Actor_valid actor \<and> Delegation_valid deleg \<and> Target_valid target \<and>
     (\<exists>p r. params = Some p \<and> ActionParameters_ActionType p = typ \<and> ActionParameters_validate p = Inr () \<and>
       PayloadFacts_valid payload \<and> NormalizeAuthorizationEvidence evidence = Inr r \<and>
       a = \<lparr>action_typ = typ, action_requestedAt = Time_UTC at, action_actor = actor,
            action_delegation = deleg, action_target = target, action_parameters = Some p,
            action_payload = payload, action_evidence = r\<rparr>)"
  by (cases params) (auto simp: NewProposedAction_def res_simps)

lemma wf_NewProposedAction:
  assumes "NewProposedAction typ at actor deleg target (Some p) payload evidence = Inr a"
    and "wf_actor actor" "wf_delegation deleg" "wf_target target" "wf_parameters p" "wf_payload payload"
    and "list_all wf_evidence evidence"
  shows "wf_action a"
  using assms wf_NormalizeAuthorizationEvidence by (auto simp: NewProposedAction_Inr_iff wf_action_def)

end
