(* ===== verification/Sha256.thy ===== *)
theory Sha256
  imports DomainAction
begin

text \<open>
  \<^verbatim>\<open>crypto/sha256\<close> and \<^verbatim>\<open>encoding/hex\<close>, the standard library code behind the action digest and the
  idempotency keys of policy effects: FIPS 180-4 on 32-bit words. The digest text always passes
  \<^verbatim>\<open>validateSHA256Digest\<close>.
\<close>

unbundle bit_operations_syntax

definition sha256_k :: "32 word list" where
  "sha256_k =
    [1116352408, 1899447441, 3049323471, 3921009573, 961987163, 1508970993, 2453635748, 2870763221,
     3624381080, 310598401, 607225278, 1426881987, 1925078388, 2162078206, 2614888103, 3248222580,
     3835390401, 4022224774, 264347078, 604807628, 770255983, 1249150122, 1555081692, 1996064986,
     2554220882, 2821834349, 2952996808, 3210313671, 3336571891, 3584528711, 113926993, 338241895,
     666307205, 773529912, 1294757372, 1396182291, 1695183700, 1986661051, 2177026350, 2456956037,
     2730485921, 2820302411, 3259730800, 3345764771, 3516065817, 3600352804, 4094571909, 275423344,
     430227734, 506948616, 659060556, 883997877, 958139571, 1322822218, 1537002063, 1747873779,
     1955562222, 2024104815, 2227730452, 2361852424, 2428436474, 2756734187, 3204031479, 3329325298]"

record sha_state =
  sha_a :: "32 word"
  sha_b :: "32 word"
  sha_c :: "32 word"
  sha_d :: "32 word"
  sha_e :: "32 word"
  sha_f :: "32 word"
  sha_g :: "32 word"
  sha_h :: "32 word"

definition sha256_init :: sha_state where
  "sha256_init =
     \<lparr>sha_a = 0x6a09e667, sha_b = 0xbb67ae85, sha_c = 0x3c6ef372, sha_d = 0xa54ff53a,
      sha_e = 0x510e527f, sha_f = 0x9b05688c, sha_g = 0x1f83d9ab, sha_h = 0x5be0cd19\<rparr>"

definition sha_small0 :: "32 word \<Rightarrow> 32 word" where
  "sha_small0 x = word_rotr 7 x XOR word_rotr 18 x XOR drop_bit 3 x"

definition sha_small1 :: "32 word \<Rightarrow> 32 word" where
  "sha_small1 x = word_rotr 17 x XOR word_rotr 19 x XOR drop_bit 10 x"

definition sha_big0 :: "32 word \<Rightarrow> 32 word" where
  "sha_big0 x = word_rotr 2 x XOR word_rotr 13 x XOR word_rotr 22 x"

definition sha_big1 :: "32 word \<Rightarrow> 32 word" where
  "sha_big1 x = word_rotr 6 x XOR word_rotr 11 x XOR word_rotr 25 x"

text \<open>The message schedule, kept in reverse: the newest word first.\<close>

fun sha_extend :: "nat \<Rightarrow> 32 word list \<Rightarrow> 32 word list" where
  "sha_extend 0 ws = ws"
| "sha_extend (Suc n) ws =
     sha_extend n ((sha_small1 (ws ! 1) + ws ! 6 + sha_small0 (ws ! 14) + ws ! 15) # ws)"

fun sha_round :: "sha_state \<Rightarrow> 32 word \<times> 32 word \<Rightarrow> sha_state" where
  "sha_round s (k, w) =
     (let ch = (sha_e s AND sha_f s) XOR (NOT (sha_e s) AND sha_g s);
          maj = (sha_a s AND sha_b s) XOR (sha_a s AND sha_c s) XOR (sha_b s AND sha_c s);
          t1 = sha_h s + sha_big1 (sha_e s) + ch + k + w;
          t2 = sha_big0 (sha_a s) + maj
      in \<lparr>sha_a = t1 + t2, sha_b = sha_a s, sha_c = sha_b s, sha_d = sha_c s,
          sha_e = sha_d s + t1, sha_f = sha_e s, sha_g = sha_f s, sha_h = sha_g s\<rparr>)"

definition sha_block :: "sha_state \<Rightarrow> 32 word list \<Rightarrow> sha_state" where
  "sha_block s block =
     (let r = foldl sha_round s (zip sha256_k (rev (sha_extend 48 (rev block))))
      in \<lparr>sha_a = sha_a s + sha_a r, sha_b = sha_b s + sha_b r, sha_c = sha_c s + sha_c r,
          sha_d = sha_d s + sha_d r, sha_e = sha_e s + sha_e r, sha_f = sha_f s + sha_f r,
          sha_g = sha_g s + sha_g r, sha_h = sha_h s + sha_h r\<rparr>)"

text \<open>Padding: a one bit, zeros up to 56 bytes modulo 64 and the bit length in 64 bits.\<close>

definition big_endian :: "nat \<Rightarrow> nat \<Rightarrow> nat list" where
  "big_endian k n = map (\<lambda>i. n div 256 ^ (k - 1 - i) mod 256) [0..<k]"

definition sha_pad :: "nat list \<Rightarrow> nat list" where
  "sha_pad bs = bs @ 128 # replicate ((119 - length bs mod 64) mod 64) 0 @ big_endian 8 (8 * length bs)"

fun words_of_bytes :: "nat list \<Rightarrow> 32 word list" where
  "words_of_bytes (a # b # c # d # rest) =
     word_of_nat (((a * 256 + b) * 256 + c) * 256 + d) # words_of_bytes rest"
| "words_of_bytes _ = []"

fun sha_blocks :: "nat \<Rightarrow> sha_state \<Rightarrow> 32 word list \<Rightarrow> sha_state" where
  "sha_blocks 0 s ws = s"
| "sha_blocks (Suc n) s ws = sha_blocks n (sha_block s (take 16 ws)) (drop 16 ws)"

definition sha256_bytes :: "nat list \<Rightarrow> nat list" where
  "sha256_bytes bs =
     (let ws = words_of_bytes (sha_pad bs); s = sha_blocks (length ws div 16) sha256_init ws
      in concat (map (\<lambda>w. big_endian 4 (unat w))
           [sha_a s, sha_b s, sha_c s, sha_d s, sha_e s, sha_f s, sha_g s, sha_h s]))"

definition hex_EncodeToString :: "nat list \<Rightarrow> string" where
  "hex_EncodeToString bs = concat (map (\<lambda>b. [hex_digit (b div 16), hex_digit (b mod 16)]) bs)"

text \<open>The text \<^verbatim>\<open>"sha256:" + hex.EncodeToString(sum[:])\<close> both users of the hash build.\<close>

definition sha256_text :: "string \<Rightarrow> string" where
  "sha256_text s = digest_prefix @ hex_EncodeToString (sha256_bytes (map byte s))"

lemma sha256_bytes_length [simp]: "length (sha256_bytes bs) = 32"
  by (simp add: sha256_bytes_def Let_def big_endian_def)

lemma sha256_bytes_range: "b \<in> set (sha256_bytes bs) \<Longrightarrow> b < 256"
  by (auto simp: sha256_bytes_def Let_def big_endian_def)

lemma length_hex [simp]: "length (hex_EncodeToString bs) = 2 * length bs"
  by (induction bs) (simp_all add: hex_EncodeToString_def)

lemma hex_digit_rune: "n < 16 \<Longrightarrow> lower_hex_rune (byte (hex_digit n)) \<and> byte (hex_digit n) < 128"
proof -
  assume "n < 16"
  then have "n \<in> set [0..<16]" by simp
  then show ?thesis by (simp add: upt_rec) (auto simp: hex_digit_def lower_hex_rune_def)
qed

lemma hex_runes:
  assumes "\<forall>b \<in> set bs. b < 256" "c \<in> set (hex_EncodeToString bs)"
  shows "lower_hex_rune (byte c) \<and> byte c < 128"
  using assms hex_digit_rune by (auto simp: hex_EncodeToString_def)

lemma ActionDigest_Valid_sha256_text [simp]: "ActionDigest_Valid (sha256_text s)"
proof -
  let ?h = "hex_EncodeToString (sha256_bytes (map byte s))"
  have h: "lower_hex_rune (byte c) \<and> byte c < 128" if "c \<in> set ?h" for c
    using hex_runes [OF _ that] sha256_bytes_range by blast
  then have "runes ?h = map byte ?h" by (simp add: runes_def runes_ascii comp_def)
  then have "list_all lower_hex_rune (runes ?h)" using h by (auto simp: list_all_iff)
  then show ?thesis
    by (simp add: ActionDigest_Valid_def ParseActionDigest_def validateSHA256Digest_def sha256_text_def
        digest_prefix_def is_ok_iff)
qed

end
