(* ===== verification/Canonical.thy ===== *)
theory Canonical
  imports Sha256
begin

text \<open>
  The canonical byte form of an action and its digest (\<^verbatim>\<open>internal/domain/action_digest.go\<close>). The
  \<^verbatim>\<open>canonical*\<close> structs are modelled by the JSON value \<^verbatim>\<open>json.Marshal\<close> builds from them, members in field
  order; \<^verbatim>\<open>omitempty\<close> members are left out when empty.
\<close>

definition CanonicalActionSchemaV1 :: string where
  "CanonicalActionSchemaV1 = ''agent-action-control/action-digest/v1''"

definition omitempty :: "string \<Rightarrow> string \<Rightarrow> (string \<times> json) list" where
  "omitempty name v = (if v = [] then [] else [(name, jstring v)])"

definition canonicalPrincipal :: "PrincipalType \<Rightarrow> string \<Rightarrow> json" where
  "canonicalPrincipal typ ident = JObj [(''type'', jstring typ), (''id'', jstring ident)]"

definition canonicalPrincipalValue :: "Principal \<Rightarrow> json" where
  "canonicalPrincipalValue p = canonicalPrincipal (principal_typ p) (principal_id p)"

definition canonicalScope :: "AuthorizationScope \<Rightarrow> json" where
  "canonicalScope s =
     JObj ((''actionType'', jstring (scope_actionType s)) #
           omitempty ''destinationScope'' (scope_destinationScope s) @
           omitempty ''requestedScope'' (scope_requestedScope s) @
           omitempty ''deleteMode'' (scope_deleteMode s))"

definition canonicalAuthorizationEvidence :: "AuthorizationEvidenceType \<Rightarrow> string \<Rightarrow> json \<Rightarrow> json \<Rightarrow> json" where
  "canonicalAuthorizationEvidence typ evidenceID issuedBy scope =
     JObj [(''type'', jstring typ), (''evidenceId'', jstring evidenceID), (''issuedBy'', issuedBy), (''scope'', scope)]"

definition canonicalEvidence :: "AuthorizationEvidence \<Rightarrow> json" where
  "canonicalEvidence e =
     canonicalAuthorizationEvidence (evidence_typ e) (evidence_id e) (canonicalPrincipalValue (evidence_issuedBy e))
       (canonicalScope (evidence_scope e))"

definition canonicalExternalSendParameters :: "DestinationScope \<Rightarrow> string list \<Rightarrow> json" where
  "canonicalExternalSendParameters destinationScope recipients =
     JObj [(''destinationScope'', jstring destinationScope), (''recipients'', jstrings recipients)]"

definition canonicalUpdateResourceAccessParameters :: "AccessScope \<Rightarrow> AccessScope \<Rightarrow> json list \<Rightarrow> json" where
  "canonicalUpdateResourceAccessParameters currentScope requestedScope targetPrincipals =
     JObj [(''currentScope'', jstring currentScope), (''requestedScope'', jstring requestedScope),
           (''targetPrincipals'', JArr targetPrincipals)]"

definition canonicalDeleteParameters :: "DeleteMode \<Rightarrow> bool \<Rightarrow> json" where
  "canonicalDeleteParameters deleteMode recoverable =
     JObj [(''deleteMode'', jstring deleteMode), (''recoverable'', JBool recoverable)]"

fun canonicalParameters :: "ActionParameters option \<Rightarrow> json res" where
  "canonicalParameters (Some (ExternalSend p)) =
     Inr (canonicalExternalSendParameters (send_destinationScope p) (send_recipients p))"
| "canonicalParameters (Some (UpdateResourceAccess p)) =
     Inr (canonicalUpdateResourceAccessParameters (access_currentScope p) (access_requestedScope p)
            (map canonicalPrincipalValue (access_targetPrincipals p)))"
| "canonicalParameters (Some (Delete p)) = Inr (canonicalDeleteParameters (delete_mode p) (delete_recoverable p))"
| "canonicalParameters None = Inl [Domain ErrInvalidArgument]"

lemmas canonical_struct_defs [simp] = canonicalPrincipal_def canonicalAuthorizationEvidence_def
  canonicalExternalSendParameters_def canonicalUpdateResourceAccessParameters_def canonicalDeleteParameters_def

definition canonicalActor :: "Actor \<Rightarrow> json" where
  "canonicalActor a =
     JObj [(''agentId'', jstring (agentID a)), (''runtimeId'', jstring (runtimeID a)),
           (''sessionId'', jstring (sessionID a))]"

definition canonicalDelegation :: "Delegation \<Rightarrow> json" where
  "canonicalDelegation d =
     JObj [(''id'', jstring (delegation_id d)), (''delegator'', canonicalPrincipalValue (delegator d))]"

definition canonicalTarget :: "Target \<Rightarrow> json" where
  "canonicalTarget t =
     JObj [(''resourceType'', jstring (resourceType t)), (''resourceId'', jstring (resourceID t))]"

definition canonicalPayload :: "PayloadFacts \<Rightarrow> json" where
  "canonicalPayload p =
     JObj [(''digest'', jstring (payload_digest p)), (''classification'', jstrings (payload_classification p)),
           (''sizeBytes'', jint_pointer (payload_sizeBytes p))]"

definition canonicalAction :: "ProposedAction \<Rightarrow> json \<Rightarrow> json" where
  "canonicalAction a params =
     JObj [(''schema'', jstring CanonicalActionSchemaV1), (''type'', jstring (action_typ a)),
           (''requestedAt'', jstring (format_canonical (Time_UTC (action_requestedAt a)))),
           (''actor'', canonicalActor (action_actor a)), (''delegation'', canonicalDelegation (action_delegation a)),
           (''target'', canonicalTarget (action_target a)), (''parameters'', params),
           (''payload'', canonicalPayload (action_payload a)),
           (''authorizationEvidence'', JArr (map canonicalEvidence (action_evidence a)))]"

definition CanonicalActionBytes :: "ProposedAction \<Rightarrow> string res" where
  "CanonicalActionBytes a =
     res_bind (NewProposedAction (action_typ a) (action_requestedAt a) (action_actor a) (action_delegation a)
        (action_target a) (action_parameters a) (action_payload a) (action_evidence a)) (\<lambda>normalized.
     res_bind (canonicalParameters (action_parameters normalized)) (\<lambda>params.
       Inr (json_print (canonicalAction normalized params))))"

definition ComputeActionDigest :: "ProposedAction \<Rightarrow> string res" where
  "ComputeActionDigest a = res_bind (CanonicalActionBytes a) (\<lambda>canonical. Inr (sha256_text canonical))"

section \<open>Basic facts\<close>

lemma canonicalParameters_Some: "\<exists>j. canonicalParameters (Some p) = Inr j"
  by (cases p) simp_all

lemma CanonicalActionBytes_wf:
  assumes "wf_action a"
  shows "\<exists>params. canonicalParameters (action_parameters a) = Inr params \<and>
    CanonicalActionBytes a = Inr (json_print (canonicalAction a params))"
proof -
  obtain p where "action_parameters a = Some p" using assms by (auto simp: wf_action_def)
  with canonicalParameters_Some [of p] NewProposedAction_rebuild [OF assms] show ?thesis
    by (auto simp: CanonicalActionBytes_def)
qed

lemma ComputeActionDigest_wf: "wf_action a \<Longrightarrow> \<exists>d. ComputeActionDigest a = Inr d"
  using CanonicalActionBytes_wf [of a] by (auto simp: ComputeActionDigest_def)

lemma ComputeActionDigest_valid: "ComputeActionDigest a = Inr d \<Longrightarrow> ActionDigest_Valid d"
  by (auto simp: ComputeActionDigest_def res_simps)

end
