(* ===== verification/Wire.thy ===== *)
theory Wire
  imports Canonical
begin

text \<open>
  The structs that carry actions as JSON, in the ledger (\<^verbatim>\<open>persisted*\<close> of
  \<^verbatim>\<open>storage/sqlite/serialization.go\<close>) and in HTTP requests (\<^verbatim>\<open>transport/http/dto.go\<close>), with their
  decoders. Their fields are those of the domain values, so the domain records carry the undecoded
  field values too; the flag of a decoder says whether unknown members are errors.
\<close>

definition zero_principal :: Principal where
  "zero_principal = \<lparr>principal_typ = [], principal_id = []\<rparr>"

definition dec_principal :: "bool \<Rightarrow> Principal decoder" where
  "dec_principal strict = dec_struct strict
     [field ''type'' dec_string principal_typ principal_typ_update,
      field ''id'' dec_string principal_id principal_id_update]"

definition zero_actor :: Actor where
  "zero_actor = \<lparr>agentID = [], runtimeID = [], sessionID = []\<rparr>"

definition dec_actor :: "bool \<Rightarrow> Actor decoder" where
  "dec_actor strict = dec_struct strict
     [field ''agentId'' dec_string agentID agentID_update,
      field ''runtimeId'' dec_string runtimeID runtimeID_update,
      field ''sessionId'' dec_string sessionID sessionID_update]"

definition zero_delegation :: Delegation where
  "zero_delegation = \<lparr>delegation_id = [], delegator = zero_principal\<rparr>"

definition dec_delegation :: "string \<Rightarrow> bool \<Rightarrow> Delegation decoder" where
  "dec_delegation id_name strict = dec_struct strict
     [field id_name dec_string delegation_id delegation_id_update,
      field ''delegator'' (dec_principal strict) delegator delegator_update]"

definition zero_target :: Target where
  "zero_target = \<lparr>resourceType = [], resourceID = []\<rparr>"

definition dec_target :: "bool \<Rightarrow> Target decoder" where
  "dec_target strict = dec_struct strict
     [field ''resourceType'' dec_string resourceType resourceType_update,
      field ''resourceId'' dec_string resourceID resourceID_update]"

definition zero_payload :: PayloadFacts where
  "zero_payload = \<lparr>payload_digest = [], payload_classification = [], payload_sizeBytes = None\<rparr>"

definition dec_payload :: "bool \<Rightarrow> PayloadFacts decoder" where
  "dec_payload strict = dec_struct strict
     [field ''digest'' dec_string payload_digest payload_digest_update,
      field ''classification'' (dec_slice [] dec_string) payload_classification payload_classification_update,
      field ''sizeBytes'' (dec_pointer 0 dec_int64) payload_sizeBytes payload_sizeBytes_update]"

definition zero_scope :: AuthorizationScope where
  "zero_scope = \<lparr>scope_actionType = [], scope_destinationScope = [], scope_requestedScope = [], scope_deleteMode = []\<rparr>"

definition dec_scope :: "bool \<Rightarrow> AuthorizationScope decoder" where
  "dec_scope strict = dec_struct strict
     [field ''actionType'' dec_string scope_actionType scope_actionType_update,
      field ''destinationScope'' dec_string scope_destinationScope scope_destinationScope_update,
      field ''requestedScope'' dec_string scope_requestedScope scope_requestedScope_update,
      field ''deleteMode'' dec_string scope_deleteMode scope_deleteMode_update]"

definition zero_evidence :: AuthorizationEvidence where
  "zero_evidence =
     \<lparr>evidence_typ = [], evidence_id = [], evidence_issuedBy = zero_principal, evidence_scope = zero_scope\<rparr>"

definition dec_evidence :: "bool \<Rightarrow> AuthorizationEvidence decoder" where
  "dec_evidence strict = dec_struct strict
     [field ''type'' dec_string evidence_typ evidence_typ_update,
      field ''evidenceId'' dec_string evidence_id evidence_id_update,
      field ''issuedBy'' (dec_principal strict) evidence_issuedBy evidence_issuedBy_update,
      field ''scope'' (dec_scope strict) evidence_scope evidence_scope_update]"

definition zero_send :: ExternalSendParameters where
  "zero_send = \<lparr>send_destinationScope = [], send_recipients = []\<rparr>"

definition dec_send :: "bool \<Rightarrow> ExternalSendParameters decoder" where
  "dec_send strict = dec_struct strict
     [field ''destinationScope'' dec_string send_destinationScope send_destinationScope_update,
      field ''recipients'' (dec_slice [] dec_string) send_recipients send_recipients_update]"

definition zero_access :: UpdateResourceAccessParameters where
  "zero_access = \<lparr>access_currentScope = [], access_requestedScope = [], access_targetPrincipals = []\<rparr>"

definition dec_access :: "bool \<Rightarrow> UpdateResourceAccessParameters decoder" where
  "dec_access strict = dec_struct strict
     [field ''currentScope'' dec_string access_currentScope access_currentScope_update,
      field ''requestedScope'' dec_string access_requestedScope access_requestedScope_update,
      field ''targetPrincipals'' (dec_slice zero_principal (dec_principal strict))
        access_targetPrincipals access_targetPrincipals_update]"

definition zero_delete :: DeleteParameters where
  "zero_delete = \<lparr>delete_mode = [], delete_recoverable = False\<rparr>"

definition dec_delete :: "bool \<Rightarrow> DeleteParameters decoder" where
  "dec_delete strict = dec_struct strict
     [field ''deleteMode'' dec_string delete_mode delete_mode_update,
      field ''recoverable'' dec_bool delete_recoverable delete_recoverable_update]"

section \<open>Decoding the canonical form\<close>

lemmas dec_struct_defs = dec_struct_def find_field_def field_def

definition utf8_principal :: "Principal \<Rightarrow> bool" where
  "utf8_principal p \<longleftrightarrow> valid_utf8 (principal_typ p) \<and> valid_utf8 (principal_id p)"

definition utf8_scope :: "AuthorizationScope \<Rightarrow> bool" where
  "utf8_scope s \<longleftrightarrow> valid_utf8 (scope_actionType s) \<and> valid_utf8 (scope_destinationScope s) \<and>
     valid_utf8 (scope_requestedScope s) \<and> valid_utf8 (scope_deleteMode s)"

definition utf8_evidence :: "AuthorizationEvidence \<Rightarrow> bool" where
  "utf8_evidence e \<longleftrightarrow> valid_utf8 (evidence_typ e) \<and> valid_utf8 (evidence_id e) \<and>
     utf8_principal (evidence_issuedBy e) \<and> utf8_scope (evidence_scope e)"

fun utf8_parameters :: "ActionParameters \<Rightarrow> bool" where
  "utf8_parameters (ExternalSend p) \<longleftrightarrow>
     valid_utf8 (send_destinationScope p) \<and> list_all valid_utf8 (send_recipients p)"
| "utf8_parameters (UpdateResourceAccess p) \<longleftrightarrow>
     valid_utf8 (access_currentScope p) \<and> valid_utf8 (access_requestedScope p) \<and>
     list_all utf8_principal (access_targetPrincipals p)"
| "utf8_parameters (Delete p) \<longleftrightarrow> valid_utf8 (delete_mode p)"

definition utf8_payload :: "PayloadFacts \<Rightarrow> bool" where
  "utf8_payload p \<longleftrightarrow> valid_utf8 (payload_digest p) \<and> list_all valid_utf8 (payload_classification p)"

definition utf8_action :: "ProposedAction \<Rightarrow> bool" where
  "utf8_action a \<longleftrightarrow>
     valid_utf8 (action_typ a) \<and>
     valid_utf8 (agentID (action_actor a)) \<and> valid_utf8 (runtimeID (action_actor a)) \<and>
     valid_utf8 (sessionID (action_actor a)) \<and> valid_utf8 (delegation_id (action_delegation a)) \<and>
     utf8_principal (delegator (action_delegation a)) \<and>
     valid_utf8 (resourceType (action_target a)) \<and> valid_utf8 (resourceID (action_target a)) \<and>
     (case action_parameters a of None \<Rightarrow> True | Some p \<Rightarrow> utf8_parameters p) \<and>
     utf8_payload (action_payload a) \<and> list_all utf8_evidence (action_evidence a)"

lemma dec_principal_canonical [simp]:
  "utf8_principal p \<Longrightarrow> dec_principal strict (canonicalPrincipalValue p) old = Inr p"
  by (simp add: dec_principal_def canonicalPrincipalValue_def dec_struct_defs utf8_principal_def)

lemma dec_actor_canonical [simp]:
  "valid_utf8 (agentID a) \<Longrightarrow> valid_utf8 (runtimeID a) \<Longrightarrow> valid_utf8 (sessionID a) \<Longrightarrow>
     dec_actor strict (canonicalActor a) old = Inr a"
  by (simp add: dec_actor_def canonicalActor_def dec_struct_defs)

lemma dec_delegation_canonical [simp]:
  "valid_utf8 (delegation_id d) \<Longrightarrow> utf8_principal (delegator d) \<Longrightarrow>
     dec_delegation ''id'' strict (canonicalDelegation d) old = Inr d"
  by (simp add: dec_delegation_def canonicalDelegation_def dec_struct_defs)

lemma dec_target_canonical [simp]:
  "valid_utf8 (resourceType t) \<Longrightarrow> valid_utf8 (resourceID t) \<Longrightarrow>
     dec_target strict (canonicalTarget t) old = Inr t"
  by (simp add: dec_target_def canonicalTarget_def dec_struct_defs)

lemma dec_payload_canonical [simp]:
  "utf8_payload p \<Longrightarrow> dec_payload strict (canonicalPayload p) old = Inr p"
  by (simp add: dec_payload_def canonicalPayload_def dec_struct_defs utf8_payload_def)

lemma dec_scope_canonical [simp]:
  "utf8_scope s \<Longrightarrow> dec_scope strict (canonicalScope s) zero_scope = Inr s"
  by (cases s) (auto simp: dec_scope_def canonicalScope_def omitempty_def zero_scope_def dec_struct_defs utf8_scope_def)

lemma dec_evidence_canonical [simp]:
  "utf8_evidence e \<Longrightarrow> dec_evidence strict (canonicalEvidence e) zero_evidence = Inr e"
  by (simp add: dec_evidence_def canonicalEvidence_def zero_evidence_def dec_struct_defs utf8_evidence_def)

lemma dec_evidence_list_canonical [simp]:
  "list_all utf8_evidence es \<Longrightarrow>
     dec_slice zero_evidence (dec_evidence strict) (JArr (map canonicalEvidence es)) [] = Inr es"
  using dec_slice_map_fresh [of es "dec_evidence strict" canonicalEvidence zero_evidence "\<lambda>e. e"]
  by (simp add: list_all_iff)

lemma dec_principals_canonical [simp]:
  "list_all utf8_principal ps \<Longrightarrow>
     dec_slice zero_principal (dec_principal strict) (JArr (map canonicalPrincipalValue ps)) old = Inr ps"
  using dec_slice_map [of ps "dec_principal strict" canonicalPrincipalValue "\<lambda>p. p"]
  by (simp add: list_all_iff)

lemma dec_parameters_canonical:
  "utf8_parameters (ExternalSend ps) \<Longrightarrow> canonicalParameters (Some (ExternalSend ps)) = Inr j \<Longrightarrow>
     dec_send strict j zero_send = Inr ps"
  "utf8_parameters (UpdateResourceAccess pa) \<Longrightarrow> canonicalParameters (Some (UpdateResourceAccess pa)) = Inr j \<Longrightarrow>
     dec_access strict j zero_access = Inr pa"
  "utf8_parameters (Delete pd) \<Longrightarrow> canonicalParameters (Some (Delete pd)) = Inr j \<Longrightarrow>
     dec_delete strict j zero_delete = Inr pd"
  by (auto simp: dec_send_def dec_access_def dec_delete_def dec_struct_defs)

section \<open>The canonical form prints and parses\<close>

lemma valid_utf8_literals [simp]: "\<forall>c \<in> set s. byte c < 128 \<Longrightarrow> valid_utf8 s"
  by (rule valid_utf8_ascii) simp

lemma json_ok_canonical_parts [simp]:
  "utf8_principal p \<Longrightarrow> json_ok (canonicalPrincipalValue p)"
  "utf8_scope s \<Longrightarrow> json_ok (canonicalScope s)"
  "utf8_evidence e \<Longrightarrow> json_ok (canonicalEvidence e)"
  "utf8_payload f \<Longrightarrow> json_ok (canonicalPayload f)"
  by (simp_all add: canonicalPrincipalValue_def canonicalScope_def canonicalEvidence_def canonicalPayload_def
      omitempty_def utf8_principal_def utf8_scope_def utf8_evidence_def utf8_payload_def)

lemma json_depth_canonical_parts [simp]:
  "json_depth (canonicalPrincipalValue p) \<le> d \<longleftrightarrow> 1 \<le> d"
  "json_depth (canonicalScope s) \<le> d \<longleftrightarrow> 1 \<le> d"
  "json_depth (canonicalEvidence e) \<le> d \<longleftrightarrow> 2 \<le> d"
  "json_depth (canonicalPayload f) \<le> d \<longleftrightarrow> 2 \<le> d"
  by (auto simp: canonicalPrincipalValue_def canonicalScope_def canonicalEvidence_def canonicalPayload_def
      omitempty_def)

lemma json_ok_parameters:
  "utf8_parameters p \<Longrightarrow> canonicalParameters (Some p) = Inr j \<Longrightarrow> json_ok j \<and> json_depth j \<le> 3"
  by (cases p) (auto simp: list_all_iff)

end
