(* ===== verification/Policy.thy ===== *)
theory Policy
  imports DomainAction
begin

text \<open>
  The policy side of the application: the policy evaluation and commit records of
  \<^verbatim>\<open>internal/application/evaluation.go\<close>, the decision composer and the embedded policy evaluator of
  \<^verbatim>\<open>internal/policy/embedded\<close>. The lemmas characterise the composed decision for every list of
  reasons and the verdict of the embedded rules for every kind of action.
\<close>

section \<open>Evaluation records (evaluation.go)\<close>

record PolicyEvaluation =
  DenyReasonCodes :: "ReasonCode list"
  Effects :: "PolicyEffect option list"
  MatchedRuleIDs :: "string list"
  PolicyVersion :: string

record DecisionRecord =
  record_DecisionID :: string
  record_Decision :: Decision
  record_ActionDigest :: string
  record_PolicyVersion :: string
  record_MatchedRuleIDs :: "string list"
  record_EvaluatedAt :: Time

record StoredEvaluation =
  stored_RuntimeID :: string
  stored_RequestID :: string
  stored_Action :: ProposedAction
  stored_Decision :: DecisionRecord

record PolicyEffectCommit =
  EffectID :: string
  Effect :: "PolicyEffect option"

record EvaluationCommit =
  commit_RuntimeID :: string
  commit_RequestID :: string
  commit_Action :: ProposedAction
  commit_ActionDigest :: string
  commit_DecisionID :: string
  commit_Decision :: Decision
  commit_PolicyVersion :: string
  commit_MatchedRuleIDs :: "string list"
  commit_Effects :: "PolicyEffectCommit list"
  commit_EvaluatedAt :: Time

section \<open>Decision composer (decision\_composer.go)\<close>

fun containsReason :: "ReasonCode list \<Rightarrow> ReasonCode \<Rightarrow> bool" where
  "containsReason [] target = False"
| "containsReason (reason # reasons) target = (if reason = target then True else containsReason reasons target)"

fun containsTerminalReason :: "ReasonCode list \<Rightarrow> bool" where
  "containsTerminalReason [] = False"
| "containsTerminalReason (reason # reasons) =
     (if reason = ReasonDelegatorApprovalRequired \<or> reason = ReasonExternalDestination \<or>
         reason = ReasonVisibilityExpansion \<or> reason = ReasonDestructiveOperation
      then containsTerminalReason reasons else True)"

fun withoutReason :: "ReasonCode list \<Rightarrow> ReasonCode \<Rightarrow> ReasonCode list" where
  "withoutReason [] excluded = []"
| "withoutReason (reason # reasons) excluded =
     (if reason \<noteq> excluded then reason # withoutReason reasons excluded else withoutReason reasons excluded)"

definition Compose :: "PolicyEvaluation \<Rightarrow> Decision res" where
  "Compose evaluation =
     (let reasons = DenyReasonCodes evaluation in
      if reasons = [] then Inr NewAllowDecision
      else if containsTerminalReason reasons then
        NewDenyDecision (withoutReason reasons ReasonDelegatorApprovalRequired) []
      else if containsReason reasons ReasonDelegatorApprovalRequired then
        NewDenyDecision reasons [NewRequireApprovalAction]
      else NewDenyDecision reasons [])"

definition blocking_reason :: "ReasonCode \<Rightarrow> bool" where
  "blocking_reason r \<longleftrightarrow> r = ReasonDelegatorApprovalRequired \<or> r = ReasonExternalDestination \<or>
     r = ReasonVisibilityExpansion \<or> r = ReasonDestructiveOperation"

lemma containsReason_iff [simp]: "containsReason rs t \<longleftrightarrow> t \<in> set rs"
  by (induction rs) auto

lemma containsTerminalReason_iff [simp]: "containsTerminalReason rs \<longleftrightarrow> (\<exists>r \<in> set rs. \<not> blocking_reason r)"
  by (induction rs) (auto simp: blocking_reason_def)

lemma withoutReason_filter [simp]: "withoutReason rs x = filter (\<lambda>r. r \<noteq> x) rs"
  by (induction rs) auto

text \<open>
  The reference for composition: no reason allows; a terminal reason denies without any required
  action and drops the approval reason; otherwise the action is denied, with the approval
  instruction exactly when approval is among the reasons.
\<close>

definition compose_spec :: "ReasonCode list \<Rightarrow> Decision" where
  "compose_spec rs =
     (if rs = [] then NewAllowDecision
      else if \<exists>r \<in> set rs. \<not> blocking_reason r then
        \<lparr>decision_typ = DecisionDeny,
         reasonCodes = first_seen (filter (\<lambda>r. r \<noteq> ReasonDelegatorApprovalRequired) rs), requiredActions = []\<rparr>
      else
        \<lparr>decision_typ = DecisionDeny, reasonCodes = first_seen rs,
         requiredActions =
           (if ReasonDelegatorApprovalRequired \<in> set rs then [NewRequireApprovalAction] else [])\<rparr>)"

lemma blocking_approval [simp]: "blocking_reason ReasonDelegatorApprovalRequired"
  by (simp add: blocking_reason_def)

lemma RequiredAction_valid_approval [simp]: "RequiredAction_valid NewRequireApprovalAction"
  by (simp add: RequiredAction_valid_eq)

lemma Compose_eq:
  "Compose ev =
     (if list_all ReasonCode_Valid (DenyReasonCodes ev) then Inr (compose_spec (DenyReasonCodes ev))
      else Inl [Domain ErrInvalidReasonCode])"
proof (cases "list_all ReasonCode_Valid (DenyReasonCodes ev)")
  case True
  let ?rs = "DenyReasonCodes ev"
  have "filter (\<lambda>r. r \<noteq> ReasonDelegatorApprovalRequired) ?rs \<noteq> []" if "\<exists>r \<in> set ?rs. \<not> blocking_reason r"
    using that blocking_approval unfolding filter_empty_conv by metis
  then have "Compose ev = Inr (compose_spec ?rs)"
    using True by (auto simp: Compose_def compose_spec_def NewDenyDecision_Inr_iff list_all_iff Let_def)
  with True show ?thesis by simp
next
  case False
  let ?rs = "DenyReasonCodes ev"
  have ne: "?rs \<noteq> []" using False by auto
  have inval: "\<exists>r \<in> set (filter (\<lambda>r. r \<noteq> ReasonDelegatorApprovalRequired) ?rs). \<not> ReasonCode_Valid r"
    using False by (auto simp: list_all_iff ReasonCode_Valid_def)
  have "NewDenyDecision rs as = Inl [Domain ErrInvalidReasonCode]"
    if "\<exists>r \<in> set rs. \<not> ReasonCode_Valid r" for rs as
    using that by (auto simp: NewDenyDecision_def normalizeReasons_eq list_all_iff)
  then show ?thesis using False ne inval by (auto simp: Compose_def list_all_iff Let_def)
qed

lemma wf_Compose: "Compose ev = Inr d \<Longrightarrow> wf_decision d"
  by (auto simp: Compose_def Let_def wf_NewDenyDecision split: if_splits)

section \<open>Embedded policy evaluator (policy/embedded/evaluator.go)\<close>

definition embedded_Version :: string where "embedded_Version = ''embedded-mvp-v1''"
definition rulePermissionMismatch :: string where "rulePermissionMismatch = ''mvp.permission-mismatch''"
definition ruleExternalSend :: string where "ruleExternalSend = ''mvp.external-send-approval''"
definition ruleVisibilityExpand :: string where "ruleVisibilityExpand = ''mvp.visibility-expansion-approval''"
definition ruleDestructiveDelete :: string where "ruleDestructiveDelete = ''mvp.destructive-delete-approval''"
definition ruleSecretReview :: string where "ruleSecretReview = ''mvp.secret-payload-review''"

definition isHighImpactVisibilityExpansion :: "AccessScope \<Rightarrow> AccessScope \<Rightarrow> bool" where
  "isHighImpactVisibilityExpansion current requested \<longleftrightarrow>
     current = AccessPrivate \<and> (requested = AccessWorkspace \<or> requested = AccessPublic)"

definition scopeMatchesAction :: "AuthorizationScope \<Rightarrow> ProposedAction \<Rightarrow> bool" where
  "scopeMatchesAction scope action =
     (if scope_actionType scope \<noteq> action_typ action then False
      else case action_parameters action of
        Some (ExternalSend p) \<Rightarrow> scope_destinationScope scope = send_destinationScope p
      | Some (UpdateResourceAccess p) \<Rightarrow> scope_requestedScope scope = access_requestedScope p
      | Some (Delete p) \<Rightarrow> scope_deleteMode scope = delete_mode p
      | None \<Rightarrow> False)"

fun hasMatchingRuntimeEvidence :: "ProposedAction \<Rightarrow> AuthorizationEvidence list \<Rightarrow> bool" where
  "hasMatchingRuntimeEvidence action [] = False"
| "hasMatchingRuntimeEvidence action (item # items) =
     (let issuer = evidence_issuedBy item in
      if principal_typ issuer \<noteq> PrincipalRuntime \<or> principal_id issuer \<noteq> runtimeID (action_actor action)
      then hasMatchingRuntimeEvidence action items
      else if scopeMatchesAction (evidence_scope item) action then True
      else hasMatchingRuntimeEvidence action items)"

definition add_rule :: "ReasonCode list \<Rightarrow> string \<Rightarrow> PolicyEvaluation \<Rightarrow> PolicyEvaluation" where
  "add_rule reasons rule ev =
     ev\<lparr>DenyReasonCodes := DenyReasonCodes ev @ reasons, MatchedRuleIDs := MatchedRuleIDs ev @ [rule]\<rparr>"

definition evaluateActionRules ::
    "ProposedAction \<Rightarrow> AuthorizationEvidence list \<Rightarrow> PolicyEvaluation \<Rightarrow> PolicyEvaluation" where
  "evaluateActionRules action evidence ev =
     (case action_parameters action of
        Some (ExternalSend p) \<Rightarrow>
          if send_destinationScope p = DestinationExternal \<and> evidence = []
          then add_rule [ReasonDelegatorApprovalRequired, ReasonExternalDestination] ruleExternalSend ev
          else ev
      | Some (UpdateResourceAccess p) \<Rightarrow>
          if isHighImpactVisibilityExpansion (access_currentScope p) (access_requestedScope p)
          then add_rule [ReasonDelegatorApprovalRequired, ReasonVisibilityExpansion] ruleVisibilityExpand ev
          else ev
      | Some (Delete p) \<Rightarrow>
          if delete_mode p = DeleteHard \<or> \<not> delete_recoverable p
          then add_rule [ReasonDelegatorApprovalRequired, ReasonDestructiveOperation] ruleDestructiveDelete ev
          else ev
      | None \<Rightarrow> ev)"

fun containsClassification :: "string list \<Rightarrow> string \<Rightarrow> bool" where
  "containsClassification [] target = False"
| "containsClassification (value # values) target =
     (if value = target then True else containsClassification values target)"

definition embedded_Evaluate :: "ProposedAction \<Rightarrow> PolicyEvaluation res" where
  "embedded_Evaluate action =
     (let empty = \<lparr>DenyReasonCodes = [], Effects = [], MatchedRuleIDs = [], PolicyVersion = embedded_Version\<rparr>;
          evidence = action_evidence action;
          ev = (if evidence \<noteq> [] \<and> \<not> hasMatchingRuntimeEvidence action evidence
                then add_rule [ReasonActorNotAuthorized] rulePermissionMismatch empty
                else evaluateActionRules action evidence empty)
      in if containsClassification (payload_classification (action_payload action)) ''SECRET'' then
           res_bind (NewSafetyReviewRequirement SafetyReviewHigh (map evidence_id evidence)) (\<lambda>req.
           res_bind (NewCreateSafetyReviewEffect req) (\<lambda>effect.
             Inr (ev\<lparr>Effects := Effects ev @ [Some (CreateSafetyReviewEffect effect)],
                     MatchedRuleIDs := MatchedRuleIDs ev @ [ruleSecretReview]\<rparr>)))
         else Inr ev)"

lemma containsClassification_iff [simp]: "containsClassification vs t \<longleftrightarrow> t \<in> set vs"
  by (induction vs) auto

lemma hasMatchingRuntimeEvidence_iff:
  "hasMatchingRuntimeEvidence a es \<longleftrightarrow>
     (\<exists>e \<in> set es. principal_typ (evidence_issuedBy e) = PrincipalRuntime \<and>
        principal_id (evidence_issuedBy e) = runtimeID (action_actor a) \<and> scopeMatchesAction (evidence_scope e) a)"
  by (induction es) (auto simp: Let_def)

text \<open>
  The reasons of the embedded policy as a function of the action, and the single error of the
  evaluator: a \<^verbatim>\<open>SECRET\<close> payload with two pieces of evidence that share an identifier.
\<close>

definition evidence_covers :: "ProposedAction \<Rightarrow> AuthorizationEvidence \<Rightarrow> bool" where
  "evidence_covers a e \<longleftrightarrow>
     evidence_issuedBy e = \<lparr>principal_typ = PrincipalRuntime, principal_id = runtimeID (action_actor a)\<rparr> \<and>
     scope_actionType (evidence_scope e) = action_typ a \<and>
     (\<exists>p. action_parameters a = Some p \<and>
        (case p of
           ExternalSend q \<Rightarrow> scope_destinationScope (evidence_scope e) = send_destinationScope q
         | UpdateResourceAccess q \<Rightarrow> scope_requestedScope (evidence_scope e) = access_requestedScope q
         | Delete q \<Rightarrow> scope_deleteMode (evidence_scope e) = delete_mode q))"

definition evidence_mismatch :: "ProposedAction \<Rightarrow> bool" where
  "evidence_mismatch a \<longleftrightarrow> action_evidence a \<noteq> [] \<and> \<not> list_ex (evidence_covers a) (action_evidence a)"

definition high_impact :: "ProposedAction \<Rightarrow> ReasonCode option" where
  "high_impact a =
     (case action_parameters a of
        Some (ExternalSend p) \<Rightarrow>
          if send_destinationScope p = DestinationExternal \<and> action_evidence a = []
          then Some ReasonExternalDestination else None
      | Some (UpdateResourceAccess p) \<Rightarrow>
          if access_currentScope p = AccessPrivate \<and> access_requestedScope p \<in> {AccessWorkspace, AccessPublic}
          then Some ReasonVisibilityExpansion else None
      | Some (Delete p) \<Rightarrow>
          if delete_mode p = DeleteHard \<or> \<not> delete_recoverable p then Some ReasonDestructiveOperation else None
      | None \<Rightarrow> None)"

definition embedded_reasons :: "ProposedAction \<Rightarrow> ReasonCode list" where
  "embedded_reasons a =
     (if evidence_mismatch a then [ReasonActorNotAuthorized]
      else case high_impact a of None \<Rightarrow> [] | Some r \<Rightarrow> [ReasonDelegatorApprovalRequired, r])"

definition secret_payload :: "ProposedAction \<Rightarrow> bool" where
  "secret_payload a \<longleftrightarrow> ''SECRET'' \<in> set (payload_classification (action_payload a))"

lemma hasMatchingRuntimeEvidence_covers:
  "hasMatchingRuntimeEvidence a es \<longleftrightarrow> list_ex (evidence_covers a) es"
proof -
  have "scopeMatchesAction (evidence_scope e) a \<and> principal_typ (evidence_issuedBy e) = PrincipalRuntime \<and>
      principal_id (evidence_issuedBy e) = runtimeID (action_actor a) \<longleftrightarrow> evidence_covers a e" for e
    by (cases "evidence_issuedBy e")
      (auto simp: evidence_covers_def scopeMatchesAction_def split: option.splits ActionParameters.splits)
  then show ?thesis unfolding hasMatchingRuntimeEvidence_iff list_ex_iff by blast
qed

lemma evaluateActionRules_reasons:
  "es = action_evidence a \<Longrightarrow> DenyReasonCodes (evaluateActionRules a es ev) =
     DenyReasonCodes ev @ (case high_impact a of None \<Rightarrow> [] | Some r \<Rightarrow> [ReasonDelegatorApprovalRequired, r])"
  by (auto simp: evaluateActionRules_def high_impact_def isHighImpactVisibilityExpansion_def add_rule_def
      split: option.splits ActionParameters.splits)

lemma evaluateActionRules_frame [simp]:
  "Effects (evaluateActionRules a es ev) = Effects ev"
  "PolicyVersion (evaluateActionRules a es ev) = PolicyVersion ev"
  by (auto simp: evaluateActionRules_def add_rule_def split: option.splits ActionParameters.splits)

lemma SafetyReviewHigh_valid [simp]: "SafetyReviewPriority_Valid SafetyReviewHigh"
  by (simp add: SafetyReviewPriority_Valid_def)

lemma safety_review_effect:
  assumes "distinct refs" "\<forall>r \<in> set refs. TrimSpace r \<noteq> []"
  shows "res_bind (NewSafetyReviewRequirement SafetyReviewHigh refs) NewCreateSafetyReviewEffect =
    Inr \<lparr>requirement = \<lparr>review_priority = SafetyReviewHigh, review_evidenceRefs = refs\<rparr>\<rparr>"
proof -
  have "NewSafetyReviewRequirement SafetyReviewHigh refs =
      Inr \<lparr>review_priority = SafetyReviewHigh, review_evidenceRefs = refs\<rparr>"
    using assms by (simp add: NewSafetyReviewRequirement_Inr_iff)
  then show ?thesis by (simp add: NewCreateSafetyReviewEffect_def CreateSafetyReview_validate_def)
qed

lemma safety_review_error:
  assumes "\<not> distinct refs"
  shows "\<exists>e. NewSafetyReviewRequirement SafetyReviewHigh refs = Inl e"
  using assms by (metis NewSafetyReviewRequirement_Inr_iff sum.exhaust)

lemma embedded_Evaluate_ok:
  assumes "wf_action a" "secret_payload a \<Longrightarrow> distinct (map evidence_id (action_evidence a))"
  shows "\<exists>ev. embedded_Evaluate a = Inr ev \<and> DenyReasonCodes ev = embedded_reasons a \<and>
    PolicyVersion ev = embedded_Version \<and>
    Effects ev = (if secret_payload a
      then [Some (CreateSafetyReviewEffect \<lparr>requirement = \<lparr>review_priority = SafetyReviewHigh,
              review_evidenceRefs = map evidence_id (action_evidence a)\<rparr>\<rparr>)] else [])"
proof -
  let ?refs = "map evidence_id (action_evidence a)"
  have "\<forall>r \<in> set ?refs. TrimSpace r \<noteq> []"
    using assms(1) by (auto simp: wf_action_def wf_evidence_list_def wf_evidence_def list_all_iff)
  note sr = safety_review_effect [OF _ this]
  then have "\<exists>req. NewSafetyReviewRequirement SafetyReviewHigh ?refs = Inr req \<and>
      NewCreateSafetyReviewEffect req =
        Inr \<lparr>requirement = \<lparr>review_priority = SafetyReviewHigh, review_evidenceRefs = ?refs\<rparr>\<rparr>"
    if "secret_payload a" using assms(2) that by (simp add: res_bind_Inr_iff)
  then show ?thesis
    by (auto simp: embedded_Evaluate_def Let_def secret_payload_def [symmetric] embedded_reasons_def
        evidence_mismatch_def hasMatchingRuntimeEvidence_covers evaluateActionRules_reasons add_rule_def)
qed

lemma embedded_Evaluate_error:
  assumes "secret_payload a" "\<not> distinct (map evidence_id (action_evidence a))"
  shows "\<exists>e. embedded_Evaluate a = Inl e"
  using safety_review_error [OF assms(2)] assms(1)
  by (auto simp: embedded_Evaluate_def Let_def secret_payload_def)

lemma embedded_compose:
  assumes "DenyReasonCodes ev = embedded_reasons a"
  shows "Compose ev = Inr (compose_spec (embedded_reasons a))"
proof -
  have "r = ReasonExternalDestination \<or> r = ReasonVisibilityExpansion \<or> r = ReasonDestructiveOperation"
    if "high_impact a = Some r" for r
    using that by (auto simp: high_impact_def split: option.splits ActionParameters.splits if_splits)
  then show ?thesis
    using assms by (auto simp: Compose_eq embedded_reasons_def ReasonCode_Valid_def split: option.splits)
qed

end
