(* ===== verification/Serialization.thy ===== *)
theory Serialization
  imports Wire Policy
begin

text \<open>
  The encoding of evaluations into ledger rows and back
  (\<^verbatim>\<open>internal/storage/sqlite/serialization.go\<close>). The main results: an action decoded from its
  canonical bytes is the action, a decision decoded from its columns is the decision, and encoding
  succeeds exactly on the evaluations that satisfy the listed conditions.
\<close>

section \<open>Decoding\<close>

record persistedAction =
  persisted_schema :: string
  persisted_type :: ActionType
  persisted_requestedAt :: string
  persisted_actor :: Actor
  persisted_delegation :: Delegation
  persisted_target :: Target
  persisted_parameters :: "json option"
  persisted_payload :: PayloadFacts
  persisted_evidence :: "AuthorizationEvidence list"

definition zero_persistedAction :: persistedAction where
  "zero_persistedAction =
     \<lparr>persisted_schema = [], persisted_type = [], persisted_requestedAt = [], persisted_actor = zero_actor,
      persisted_delegation = zero_delegation, persisted_target = zero_target, persisted_parameters = None,
      persisted_payload = zero_payload, persisted_evidence = []\<rparr>"

definition dec_persistedAction :: "persistedAction decoder" where
  "dec_persistedAction = dec_struct False
     [field ''schema'' dec_string persisted_schema persisted_schema_update,
      field ''type'' dec_string persisted_type persisted_type_update,
      field ''requestedAt'' dec_string persisted_requestedAt persisted_requestedAt_update,
      field ''actor'' (dec_actor False) persisted_actor persisted_actor_update,
      field ''delegation'' (dec_delegation ''id'' False) persisted_delegation persisted_delegation_update,
      field ''target'' (dec_target False) persisted_target persisted_target_update,
      field ''parameters'' dec_raw persisted_parameters persisted_parameters_update,
      field ''payload'' (dec_payload False) persisted_payload persisted_payload_update,
      field ''authorizationEvidence'' (dec_slice zero_evidence (dec_evidence False))
        persisted_evidence persisted_evidence_update]"

definition decodePrincipal :: "Principal \<Rightarrow> Principal res" where
  "decodePrincipal v = res_bind (ParsePrincipalType (principal_typ v)) (\<lambda>typ. NewPrincipal typ (principal_id v))"

text \<open>A raw message is unmarshalled again; an absent one is the empty input, a syntax error.\<close>

definition unmarshal_raw :: "'a decoder \<Rightarrow> json option \<Rightarrow> 'a \<Rightarrow> 'a res" where
  "unmarshal_raw dec raw old = (case raw of None \<Rightarrow> Inl [] | Some j \<Rightarrow> dec j old)"

definition decodeParameters :: "ActionType \<Rightarrow> json option \<Rightarrow> ActionParameters res" where
  "decodeParameters typ raw =
     (if typ = ActionExternalSend then
        res_bind (unmarshal_raw (dec_send False) raw zero_send) (\<lambda>stored.
        res_bind (NewExternalSendParameters (send_destinationScope stored) (send_recipients stored)) (\<lambda>p.
          Inr (ExternalSend p)))
      else if typ = ActionUpdateResourceAccess then
        res_bind (unmarshal_raw (dec_access False) raw zero_access) (\<lambda>stored.
        res_bind (res_mapM decodePrincipal (access_targetPrincipals stored)) (\<lambda>principals.
        res_bind (NewUpdateResourceAccessParameters (access_currentScope stored) (access_requestedScope stored)
          principals) (\<lambda>p. Inr (UpdateResourceAccess p))))
      else if typ = ActionDelete then
        res_bind (unmarshal_raw (dec_delete False) raw zero_delete) (\<lambda>stored.
        res_bind (NewDeleteParameters (delete_mode stored) (delete_recoverable stored)) (\<lambda>p. Inr (Delete p)))
      else Inl [])"

definition decodeEvidence :: "AuthorizationEvidence \<Rightarrow> AuthorizationEvidence res" where
  "decodeEvidence item =
     res_bind (decodePrincipal (evidence_issuedBy item)) (\<lambda>issuer.
     res_bind (let s = evidence_scope item in
       NewAuthorizationScope (scope_actionType s) (scope_destinationScope s) (scope_requestedScope s)
         (scope_deleteMode s)) (\<lambda>scope.
     res_bind (ParseAuthorizationEvidenceType (evidence_typ item)) (\<lambda>evidenceType.
       NewAuthorizationEvidence evidenceType (evidence_id item) issuer scope)))"

definition decodeAction :: "string \<Rightarrow> ProposedAction res" where
  "decodeAction bytes =
     res_bind (json_unmarshal dec_persistedAction bytes zero_persistedAction) (\<lambda>stored.
     if persisted_schema stored \<noteq> CanonicalActionSchemaV1 then Inl []
     else
       res_bind (time_Parse (persisted_requestedAt stored)) (\<lambda>requestedAt.
       res_bind (let a = persisted_actor stored in NewActor (agentID a) (runtimeID a) (sessionID a)) (\<lambda>actor.
       res_bind (decodePrincipal (delegator (persisted_delegation stored))) (\<lambda>delegator.
       res_bind (NewDelegation (delegation_id (persisted_delegation stored)) delegator) (\<lambda>delegation.
       res_bind (NewTarget (resourceType (persisted_target stored)) (resourceID (persisted_target stored))) (\<lambda>target.
       res_bind (decodeParameters (persisted_type stored) (persisted_parameters stored)) (\<lambda>parameters.
       res_bind (ParsePayloadDigest (payload_digest (persisted_payload stored))) (\<lambda>payloadDigest.
       res_bind (NewPayloadFacts payloadDigest (payload_classification (persisted_payload stored))
         (payload_sizeBytes (persisted_payload stored))) (\<lambda>payload.
       res_bind (res_mapM decodeEvidence (persisted_evidence stored)) (\<lambda>evidence.
         NewProposedAction (persisted_type stored) requestedAt actor delegation target (Some parameters)
           payload evidence))))))))))"

definition decodeDecision :: "string \<Rightarrow> string \<Rightarrow> string \<Rightarrow> Decision res" where
  "decodeDecision typ reasonsJSON requiredActionsJSON =
     res_bind (ParseDecisionType typ) (\<lambda>decisionType.
     res_bind (json_unmarshal (dec_slice [] dec_string) reasonsJSON []) (\<lambda>reasonValues.
     res_bind (res_mapM ParseReasonCode reasonValues) (\<lambda>reasons.
     res_bind (json_unmarshal (dec_slice [] dec_string) requiredActionsJSON []) (\<lambda>requiredActionValues.
     res_bind (res_mapM ParseRequiredActionType requiredActionValues) (\<lambda>types.
       let required = map (\<lambda>_. NewRequireApprovalAction) (filter (\<lambda>t. t = RequiredActionRequireApproval) types)
       in if decisionType = DecisionAllow then
            (if reasons \<noteq> [] \<or> required \<noteq> [] then Inl [] else Inr NewAllowDecision)
          else NewDenyDecision reasons required)))))"

definition validateStrings :: "string list \<Rightarrow> unit res" where
  "validateStrings values = guard_res (list_all (\<lambda>v. TrimSpace v \<noteq> []) values) [Application ErrInvalidInput]"

section \<open>Encoding\<close>

definition policyEffectIdempotencyKey :: "string \<Rightarrow> string \<Rightarrow> PolicyEffectType \<Rightarrow> string" where
  "policyEffectIdempotencyKey rid qid typ =
     sha256_text (json_print (jstrings [rid, qid, typ]))"

record encodedPolicyEffect =
  enc_effectID :: string
  enc_typ :: PolicyEffectType
  enc_contextJSON :: string
  enc_idempotencyKey :: string

record encodedEvaluation =
  enc_actionJSON :: string
  enc_reasonCodesJSON :: string
  enc_requiredActionsJSON :: string
  enc_matchedRuleIDsJSON :: string
  enc_effects :: "encodedPolicyEffect list"

definition safetyReviewContext :: "SafetyReviewRequirement \<Rightarrow> json" where
  "safetyReviewContext req =
     JObj [(''priority'', jstring (review_priority req)), (''evidenceRefs'', jstrings_or_null (review_evidenceRefs req))]"

text \<open>
  \<^verbatim>\<open>record.Effect.Type()\<close> has a value receiver: on the nil pointer the call panics, before the nil
  check of the type switch is reached.
\<close>

fun effect_requirement :: "PolicyEffect \<Rightarrow> SafetyReviewRequirement option" where
  "effect_requirement (CreateSafetyReviewEffect e) = Some (requirement e)"
| "effect_requirement (CreateSafetyReviewPtr None) = None"
| "effect_requirement (CreateSafetyReviewPtr (Some e)) = Some (requirement e)"

fun encodeEffectsLoop ::
    "string \<Rightarrow> string \<Rightarrow> string list \<Rightarrow> PolicyEffectType list \<Rightarrow> PolicyEffectCommit list \<Rightarrow> encodedPolicyEffect list res" where
  "encodeEffectsLoop rid qid seenIDs seenTypes [] = Inr []"
| "encodeEffectsLoop rid qid seenIDs seenTypes (item # items) =
     (let effectID = TrimSpace (EffectID item) in
      case Effect item of
        None \<Rightarrow> Inl [Application ErrInvalidInput]
      | Some effect \<Rightarrow>
          if effectID = [] then Inl [Application ErrInvalidInput]
          else if effectID \<in> set seenIDs then Inl [Application ErrInvalidInput]
          else (case effect_requirement effect of
            None \<Rightarrow> Inl [RuntimePanic]
          | Some req \<Rightarrow>
              let typ = PolicyEffectCreateSafetyReview in
              if \<not> PolicyEffectType_Valid typ then Inl [Application ErrInvalidInput]
              else if typ \<in> set seenTypes then Inl [Application ErrInvalidInput]
              else res_bind (encodeEffectsLoop rid qid (effectID # seenIDs) (typ # seenTypes) items)
                (\<lambda>rest. Inr (\<lparr>enc_effectID = effectID, enc_typ = typ,
                    enc_contextJSON = json_print (safetyReviewContext req),
                    enc_idempotencyKey = policyEffectIdempotencyKey rid qid typ\<rparr> # rest))))"

definition encodeEffects :: "EvaluationCommit \<Rightarrow> encodedPolicyEffect list res" where
  "encodeEffects commit =
     encodeEffectsLoop (commit_RuntimeID commit) (commit_RequestID commit) [] [] (commit_Effects commit)"

definition encodeEvaluation :: "EvaluationCommit \<Rightarrow> encodedEvaluation res" where
  "encodeEvaluation commit =
     (let invalid = [Application ErrInvalidInput] in
      if TrimSpace (commit_RuntimeID commit) = [] \<or> TrimSpace (commit_RequestID commit) = [] then Inl invalid
      else if runtimeID (action_actor (commit_Action commit)) \<noteq> commit_RuntimeID commit then Inl invalid
      else
        res_bind (res_replace invalid (ComputeActionDigest (commit_Action commit))) (\<lambda>computedDigest.
        if \<not> ActionDigest_Valid (commit_ActionDigest commit) \<or> computedDigest \<noteq> commit_ActionDigest commit
        then Inl invalid
        else if TrimSpace (commit_DecisionID commit) = [] \<or> \<not> DecisionType_Valid (decision_typ (commit_Decision commit))
        then Inl invalid
        else if TrimSpace (commit_PolicyVersion commit) = [] \<or> Time_IsZero (commit_EvaluatedAt commit) then Inl invalid
        else
          res_bind (validateStrings (commit_MatchedRuleIDs commit)) (\<lambda>_.
          res_bind (res_replace invalid (CanonicalActionBytes (commit_Action commit))) (\<lambda>actionJSON.
          if \<not> list_all ReasonCode_Valid (reasonCodes (commit_Decision commit)) then Inl invalid
          else if \<not> list_all (\<lambda>a. RequiredActionType_Valid (required_typ a)) (requiredActions (commit_Decision commit))
          then Inl invalid
          else
            res_bind (encodeEffects commit) (\<lambda>effects.
              Inr \<lparr>enc_actionJSON = actionJSON,
                   enc_reasonCodesJSON = json_print (jstrings (reasonCodes (commit_Decision commit))),
                   enc_requiredActionsJSON =
                     json_print (jstrings (map required_typ (requiredActions (commit_Decision commit)))),
                   enc_matchedRuleIDsJSON = json_print (jstrings (commit_MatchedRuleIDs commit)),
                   enc_effects = effects\<rparr>)))))"

section \<open>Round trips\<close>

lemma ascii_pad_nat: "c \<in> set (pad_nat w n) \<Longrightarrow> byte c < 128"
  using nat_dec_digits by (fastforce simp: pad_nat_def is_digit_def)

lemma ascii_appendInt: "c \<in> set (appendInt x w) \<Longrightarrow> byte c < 128"
  using ascii_pad_nat by (auto simp: appendInt_def split: if_splits)

lemma ascii_format_seconds: "c \<in> set (format_seconds v) \<Longrightarrow> byte c < 128"
  using ascii_pad_nat ascii_appendInt by (auto simp: format_seconds_def)

lemma valid_utf8_format_canonical [simp]: "valid_utf8 (format_canonical t)"
  using ascii_format_seconds ascii_appendInt by (intro valid_utf8_literals) (auto simp: format_canonical_def Let_def)

lemma json_ok_canonicalAction:
  assumes "utf8_action a" "action_parameters a = Some p" "canonicalParameters (Some p) = Inr params"
  shows "json_ok (canonicalAction a params)" "json_depth (canonicalAction a params) \<le> max_nesting"
proof -
  have params: "json_ok params" "json_depth params \<le> 3"
    using json_ok_parameters [OF _ assms(3)] assms(1,2) by (simp_all add: utf8_action_def)
  then show "json_ok (canonicalAction a params)"
    using assms by (simp add: canonicalAction_def utf8_action_def canonicalActor_def canonicalDelegation_def
        canonicalTarget_def CanonicalActionSchemaV1_def list_all_iff)
  have "json_depth params \<le> max_nesting - 1" using params by (simp add: max_nesting_def)
  then show "json_depth (canonicalAction a params) \<le> max_nesting"
    by (simp add: canonicalAction_def canonicalActor_def canonicalDelegation_def canonicalTarget_def list_all_iff
        max_nesting_def)
qed

lemma dec_persistedAction_canonical:
  assumes "utf8_action a"
  shows "dec_persistedAction (canonicalAction a params) zero_persistedAction =
    Inr \<lparr>persisted_schema = CanonicalActionSchemaV1, persisted_type = action_typ a,
         persisted_requestedAt = format_canonical (Time_UTC (action_requestedAt a)),
         persisted_actor = action_actor a, persisted_delegation = action_delegation a,
         persisted_target = action_target a, persisted_parameters = Some params,
         persisted_payload = action_payload a, persisted_evidence = action_evidence a\<rparr>"
  using assms
  by (simp add: dec_persistedAction_def canonicalAction_def zero_persistedAction_def dec_struct_defs
      utf8_action_def CanonicalActionSchemaV1_def dec_raw_def)

lemma decodePrincipal_wf [simp]: "wf_principal p \<Longrightarrow> decodePrincipal p = Inr p"
  by (simp add: decodePrincipal_def ParsePrincipalType_def NewPrincipal_rebuild wf_principal_def)

lemma decodePrincipals_wf: "list_all wf_principal ps \<Longrightarrow> res_mapM decodePrincipal ps = Inr ps"
  using res_mapM_cong_Inr [of ps decodePrincipal "\<lambda>p. p"] by (simp add: list_all_iff)

lemma decodeEvidence_wf: "wf_evidence e \<Longrightarrow> decodeEvidence e = Inr e"
proof -
  assume wf: "wf_evidence e"
  then have "ParseAuthorizationEvidenceType (evidence_typ e) = Inr (evidence_typ e)"
    by (simp add: ParseAuthorizationEvidenceType_Inr_iff upper_trim_evidence_consts wf_evidence_def)
  with wf show ?thesis using NewAuthorizationEvidence_rebuild [OF wf]
    by (simp add: decodeEvidence_def wf_evidence_def NewAuthorizationScope_rebuild del: wf_scope.simps)
qed

lemma decodeParameters_canonical:
  assumes wf: "wf_parameters p" and utf8: "utf8_parameters p" and j: "canonicalParameters (Some p) = Inr j"
  shows "decodeParameters (ActionParameters_ActionType p) (Some j) = Inr p"
proof (cases p)
  case (ExternalSend q)
  have "dec_send False j zero_send = Inr q" using dec_parameters_canonical(1) utf8 j ExternalSend by blast
  moreover have "NewExternalSendParameters (send_destinationScope q) (send_recipients q) = Inr q"
    using parameters_rebuild(1) wf ExternalSend by blast
  ultimately show ?thesis by (simp add: ExternalSend decodeParameters_def unmarshal_raw_def)
next
  case (UpdateResourceAccess q)
  have "dec_access False j zero_access = Inr q"
    using dec_parameters_canonical(2) utf8 j UpdateResourceAccess by blast
  moreover have "res_mapM decodePrincipal (access_targetPrincipals q) = Inr (access_targetPrincipals q)"
    using wf UpdateResourceAccess by (simp add: decodePrincipals_wf wf_principals_def)
  moreover have "NewUpdateResourceAccessParameters (access_currentScope q) (access_requestedScope q)
      (access_targetPrincipals q) = Inr q"
    using parameters_rebuild(2) wf UpdateResourceAccess by blast
  ultimately show ?thesis
    by (simp add: UpdateResourceAccess decodeParameters_def unmarshal_raw_def action_type_defs)
next
  case (Delete q)
  have "dec_delete False j zero_delete = Inr q" using dec_parameters_canonical(3) utf8 j Delete by blast
  moreover have "NewDeleteParameters (delete_mode q) (delete_recoverable q) = Inr q"
    using parameters_rebuild(3) wf Delete by blast
  ultimately show ?thesis by (simp add: Delete decodeParameters_def unmarshal_raw_def action_type_defs)
qed

lemma decodeAction_canonical:
  assumes "wf_action a" "utf8_action a" "rfc3339_time (action_requestedAt a)" "CanonicalActionBytes a = Inr b"
  shows "decodeAction b = Inr a"
proof -
  obtain p where p: "action_parameters a = Some p" "wf_parameters p" "ActionParameters_ActionType p = action_typ a"
    using assms(1) by (auto simp: wf_action_def)
  obtain params where params: "canonicalParameters (Some p) = Inr params"
      "b = json_print (canonicalAction a params)"
    using CanonicalActionBytes_wf [OF assms(1)] p(1) assms(4) by auto
  have utf8: "utf8_parameters p" using assms(2) p(1) by (simp add: utf8_action_def)
  have utc: "utc_time (action_requestedAt a)" using assms(3) by (simp add: rfc3339_time_def)
  have time: "time_Parse (format_canonical (action_requestedAt a)) = Inr (action_requestedAt a)"
    using parse_format_canonical [OF assms(3)] by (simp add: time_Parse_def)
  have dp: "decodeParameters (action_typ a) (Some params) = Inr p"
    using decodeParameters_canonical [OF p(2) utf8 params(1)] p(3) by simp
  have evidence: "res_mapM decodeEvidence (action_evidence a) = Inr (action_evidence a)"
    using res_mapM_cong_Inr [of "action_evidence a" decodeEvidence "\<lambda>e. e"] decodeEvidence_wf assms(1)
    by (simp add: wf_action_def wf_evidence_list_def list_all_iff)
  have payload: "ParsePayloadDigest (payload_digest (action_payload a)) = Inr (payload_digest (action_payload a))"
    "NewPayloadFacts (payload_digest (action_payload a)) (payload_classification (action_payload a))
       (payload_sizeBytes (action_payload a)) = Inr (action_payload a)"
    using assms(1) NewPayloadFacts_rebuild [of "action_payload a"]
    by (auto simp: wf_action_def wf_payload_def ParsePayloadDigest_Inr_iff)
  have "decodeAction b = NewProposedAction (action_typ a) (action_requestedAt a) (action_actor a)
      (action_delegation a) (action_target a) (Some p) (action_payload a) (action_evidence a)"
    using assms(1) json_ok_canonicalAction [OF assms(2) p(1) params(1)] dec_persistedAction_canonical [OF assms(2)]
      time dp evidence payload
    by (simp add: decodeAction_def params(2) json_unmarshal_print wf_action_def Time_UTC_id utc
        NewActor_rebuild NewDelegation_rebuild NewTarget_rebuild wf_delegation_def)
  with NewProposedAction_rebuild [OF assms(1)] p(1) show ?thesis by simp
qed

lemma valid_utf8_reason: "ReasonCode_Valid r \<Longrightarrow> valid_utf8 r"
  by (intro valid_utf8_literals) (auto simp: ReasonCode_Valid_def reason_defs)

lemma unmarshal_jstrings:
  assumes "list_all valid_utf8 xs"
  shows "json_unmarshal (dec_slice [] dec_string) (json_print (jstrings xs)) old = Inr xs"
  using assms by (simp add: json_unmarshal_print max_nesting_def)

lemma decodeDecision_encoded:
  assumes "wf_decision d"
  shows "decodeDecision (decision_typ d) (json_print (jstrings (reasonCodes d)))
    (json_print (jstrings (map required_typ (requiredActions d)))) = Inr d"
proof -
  have valid: "list_all ReasonCode_Valid (reasonCodes d)" using assms by (auto simp: wf_decision_def)
  have reasons: "res_mapM ParseReasonCode (reasonCodes d) = Inr (reasonCodes d)"
    using res_mapM_cong_Inr [of "reasonCodes d" ParseReasonCode "\<lambda>r. r"] valid
    by (simp add: ParseReasonCode_def list_all_iff)
  have utf8: "list_all valid_utf8 (reasonCodes d)" using valid valid_utf8_reason by (auto simp: list_all_iff)
  have required: "requiredActions d = [] \<or> requiredActions d = [NewRequireApprovalAction]"
    using assms by (auto simp: wf_decision_def)
  have kind: "decision_typ d = DecisionAllow \<and> d = NewAllowDecision \<or> decision_typ d = DecisionDeny"
    using assms by (cases d) (auto simp: wf_decision_def NewAllowDecision_def)
  have "list_all valid_utf8 (map required_typ (requiredActions d))"
    using required by (auto simp: NewRequireApprovalAction_def RequiredActionRequireApproval_def)
  with utf8 reasons show ?thesis
    using required kind NewDenyDecision_rebuild [OF assms]
    by (auto simp: decodeDecision_def unmarshal_jstrings ParseDecisionType_def DecisionType_Valid_def
        ParseRequiredActionType_def RequiredActionType_Valid_def NewRequireApprovalAction_def
        DecisionAllow_def DecisionDeny_def NewAllowDecision_def)
qed

text \<open>What a successful encoding tells about the evaluation.\<close>

lemma encodeEvaluation_Inr_iff:
  "encodeEvaluation c = Inr e \<longleftrightarrow>
     TrimSpace (commit_RuntimeID c) \<noteq> [] \<and> TrimSpace (commit_RequestID c) \<noteq> [] \<and>
     runtimeID (action_actor (commit_Action c)) = commit_RuntimeID c \<and>
     ComputeActionDigest (commit_Action c) = Inr (commit_ActionDigest c) \<and>
     TrimSpace (commit_DecisionID c) \<noteq> [] \<and> DecisionType_Valid (decision_typ (commit_Decision c)) \<and>
     TrimSpace (commit_PolicyVersion c) \<noteq> [] \<and> \<not> Time_IsZero (commit_EvaluatedAt c) \<and>
     list_all (\<lambda>v. TrimSpace v \<noteq> []) (commit_MatchedRuleIDs c) \<and>
     list_all ReasonCode_Valid (reasonCodes (commit_Decision c)) \<and>
     list_all (\<lambda>a. RequiredActionType_Valid (required_typ a)) (requiredActions (commit_Decision c)) \<and>
     CanonicalActionBytes (commit_Action c) = Inr (enc_actionJSON e) \<and>
     enc_reasonCodesJSON e = json_print (jstrings (reasonCodes (commit_Decision c))) \<and>
     enc_requiredActionsJSON e = json_print (jstrings (map required_typ (requiredActions (commit_Decision c)))) \<and>
     enc_matchedRuleIDsJSON e = json_print (jstrings (commit_MatchedRuleIDs c)) \<and>
     encodeEffects c = Inr (enc_effects e)"
  by (cases e) (auto simp: encodeEvaluation_def Let_def res_simps validateStrings_def ComputeActionDigest_valid
      dest: ComputeActionDigest_valid)

text \<open>A nil effect pointer panics although a branch for it exists.\<close>

lemma encodeEffects_nil_pointer:
  assumes "commit_Effects c = [\<lparr>EffectID = i, Effect = Some (CreateSafetyReviewPtr None)\<rparr>]" "TrimSpace i \<noteq> []"
  shows "encodeEffects c = Inl [RuntimePanic]"
  using assms by (simp add: encodeEffects_def)

end
