(* ===== verification/Normalizer.thy ===== *)
theory Normalizer
  imports Serialization "HOL-Library.Multiset"
begin

text \<open>
  From caller-supplied action data to a normalised action
  (\<^verbatim>\<open>internal/application/action_normalizer.go\<close>, \<^verbatim>\<open>runtime_context.go\<close>). The identity of the runtime comes
  from the authenticated caller only; every successful result is in normal form, normalising it again
  changes nothing, and the order of recipients, principals and evidence does not matter.
\<close>

section \<open>Authenticated runtimes (runtime\_context.go)\<close>

record AuthenticatedRuntime =
  authenticated_runtimeID :: string

definition NewAuthenticatedRuntime :: "string \<Rightarrow> AuthenticatedRuntime res" where
  "NewAuthenticatedRuntime rid =
     (let trimmed = TrimSpace rid in
      if trimmed = [] then Inl [Application ErrInvalidInput]
      else if 256 < length trimmed then Inl [Application ErrInvalidInput]
      else Inr \<lparr>authenticated_runtimeID = trimmed\<rparr>)"

definition wf_runtime :: "AuthenticatedRuntime \<Rightarrow> bool" where
  "wf_runtime r \<longleftrightarrow> wf_identifier (authenticated_runtimeID r)"

lemma NewAuthenticatedRuntime_Inr_iff:
  "NewAuthenticatedRuntime s = Inr r \<longleftrightarrow> authenticated_runtimeID r = TrimSpace s \<and> wf_runtime r"
  by (cases r) (auto simp: NewAuthenticatedRuntime_def Let_def wf_runtime_def wf_identifier_def)

section \<open>Inputs\<close>

text \<open>
  The \<^verbatim>\<open>*Input\<close> structs have the fields of the domain values they become, before normalisation; the
  domain records carry both. \<^verbatim>\<open>ActionParametersInput\<close> is an interface with an unexported method: its
  implementations are the three structs and pointers to them, of which the type switch knows none and
  a nil one panics in \<^verbatim>\<open>actionType\<close>. A nil interface is \<open>None\<close>.
\<close>

type_synonym ActorInput = Actor
type_synonym PrincipalInput = Principal
type_synonym DelegationInput = Delegation
type_synonym TargetInput = Target
type_synonym PayloadInput = PayloadFacts
type_synonym AuthorizationScopeInput = AuthorizationScope
type_synonym AuthorizationEvidenceInput = AuthorizationEvidence

datatype ActionParametersInput =
    ExternalSendInput ExternalSendParameters
  | UpdateResourceAccessInput UpdateResourceAccessParameters
  | DeleteInput DeleteParameters
  | ParametersPointer "ActionType option"

record ProposedActionInput =
  input_Type :: ActionType
  input_RequestedAt :: Time
  input_Actor :: ActorInput
  input_Delegation :: DelegationInput
  input_Target :: TargetInput
  input_Parameters :: "ActionParametersInput option"
  input_Payload :: PayloadInput
  input_Evidence :: "AuthorizationEvidenceInput list"

section \<open>Normalisation\<close>

definition normalizePrincipal :: "PrincipalInput \<Rightarrow> Principal res" where
  "normalizePrincipal input = NewPrincipal (principal_typ input) (principal_id input)"

definition normalizeAuthorizationScope :: "AuthorizationScopeInput \<Rightarrow> AuthorizationScope res" where
  "normalizeAuthorizationScope input =
     (let typ = scope_actionType input in
      if typ = ActionExternalSend then
        res_bind (ParseDestinationScope (scope_destinationScope input)) (\<lambda>d. NewAuthorizationScope typ d [] [])
      else if typ = ActionUpdateResourceAccess then
        res_bind (ParseAccessScope (scope_requestedScope input)) (\<lambda>r. NewAuthorizationScope typ [] r [])
      else if typ = ActionDelete then
        res_bind (ParseDeleteMode (scope_deleteMode input)) (\<lambda>m. NewAuthorizationScope typ [] [] m)
      else Inl [Domain ErrInvalidActionType])"

definition normalizeEvidenceItem :: "AuthorizationEvidenceInput \<Rightarrow> AuthorizationEvidence res" where
  "normalizeEvidenceItem input =
     res_bind (ParseAuthorizationEvidenceType (evidence_typ input)) (\<lambda>typ.
     res_bind (normalizePrincipal (evidence_issuedBy input)) (\<lambda>issuer.
     res_bind (normalizeAuthorizationScope (evidence_scope input)) (\<lambda>scope.
       NewAuthorizationEvidence typ (evidence_id input) issuer scope)))"

definition normalizeEvidence :: "AuthorizationEvidenceInput list \<Rightarrow> AuthorizationEvidence list res" where
  "normalizeEvidence inputs = res_bind (res_mapM normalizeEvidenceItem inputs) NormalizeAuthorizationEvidence"

fun parametersInput_actionType :: "ActionParametersInput \<Rightarrow> ActionType option" where
  "parametersInput_actionType (ExternalSendInput _) = Some ActionExternalSend"
| "parametersInput_actionType (UpdateResourceAccessInput _) = Some ActionUpdateResourceAccess"
| "parametersInput_actionType (DeleteInput _) = Some ActionDelete"
| "parametersInput_actionType (ParametersPointer typ) = typ"

fun normalizeParametersValue :: "ActionParametersInput \<Rightarrow> ActionParameters res" where
  "normalizeParametersValue (ExternalSendInput v) =
     res_bind (ParseDestinationScope (send_destinationScope v)) (\<lambda>scope.
     res_bind (NewExternalSendParameters scope (send_recipients v)) (\<lambda>p. Inr (ExternalSend p)))"
| "normalizeParametersValue (UpdateResourceAccessInput v) =
     res_bind (ParseAccessScope (access_currentScope v)) (\<lambda>currentScope.
     res_bind (ParseAccessScope (access_requestedScope v)) (\<lambda>requestedScope.
     res_bind (res_mapM normalizePrincipal (access_targetPrincipals v)) (\<lambda>principals.
     res_bind (NewUpdateResourceAccessParameters currentScope requestedScope principals) (\<lambda>p.
       Inr (UpdateResourceAccess p)))))"
| "normalizeParametersValue (DeleteInput v) =
     res_bind (ParseDeleteMode (delete_mode v)) (\<lambda>mode.
     res_bind (NewDeleteParameters mode (delete_recoverable v)) (\<lambda>p. Inr (Delete p)))"
| "normalizeParametersValue (ParametersPointer _) = Inl [Domain ErrInvalidArgument]"

definition normalizeParameters :: "ActionType \<Rightarrow> ActionParametersInput option \<Rightarrow> ActionParameters res" where
  "normalizeParameters actionType input =
     (case input of
        None \<Rightarrow> Inl [Domain ErrInvalidArgument]
      | Some v \<Rightarrow>
          (case parametersInput_actionType v of
             None \<Rightarrow> Inl [RuntimePanic]
           | Some typ \<Rightarrow>
               if typ \<noteq> actionType then Inl [Domain ErrInvalidArgument] else normalizeParametersValue v))"

definition normalizeAction :: "AuthenticatedRuntime \<Rightarrow> ProposedActionInput \<Rightarrow> ProposedAction res" where
  "normalizeAction caller input =
     (let rid = authenticated_runtimeID caller;
          claimed = TrimSpace (runtimeID (input_Actor input)) in
      if rid = [] then Inl [Application ErrInvalidInput]
      else if claimed \<noteq> [] \<and> claimed \<noteq> rid then Inl [Application ErrRuntimeIdentityConflict]
      else
        res_bind (NewActor (agentID (input_Actor input)) rid (sessionID (input_Actor input))) (\<lambda>actor.
        res_bind (normalizePrincipal (delegator (input_Delegation input))) (\<lambda>delegator.
        res_bind (NewDelegation (delegation_id (input_Delegation input)) delegator) (\<lambda>delegation.
        res_bind (NewTarget (resourceType (input_Target input)) (resourceID (input_Target input))) (\<lambda>target.
        res_bind (normalizeParameters (input_Type input) (input_Parameters input)) (\<lambda>parameters.
        res_bind (ParsePayloadDigest (TrimSpace (payload_digest (input_Payload input)))) (\<lambda>digest.
        res_bind (NewPayloadFacts digest (payload_classification (input_Payload input))
          (payload_sizeBytes (input_Payload input))) (\<lambda>payload.
        res_bind (normalizeEvidence (input_Evidence input)) (\<lambda>evidence.
          NewProposedAction (input_Type input) (input_RequestedAt input) actor delegation target
            (Some parameters) payload evidence)))))))))"

definition Normalize :: "AuthenticatedRuntime \<Rightarrow> ProposedActionInput \<Rightarrow> ProposedAction res" where
  "Normalize caller input =
     (case normalizeAction caller input of
        Inl e \<Rightarrow>
          if errors_Is e RuntimePanic then Inl e
          else if \<not> errors_Is e (Application ErrInvalidInput) then Inl (Application ErrInvalidInput # e) else Inl e
      | Inr action \<Rightarrow> Inr action)"

section \<open>Results\<close>

lemma Normalize_Inr [simp]: "Normalize caller input = Inr a \<longleftrightarrow> normalizeAction caller input = Inr a"
  by (auto simp: Normalize_def split: sum.splits)

lemma Normalize_error:
  "Normalize caller input = Inl e \<Longrightarrow> errors_Is e (Application ErrInvalidInput) \<or> errors_Is e RuntimePanic"
  by (auto simp: Normalize_def errors_Is_def split: sum.splits if_splits)

lemma normalizePrincipal_wf: "normalizePrincipal i = Inr p \<Longrightarrow> wf_principal p"
  by (auto simp: normalizePrincipal_def NewPrincipal_Inr_iff wf_principal_def)

lemma normalizeScope_wf: "normalizeAuthorizationScope i = Inr s \<Longrightarrow> wf_scope s"
  by (auto simp: normalizeAuthorizationScope_def Let_def res_simps simp del: wf_scope.simps
      dest: wf_NewAuthorizationScope split: if_splits)

lemma normalizeEvidenceItem_wf: "normalizeEvidenceItem i = Inr e \<Longrightarrow> wf_evidence e"
  by (auto simp: normalizeEvidenceItem_def res_simps
      dest!: normalizePrincipal_wf normalizeScope_wf intro: wf_NewAuthorizationEvidence simp del: wf_scope.simps)

lemma normalizeParameters_wf:
  assumes "normalizeParameters typ i = Inr p"
  shows "wf_parameters p" "ActionParameters_ActionType p = typ"
proof -
  have "wf_parameters p \<and> ActionParameters_ActionType p = typ"
    using assms
    by (cases i; cases "the i")
      (auto simp: normalizeParameters_def res_simps list_all_iff simp del: wf_parameters.simps
        dest!: res_mapM_all [where P = wf_principal] normalizePrincipal_wf
        intro!: wf_NewExternalSendParameters wf_NewUpdateResourceAccessParameters wf_NewDeleteParameters
        split: if_splits option.splits)
  then show "wf_parameters p" "ActionParameters_ActionType p = typ" by auto
qed

lemma wf_evidence_normalized:
  assumes "normalizeEvidence i = Inr es"
  shows "list_all wf_evidence es"
proof -
  obtain ys where "res_mapM normalizeEvidenceItem i = Inr ys" "NormalizeAuthorizationEvidence ys = Inr es"
    using assms by (auto simp: normalizeEvidence_def res_simps)
  then show ?thesis
    using res_mapM_all [of normalizeEvidenceItem i ys wf_evidence] normalizeEvidenceItem_wf
      wf_NormalizeAuthorizationEvidence [of ys es]
    by (auto simp: wf_evidence_list_def list_all_iff)
qed

text \<open>The parts of a normalised action.\<close>

lemma normalizeAction_parts:
  assumes "normalizeAction caller input = Inr a"
  obtains actor del deleg target params digest payload evidence where
    "authenticated_runtimeID caller \<noteq> []"
    "TrimSpace (runtimeID (input_Actor input)) = [] \<or> TrimSpace (runtimeID (input_Actor input)) = authenticated_runtimeID caller"
    "NewActor (agentID (input_Actor input)) (authenticated_runtimeID caller) (sessionID (input_Actor input)) = Inr actor"
    "normalizePrincipal (delegator (input_Delegation input)) = Inr del"
    "NewDelegation (delegation_id (input_Delegation input)) del = Inr deleg"
    "NewTarget (resourceType (input_Target input)) (resourceID (input_Target input)) = Inr target"
    "normalizeParameters (input_Type input) (input_Parameters input) = Inr params"
    "ParsePayloadDigest (TrimSpace (payload_digest (input_Payload input))) = Inr digest"
    "NewPayloadFacts digest (payload_classification (input_Payload input)) (payload_sizeBytes (input_Payload input)) = Inr payload"
    "normalizeEvidence (input_Evidence input) = Inr evidence"
    "NewProposedAction (input_Type input) (input_RequestedAt input) actor deleg target (Some params) payload evidence = Inr a"
  using assms by (auto simp: normalizeAction_def Let_def res_simps split: if_splits)

lemma normalizeAction_wf:
  assumes "normalizeAction caller input = Inr a"
  shows "wf_action a" "runtimeID (action_actor a) = TrimSpace (authenticated_runtimeID caller)"
    "action_requestedAt a = Time_UTC (input_RequestedAt input)" "action_typ a = input_Type input"
proof -
  obtain actor del deleg target params digest payload evidence where parts:
    "NewActor (agentID (input_Actor input)) (authenticated_runtimeID caller) (sessionID (input_Actor input)) = Inr actor"
    "normalizePrincipal (delegator (input_Delegation input)) = Inr del"
    "NewDelegation (delegation_id (input_Delegation input)) del = Inr deleg"
    "NewTarget (resourceType (input_Target input)) (resourceID (input_Target input)) = Inr target"
    "normalizeParameters (input_Type input) (input_Parameters input) = Inr params"
    "NewPayloadFacts digest (payload_classification (input_Payload input)) (payload_sizeBytes (input_Payload input)) = Inr payload"
    "normalizeEvidence (input_Evidence input) = Inr evidence"
    "NewProposedAction (input_Type input) (input_RequestedAt input) actor deleg target (Some params) payload evidence = Inr a"
    using normalizeAction_parts [OF assms] by metis
  have actor: "wf_actor actor" "runtimeID actor = TrimSpace (authenticated_runtimeID caller)"
    using parts(1) by (auto simp: NewActor_Inr_iff)
  have "wf_delegation deleg" using parts(2,3) normalizePrincipal_wf by (auto simp: NewDelegation_Inr_iff wf_delegation_def)
  moreover have "wf_target target" using parts(4) by (auto simp: NewTarget_Inr_iff wf_target_def)
  ultimately show "wf_action a"
    using wf_NewProposedAction [OF parts(8) actor(1)] normalizeParameters_wf [OF parts(5)] wf_NewPayloadFacts [OF parts(6)]
      wf_evidence_normalized [OF parts(7)] by blast
  show "runtimeID (action_actor a) = TrimSpace (authenticated_runtimeID caller)"
    "action_requestedAt a = Time_UTC (input_RequestedAt input)" "action_typ a = input_Type input"
    using parts(8) actor by (auto simp: NewProposedAction_Inr_iff)
qed

text \<open>A normalised action, given in again as an input.\<close>

fun parameters_input :: "ActionParameters \<Rightarrow> ActionParametersInput" where
  "parameters_input (ExternalSend p) = ExternalSendInput p"
| "parameters_input (UpdateResourceAccess p) = UpdateResourceAccessInput p"
| "parameters_input (Delete p) = DeleteInput p"

definition action_input :: "ProposedAction \<Rightarrow> ProposedActionInput" where
  "action_input a =
     \<lparr>input_Type = action_typ a, input_RequestedAt = action_requestedAt a, input_Actor = action_actor a,
      input_Delegation = action_delegation a, input_Target = action_target a,
      input_Parameters = map_option parameters_input (action_parameters a), input_Payload = action_payload a,
      input_Evidence = action_evidence a\<rparr>"

lemma normalizePrincipal_rebuild: "wf_principal p \<Longrightarrow> normalizePrincipal p = Inr p"
  by (simp add: normalizePrincipal_def NewPrincipal_rebuild)

lemma normalizeParameters_rebuild:
  assumes "wf_parameters p"
  shows "normalizeParameters (ActionParameters_ActionType p) (Some (parameters_input p)) = Inr p"
proof (cases p)
  case (ExternalSend q)
  then have "ParseDestinationScope (send_destinationScope q) = Inr (send_destinationScope q)"
    using assms by (simp add: ParseDestinationScope_Inr_iff)
  then show ?thesis using parameters_rebuild(1) assms ExternalSend by (simp add: normalizeParameters_def)
next
  case (UpdateResourceAccess q)
  then have "ParseAccessScope (access_currentScope q) = Inr (access_currentScope q)"
    "ParseAccessScope (access_requestedScope q) = Inr (access_requestedScope q)"
    using assms by (simp_all add: ParseAccessScope_Inr_iff)
  moreover have "res_mapM normalizePrincipal (access_targetPrincipals q) = Inr (access_targetPrincipals q)"
    using assms UpdateResourceAccess res_mapM_cong_Inr [of "access_targetPrincipals q" normalizePrincipal "\<lambda>p. p"]
    by (simp add: wf_principals_def list_all_iff normalizePrincipal_rebuild)
  ultimately show ?thesis using parameters_rebuild(2) assms UpdateResourceAccess by (simp add: normalizeParameters_def)
next
  case (Delete q)
  then have "ParseDeleteMode (delete_mode q) = Inr (delete_mode q)" using assms by (simp add: ParseDeleteMode_Inr_iff)
  then show ?thesis using parameters_rebuild(3) assms Delete by (simp add: normalizeParameters_def)
qed

lemma normalizeScope_rebuild:
  assumes "wf_scope s"
  shows "normalizeAuthorizationScope s = Inr s"
proof -
  have parsed: "wf_destination_scope d \<Longrightarrow> ParseDestinationScope d = Inr d"
    "wf_access_scope d \<Longrightarrow> ParseAccessScope d = Inr d" "wf_delete_mode d \<Longrightarrow> ParseDeleteMode d = Inr d" for d
    by (simp_all add: ParseDestinationScope_Inr_iff ParseAccessScope_Inr_iff ParseDeleteMode_Inr_iff)
  have rebuild: "NewAuthorizationScope (scope_actionType s) (scope_destinationScope s) (scope_requestedScope s)
      (scope_deleteMode s) = Inr s" by (rule NewAuthorizationScope_rebuild [OF assms])
  have distinct: "ActionUpdateResourceAccess \<noteq> ActionExternalSend" "ActionDelete \<noteq> ActionExternalSend"
    "ActionDelete \<noteq> ActionUpdateResourceAccess" by (simp_all add: action_type_defs)
  from assms consider
      "scope_actionType s = ActionExternalSend" "wf_destination_scope (scope_destinationScope s)"
      "scope_requestedScope s = []" "scope_deleteMode s = []"
    | "scope_actionType s = ActionUpdateResourceAccess" "scope_destinationScope s = []"
      "wf_access_scope (scope_requestedScope s)" "scope_deleteMode s = []"
    | "scope_actionType s = ActionDelete" "scope_destinationScope s = []"
      "scope_requestedScope s = []" "wf_delete_mode (scope_deleteMode s)" by auto
  then show ?thesis
    using rebuild by cases (simp_all add: normalizeAuthorizationScope_def Let_def parsed distinct)
qed

lemma normalizeEvidence_rebuild:
  assumes "wf_evidence_list es"
  shows "normalizeEvidence es = Inr es"
proof -
  have "normalizeEvidenceItem e = Inr e" if "wf_evidence e" for e
    using that NewAuthorizationEvidence_rebuild [OF that]
    by (auto simp: normalizeEvidenceItem_def wf_evidence_def normalizePrincipal_rebuild normalizeScope_rebuild res_simps
        ParseAuthorizationEvidenceType_Inr_iff upper_trim_evidence_consts simp del: wf_scope.simps)
  then have "res_mapM normalizeEvidenceItem es = Inr es"
    using assms res_mapM_cong_Inr [of es normalizeEvidenceItem "\<lambda>e. e"] by (simp add: wf_evidence_list_def list_all_iff)
  then show ?thesis using NormalizeAuthorizationEvidence_rebuild [OF assms] by (simp add: normalizeEvidence_def)
qed

lemma digest_chars:
  assumes "PayloadDigest_Valid d" "c \<in> set d"
  shows "32 < byte c \<and> byte c < 128"
proof -
  have len: "length d = 71" and pre: "prefix digest_prefix d" and hex: "list_all lower_hex_rune (runes (drop 7 d))"
    using assms(1) by (auto simp: PayloadDigest_Valid_def ParsePayloadDigest_def validateSHA256Digest_def is_ok_res_bind
        guard_res_def split: if_splits)
  from pre have d: "d = digest_prefix @ drop 7 d" by (auto simp: prefix_def digest_prefix_def)
  have "32 < byte x \<and> byte x < 128" if "x \<in> set (drop 7 d)" for x
  proof -
    have "x \<in> set (concat (map snd (rune_chunks (drop 7 d))))" using that by (simp only: concat_rune_chunks)
    then obtain r ch where ch: "(r, ch) \<in> set (rune_chunks (drop 7 d))" "x \<in> set ch" by auto
    then have r: "lower_hex_rune r" using hex by (force simp: list_all_iff runes_def)
    then have "r < 128" "32 < r" "r \<noteq> RuneError" by (auto simp: lower_hex_rune_def RuneError_def)
    then have "ch = [char_of r]" using rune_chunks_cases [OF ch(1)] by (simp add: EncodeRune_def)
    then show ?thesis using ch(2) \<open>r < 128\<close> \<open>32 < r\<close> by simp
  qed
  moreover have "\<forall>x \<in> set digest_prefix. 32 < byte x \<and> byte x < 128" by (simp add: digest_prefix_def)
  moreover have "set d = set digest_prefix \<union> set (drop 7 d)" by (subst d) (rule set_append)
  ultimately show ?thesis using assms(2) by blast
qed

lemma digest_trimmed: "PayloadDigest_Valid d \<Longrightarrow> TrimSpace d = d"
proof (cases d)
  case (Cons c t)
  assume "PayloadDigest_Valid d"
  then show ?thesis using digest_chars [of d] Cons by (intro TrimSpace_id trimmed_ascii) simp_all
qed simp

lemma normalizeAction_idem:
  assumes "wf_action a" "authenticated_runtimeID caller = runtimeID (action_actor a)"
  shows "normalizeAction caller (action_input a) = Inr a"
proof -
  obtain p where p: "action_parameters a = Some p" "wf_parameters p" "ActionParameters_ActionType p = action_typ a"
    using assms(1) by (auto simp: wf_action_def)
  have wf: "wf_actor (action_actor a)" "wf_delegation (action_delegation a)" "wf_target (action_target a)"
    "wf_payload (action_payload a)" "wf_evidence_list (action_evidence a)"
    using assms(1) by (simp_all add: wf_action_def)
  have rid: "TrimSpace (runtimeID (action_actor a)) = runtimeID (action_actor a)" "runtimeID (action_actor a) \<noteq> []"
    using wf(1) by (auto simp: wf_actor_def)
  have params: "normalizeParameters (action_typ a) (Some (parameters_input p)) = Inr p"
    using normalizeParameters_rebuild [OF p(2)] p(3) by simp
  have digest: "ParsePayloadDigest (TrimSpace (payload_digest (action_payload a))) = Inr (payload_digest (action_payload a))"
    using wf(4) by (simp add: wf_payload_def digest_trimmed ParsePayloadDigest_Inr_iff)
  have "normalizeAction caller (action_input a) =
      NewProposedAction (action_typ a) (action_requestedAt a) (action_actor a) (action_delegation a) (action_target a)
        (Some p) (action_payload a) (action_evidence a)"
    using wf rid params digest
    by (simp add: normalizeAction_def action_input_def assms(2) p(1) NewActor_rebuild normalizePrincipal_rebuild
        wf_delegation_def NewDelegation_rebuild NewTarget_rebuild NewPayloadFacts_rebuild normalizeEvidence_rebuild)
  then show ?thesis using NewProposedAction_rebuild [OF assms(1)] p(1) by simp
qed

lemma runtime_identity_conflict:
  assumes "authenticated_runtimeID caller \<noteq> []" "TrimSpace (runtimeID (input_Actor input)) \<noteq> []"
    "TrimSpace (runtimeID (input_Actor input)) \<noteq> authenticated_runtimeID caller"
  shows "Normalize caller input = Inl [Application ErrInvalidInput, Application ErrRuntimeIdentityConflict]"
  using assms by (simp add: Normalize_def normalizeAction_def errors_Is_def)

section \<open>Order does not matter\<close>

lemma normalizeStrings_perm:
  "normalizeStrings xs n m = Inr r \<Longrightarrow> mset xs = mset ys \<Longrightarrow> normalizeStrings ys n m = Inr r"
  using mset_eq_length [of xs ys] mset_eq_setD [of xs ys]
  by (simp add: normalizeStrings_Inr_iff sorted_set_eq_iff)

lemma res_mapM_perm:
  assumes "res_mapM f xs = Inr us" "mset xs = mset ys"
  shows "\<exists>vs. res_mapM f ys = Inr vs \<and> mset us = mset vs"
proof -
  have g: "f x = Inr (projr (f x))" if "x \<in> set xs" for x
    using assms(1) that by (induction xs arbitrary: us) (auto simp: res_simps)
  then have "us = map (\<lambda>x. projr (f x)) xs"
    using res_mapM_cong_Inr [of xs f "\<lambda>x. projr (f x)"] assms(1) by simp
  moreover have "res_mapM f ys = Inr (map (\<lambda>x. projr (f x)) ys)"
    using g mset_eq_setD [OF assms(2)] by (intro res_mapM_cong_Inr) simp
  ultimately show ?thesis using assms(2) by simp
qed

lemma normalizeEvidence_perm:
  assumes "normalizeEvidence xs = Inr es" "mset xs = mset ys"
  shows "normalizeEvidence ys = Inr es"
proof -
  obtain us where us: "res_mapM normalizeEvidenceItem xs = Inr us" "NormalizeAuthorizationEvidence us = Inr es"
    using assms(1) by (auto simp: normalizeEvidence_def res_simps)
  obtain vs where vs: "res_mapM normalizeEvidenceItem ys = Inr vs" "mset us = mset vs"
    using res_mapM_perm [OF us(1) assms(2)] by blast
  have "NormalizeAuthorizationEvidence vs = Inr es"
    using us(2) mset_eq_length [OF vs(2)] mset_eq_setD [OF vs(2)] unique_by_key_set_eq [of evidence_key us vs]
    by (simp add: NormalizeAuthorizationEvidence_Inr_iff list_all_iff)
  with vs(1) show ?thesis by (simp add: normalizeEvidence_def)
qed

lemma normalizePrincipals_perm:
  "normalizePrincipals ps = Inr r \<Longrightarrow> mset ps = mset qs \<Longrightarrow> normalizePrincipals qs = Inr r"
  using mset_eq_length [of ps qs] mset_eq_setD [of ps qs] principal_key_inj_valid [of ps]
    unique_by_key_set_eq [of principal_key ps qs]
  by (auto simp: normalizePrincipals_def list_all_iff split: if_splits)

text \<open>Inputs that differ only in the order of recipients, target principals, classifications and evidence.\<close>

fun same_parameters :: "ActionParametersInput \<Rightarrow> ActionParametersInput \<Rightarrow> bool" where
  "same_parameters (ExternalSendInput v) (ExternalSendInput w) \<longleftrightarrow>
     send_destinationScope v = send_destinationScope w \<and> mset (send_recipients v) = mset (send_recipients w)"
| "same_parameters (UpdateResourceAccessInput v) (UpdateResourceAccessInput w) \<longleftrightarrow>
     access_currentScope v = access_currentScope w \<and> access_requestedScope v = access_requestedScope w \<and>
     mset (access_targetPrincipals v) = mset (access_targetPrincipals w)"
| "same_parameters v w \<longleftrightarrow> v = w"

definition reordered :: "ProposedActionInput \<Rightarrow> ProposedActionInput \<Rightarrow> bool" where
  "reordered i j \<longleftrightarrow>
     input_Type i = input_Type j \<and> input_RequestedAt i = input_RequestedAt j \<and> input_Actor i = input_Actor j \<and>
     input_Delegation i = input_Delegation j \<and> input_Target i = input_Target j \<and>
     rel_option same_parameters (input_Parameters i) (input_Parameters j) \<and>
     payload_digest (input_Payload i) = payload_digest (input_Payload j) \<and>
     mset (payload_classification (input_Payload i)) = mset (payload_classification (input_Payload j)) \<and>
     payload_sizeBytes (input_Payload i) = payload_sizeBytes (input_Payload j) \<and>
     mset (input_Evidence i) = mset (input_Evidence j)"

lemma normalizeValue_send_reordered:
  assumes "normalizeParametersValue (ExternalSendInput v) = Inr p" "same_parameters (ExternalSendInput v) (ExternalSendInput w)"
  shows "normalizeParametersValue (ExternalSendInput w) = Inr p"
proof -
  obtain sc q where q: "ParseDestinationScope (send_destinationScope v) = Inr sc"
      "NewExternalSendParameters sc (send_recipients v) = Inr q" "p = ExternalSend q"
    using assms(1) by (auto simp: res_simps)
  have "mset (send_recipients v) = mset (send_recipients w)" using assms(2) by simp
  then have "NewExternalSendParameters sc (send_recipients w) = Inr q"
    using q(2) normalizeStrings_perm unfolding NewExternalSendParameters_Inr_iff by blast
  then show ?thesis using q assms(2) by simp
qed

lemma normalizeValue_access_reordered:
  assumes "normalizeParametersValue (UpdateResourceAccessInput v) = Inr p"
    "same_parameters (UpdateResourceAccessInput v) (UpdateResourceAccessInput w)"
  shows "normalizeParametersValue (UpdateResourceAccessInput w) = Inr p"
proof -
  obtain cs rs us q where q: "ParseAccessScope (access_currentScope v) = Inr cs"
      "ParseAccessScope (access_requestedScope v) = Inr rs"
      "res_mapM normalizePrincipal (access_targetPrincipals v) = Inr us"
      "NewUpdateResourceAccessParameters cs rs us = Inr q" "p = UpdateResourceAccess q"
    using assms(1) by (auto simp: res_simps)
  obtain vs where vs: "res_mapM normalizePrincipal (access_targetPrincipals w) = Inr vs" "mset us = mset vs"
    using res_mapM_perm [OF q(3)] assms(2) by auto
  have "NewUpdateResourceAccessParameters cs rs vs = Inr q"
    using q(4) normalizePrincipals_perm [OF _ vs(2)] unfolding NewUpdateResourceAccessParameters_Inr_iff by blast
  then show ?thesis using q vs(1) assms(2) by simp
qed

lemma same_parameters_cases:
  assumes "same_parameters v w"
  obtains x y where "v = ExternalSendInput x" "w = ExternalSendInput y"
  | x y where "v = UpdateResourceAccessInput x" "w = UpdateResourceAccessInput y"
  | "v = w"
  using assms by (cases v; cases w) auto

lemma normalizeParameters_reordered:
  assumes "normalizeParameters typ (Some v) = Inr p" "same_parameters v w"
  shows "normalizeParameters typ (Some w) = Inr p"
proof -
  have kind: "parametersInput_actionType w = parametersInput_actionType v"
    using assms(2) by (cases rule: same_parameters_cases) auto
  have v: "parametersInput_actionType v = Some typ" "normalizeParametersValue v = Inr p"
    using assms(1) by (auto simp: normalizeParameters_def split: option.splits if_splits)
  have "normalizeParametersValue w = Inr p"
    using assms(2)
  proof (cases rule: same_parameters_cases)
    case (1 x y)
    then show ?thesis using normalizeValue_send_reordered assms(2) v(2) by blast
  next
    case (2 x y)
    then show ?thesis using normalizeValue_access_reordered assms(2) v(2) by blast
  qed (use v(2) in simp)
  then show ?thesis using v(1) kind by (simp add: normalizeParameters_def)
qed

lemma normalizeParameters_reordered_option:
  assumes "normalizeParameters typ i = Inr p" "rel_option same_parameters i j"
  shows "normalizeParameters typ j = Inr p"
proof (cases i)
  case None
  with assms(1) show ?thesis by (simp add: normalizeParameters_def)
next
  case (Some v)
  with assms(2) obtain w where "j = Some w" "same_parameters v w" by (auto simp: option_rel_Some1)
  with Some assms(1) normalizeParameters_reordered show ?thesis by blast
qed

lemma normalizeAction_reordered:
  assumes "normalizeAction caller i = Inr a" "reordered i j"
  shows "normalizeAction caller j = Inr a"
proof -
  note r = assms(2) [unfolded reordered_def]
  from assms(1) obtain actor del deleg target params digest payload evidence where parts:
    "authenticated_runtimeID caller \<noteq> []"
    "TrimSpace (runtimeID (input_Actor i)) = [] \<or> TrimSpace (runtimeID (input_Actor i)) = authenticated_runtimeID caller"
    "NewActor (agentID (input_Actor i)) (authenticated_runtimeID caller) (sessionID (input_Actor i)) = Inr actor"
    "normalizePrincipal (delegator (input_Delegation i)) = Inr del"
    "NewDelegation (delegation_id (input_Delegation i)) del = Inr deleg"
    "NewTarget (resourceType (input_Target i)) (resourceID (input_Target i)) = Inr target"
    "normalizeParameters (input_Type i) (input_Parameters i) = Inr params"
    "ParsePayloadDigest (TrimSpace (payload_digest (input_Payload i))) = Inr digest"
    "NewPayloadFacts digest (payload_classification (input_Payload i)) (payload_sizeBytes (input_Payload i)) = Inr payload"
    "normalizeEvidence (input_Evidence i) = Inr evidence"
    "NewProposedAction (input_Type i) (input_RequestedAt i) actor deleg target (Some params) payload evidence = Inr a"
    by (rule normalizeAction_parts)
  have same: "input_Type j = input_Type i" "input_RequestedAt j = input_RequestedAt i" "input_Actor j = input_Actor i"
    "input_Delegation j = input_Delegation i" "input_Target j = input_Target i"
    "payload_digest (input_Payload j) = payload_digest (input_Payload i)"
    using r by simp_all
  have params: "normalizeParameters (input_Type i) (input_Parameters j) = Inr params"
    by (rule normalizeParameters_reordered_option [OF parts(7)]) (use r in blast)
  have payload: "NewPayloadFacts digest (payload_classification (input_Payload j)) (payload_sizeBytes (input_Payload j)) = Inr payload"
    using parts(9) r normalizeStrings_perm unfolding NewPayloadFacts_Inr_iff by metis
  have evidence: "normalizeEvidence (input_Evidence j) = Inr evidence"
    by (rule normalizeEvidence_perm [OF parts(10)]) (use r in blast)
  have claimed: "\<not> (TrimSpace (runtimeID (input_Actor i)) \<noteq> [] \<and> TrimSpace (runtimeID (input_Actor i)) \<noteq> authenticated_runtimeID caller)"
    using parts(2) by blast
  show ?thesis
    unfolding normalizeAction_def Let_def same
    by (simp only: if_not_P [OF parts(1)] if_not_P [OF claimed] parts(3-6,8,11) params payload evidence res_bind_simps)
qed

section \<open>Valid UTF-8 is kept\<close>

lemma valid_utf8_TrimLeftSpace: "valid_utf8 s \<Longrightarrow> valid_utf8 (TrimLeftSpace s)"
proof (induction s rule: TrimLeftSpace.induct)
  case (1 s)
  show ?case
  proof (cases "find (\<lambda>e. prefix e s) space_encodings")
    case None
    then show ?thesis using 1 by (subst TrimLeftSpace.simps) simp
  next
    case (Some e)
    then obtain r where r: "e = EncodeRune r" "r \<in> set space_runes" "prefix e s"
      by (auto simp: find_Some_iff space_encodings_def dest: nth_mem)
    obtain rs where rs: "\<forall>x \<in> set rs. valid_rune x" "s = concat (map EncodeRune rs)"
      using 1(2) valid_utf8_iff by blast
    have "rs \<noteq> []" using rs(2) r(1,3) space_encoding_not_Nil r(2) by (auto simp: space_encodings_def)
    then obtain q qs where q: "rs = q # qs" by (cases rs) auto
    have "r = q" using EncodeRune_prefix_eq [of r q "concat (map EncodeRune qs)"] r rs q valid_space_rune by simp
    then have "drop (length e) s = concat (map EncodeRune qs)" using rs(2) q r(1) by simp
    then have "valid_utf8 (drop (length e) s)" using rs(1) q valid_utf8_iff by (metis list.set_intros(2))
    then show ?thesis using 1(1) [OF Some] Some by (subst TrimLeftSpace.simps) simp
  qed
qed

lemma valid_utf8_TrimRightSpace: "valid_utf8 s \<Longrightarrow> valid_utf8 (TrimRightSpace s)"
proof (induction s rule: TrimRightSpace.induct)
  case (1 s)
  show ?case
  proof (cases "find (\<lambda>e. suffix e s) space_encodings")
    case None
    then show ?thesis using 1 by (subst TrimRightSpace.simps) simp
  next
    case (Some e)
    then obtain r where r: "e = EncodeRune r" "r \<in> set space_runes" "suffix e s"
      by (auto simp: find_Some_iff space_encodings_def dest: nth_mem)
    obtain rs where rs: "\<forall>x \<in> set rs. valid_rune x" "s = concat (map EncodeRune rs)"
      using 1(2) valid_utf8_iff by blast
    have "rs \<noteq> []" using rs(2) r(1,3) space_encoding_not_Nil r(2) by (auto simp: space_encodings_def)
    then obtain q qs where q: "rs = qs @ [q]" by (cases rs rule: rev_cases) auto
    have "r = q" using EncodeRune_suffix_eq [of r q "concat (map EncodeRune qs)"] r rs q valid_space_rune by simp
    then have "take (length s - length e) s = concat (map EncodeRune qs)" using rs(2) q r(1) by simp
    then have "valid_utf8 (take (length s - length e) s)" using rs(1) q valid_utf8_iff by (metis Un_iff set_append)
    then show ?thesis using 1(1) [OF Some] Some by (subst TrimRightSpace.simps) simp
  qed
qed

lemma valid_utf8_TrimSpace [simp]: "valid_utf8 s \<Longrightarrow> valid_utf8 (TrimSpace s)"
  by (simp add: TrimSpace_def valid_utf8_TrimLeftSpace valid_utf8_TrimRightSpace)

lemma valid_utf8_ActionType: "ActionType_Valid t \<Longrightarrow> valid_utf8 t"
  by (intro valid_utf8_literals) (auto simp: ActionType_Valid_def action_type_defs)

lemma valid_utf8_PrincipalType: "PrincipalType_Valid t \<Longrightarrow> valid_utf8 t"
  by (intro valid_utf8_literals)
    (auto simp: PrincipalType_Valid_def PrincipalUser_def PrincipalAgent_def PrincipalRuntime_def PrincipalService_def)

lemma valid_utf8_scopes:
  "wf_destination_scope d \<Longrightarrow> valid_utf8 d" "wf_access_scope s \<Longrightarrow> valid_utf8 s" "wf_delete_mode m \<Longrightarrow> valid_utf8 m"
proof -
  show "wf_access_scope s \<Longrightarrow> valid_utf8 s" by (metis wf_access_scope_def valid_utf8_upper_trim)
  show "wf_destination_scope d \<Longrightarrow> valid_utf8 d"
    by (intro valid_utf8_literals) (auto simp: wf_destination_scope_def scope_defs)
  show "wf_delete_mode m \<Longrightarrow> valid_utf8 m"
    by (intro valid_utf8_literals) (auto simp: wf_delete_mode_def scope_defs)
qed

lemma utf8_scope_wf: "wf_scope s \<Longrightarrow> utf8_scope s"
  using valid_utf8_ActionType [of "scope_actionType s"] valid_utf8_scopes
  by (auto simp: utf8_scope_def ActionType_Valid_def)

lemma utf8_principal_normalized:
  "normalizePrincipal i = Inr p \<Longrightarrow> valid_utf8 (principal_id i) \<Longrightarrow> utf8_principal p"
  using valid_utf8_PrincipalType
  by (auto simp: normalizePrincipal_def NewPrincipal_Inr_iff utf8_principal_def wf_principal_def)

lemma valid_utf8_normalizeStrings:
  "normalizeStrings xs n m = Inr ys \<Longrightarrow> list_all valid_utf8 xs \<Longrightarrow> list_all valid_utf8 ys"
  by (auto simp: normalizeStrings_Inr_iff list_all_iff)

text \<open>The texts of an input that reach the action unchanged but for trimming.\<close>

definition utf8_evidence_input :: "AuthorizationEvidence \<Rightarrow> bool" where
  "utf8_evidence_input e \<longleftrightarrow> valid_utf8 (evidence_id e) \<and> valid_utf8 (principal_id (evidence_issuedBy e))"

fun utf8_parameters_input :: "ActionParametersInput \<Rightarrow> bool" where
  "utf8_parameters_input (ExternalSendInput v) \<longleftrightarrow> list_all valid_utf8 (send_recipients v)"
| "utf8_parameters_input (UpdateResourceAccessInput v) \<longleftrightarrow>
     list_all (\<lambda>p. valid_utf8 (principal_id p)) (access_targetPrincipals v)"
| "utf8_parameters_input _ \<longleftrightarrow> True"

definition utf8_input :: "ProposedActionInput \<Rightarrow> bool" where
  "utf8_input i \<longleftrightarrow>
     list_all valid_utf8 [agentID (input_Actor i), sessionID (input_Actor i), delegation_id (input_Delegation i),
       principal_id (delegator (input_Delegation i)), resourceType (input_Target i), resourceID (input_Target i)] \<and>
     pred_option utf8_parameters_input (input_Parameters i) \<and>
     list_all valid_utf8 (payload_classification (input_Payload i)) \<and>
     list_all utf8_evidence_input (input_Evidence i)"

lemma utf8_parameters_normalized:
  assumes "normalizeParameters typ (Some v) = Inr p" "utf8_parameters_input v"
  shows "utf8_parameters p"
proof (cases v)
  case (ExternalSendInput x)
  then obtain sc q where "ParseDestinationScope (send_destinationScope x) = Inr sc"
      "NewExternalSendParameters sc (send_recipients x) = Inr q" "p = ExternalSend q"
    using assms(1) by (auto simp: normalizeParameters_def res_simps split: if_splits)
  then show ?thesis
    using wf_NewExternalSendParameters valid_utf8_scopes(1) valid_utf8_normalizeStrings assms(2) ExternalSendInput
    by (auto simp: NewExternalSendParameters_Inr_iff ParseDestinationScope_Inr_iff)
next
  case (UpdateResourceAccessInput x)
  then obtain cs rs us q where q: "res_mapM normalizePrincipal (access_targetPrincipals x) = Inr us"
      "NewUpdateResourceAccessParameters cs rs us = Inr q" "p = UpdateResourceAccess q"
    using assms(1) by (auto simp: normalizeParameters_def res_simps split: if_splits)
  have "\<forall>u \<in> set us. utf8_principal u"
    using res_mapM_all [OF q(1), of utf8_principal] utf8_principal_normalized assms(2) UpdateResourceAccessInput
    by (auto simp: list_all_iff)
  moreover have "normalizePrincipals us = Inr (access_targetPrincipals q)"
    using q(2) by (simp add: NewUpdateResourceAccessParameters_Inr_iff)
  then have "set (access_targetPrincipals q) = set us"
    using set_unique_by_key [OF principal_key_inj_valid [of us]] by (auto simp: normalizePrincipals_def split: if_splits)
  ultimately show ?thesis
    using q(2,3) valid_utf8_scopes(2)
    by (auto simp: NewUpdateResourceAccessParameters_Inr_iff ParseAccessScope_Inr_iff list_all_iff)
next
  case (DeleteInput x)
  then show ?thesis
    using assms(1) valid_utf8_scopes(3)
    by (auto simp: normalizeParameters_def res_simps NewDeleteParameters_Inr_iff ParseDeleteMode_Inr_iff split: if_splits)
next
  case (ParametersPointer x)
  then show ?thesis using assms(1) by (auto simp: normalizeParameters_def split: option.splits if_splits)
qed

lemma utf8_evidence_normalized:
  assumes "normalizeEvidence is = Inr es" "list_all utf8_evidence_input is"
  shows "list_all utf8_evidence es"
proof -
  obtain us where us: "res_mapM normalizeEvidenceItem is = Inr us" "NormalizeAuthorizationEvidence us = Inr es"
    using assms(1) by (auto simp: normalizeEvidence_def res_simps)
  have item: "utf8_evidence u" if u: "normalizeEvidenceItem i = Inr u" and i: "utf8_evidence_input i" for i u
  proof -
    have "wf_evidence u" using u by (rule normalizeEvidenceItem_wf)
    then have t: "wf_evidence_type (evidence_typ u)" "utf8_scope (evidence_scope u)"
      using utf8_scope_wf by (simp_all add: wf_evidence_def)
    have "valid_utf8 (evidence_typ u)"
      using t(1) by (intro valid_utf8_literals) (auto simp: wf_evidence_type_def EvidenceUserInstruction_def
          EvidenceDelegationGrant_def EvidenceSystemAssertion_def)
    moreover have "normalizePrincipal (evidence_issuedBy i) = Inr (evidence_issuedBy u)" "evidence_id u = TrimSpace (evidence_id i)"
      using u by (auto simp: normalizeEvidenceItem_def res_simps NewAuthorizationEvidence_Inr_iff)
    ultimately show ?thesis using i t(2) utf8_principal_normalized
      by (auto simp: utf8_evidence_def utf8_evidence_input_def)
  qed
  have "\<forall>u \<in> set us. utf8_evidence u"
    using res_mapM_all [OF us(1), of utf8_evidence] item assms(2) by (auto simp: list_all_iff)
  moreover have "set es = set us"
    using us(2) set_unique_by_key by (auto simp: NormalizeAuthorizationEvidence_Inr_iff)
  ultimately show ?thesis by (simp add: list_all_iff)
qed

lemma normalizeAction_utf8:
  assumes "normalizeAction caller i = Inr a" "utf8_input i" "valid_utf8 (authenticated_runtimeID caller)"
  shows "utf8_action a"
proof -
  from assms(1) obtain actor del deleg target params digest payload evidence where parts:
    "NewActor (agentID (input_Actor i)) (authenticated_runtimeID caller) (sessionID (input_Actor i)) = Inr actor"
    "normalizePrincipal (delegator (input_Delegation i)) = Inr del"
    "NewDelegation (delegation_id (input_Delegation i)) del = Inr deleg"
    "NewTarget (resourceType (input_Target i)) (resourceID (input_Target i)) = Inr target"
    "normalizeParameters (input_Type i) (input_Parameters i) = Inr params"
    "NewPayloadFacts digest (payload_classification (input_Payload i)) (payload_sizeBytes (input_Payload i)) = Inr payload"
    "normalizeEvidence (input_Evidence i) = Inr evidence"
    "NewProposedAction (input_Type i) (input_RequestedAt i) actor deleg target (Some params) payload evidence = Inr a"
    using normalizeAction_parts [OF assms(1)] by metis
  note u = assms(2) [unfolded utf8_input_def]
  have wf: "wf_action a" by (rule normalizeAction_wf(1) [OF assms(1)])
  have a: "action_actor a = actor" "action_delegation a = deleg" "action_target a = target" "action_parameters a = Some params"
    "action_payload a = payload" "set (action_evidence a) = set evidence"
    using parts(8) set_unique_by_key by (auto simp: NewProposedAction_Inr_iff NormalizeAuthorizationEvidence_Inr_iff)
  obtain v where v: "input_Parameters i = Some v" using parts(5) by (cases "input_Parameters i") (auto simp: normalizeParameters_def)
  have "utf8_parameters params"
    using utf8_parameters_normalized [of "input_Type i" v params] parts(5) v u by simp
  moreover have "list_all utf8_evidence (action_evidence a)"
    using utf8_evidence_normalized [OF parts(7)] u by (simp add: list_all_iff a(6))
  moreover have "utf8_payload payload"
  proof -
    have "\<forall>c \<in> set (payload_digest payload). byte c < 128"
      using digest_chars parts(6) by (auto simp: NewPayloadFacts_Inr_iff)
    then show ?thesis using parts(6) valid_utf8_normalizeStrings u by (auto simp: NewPayloadFacts_Inr_iff utf8_payload_def)
  qed
  moreover have "valid_utf8 (action_typ a)" using wf valid_utf8_ActionType by (simp add: wf_action_def)
  moreover have "utf8_principal del" using utf8_principal_normalized [OF parts(2)] u by simp
  ultimately show ?thesis
    using u assms(3) parts(1,3,4)
    by (auto simp: utf8_action_def a(1-5) NewActor_Inr_iff NewDelegation_Inr_iff NewTarget_Inr_iff)
qed

end
