(* ===== verification/Authentication.thy ===== *)
theory Authentication
  imports Normalizer
begin

text \<open>
  Static runtime credentials (\<^verbatim>\<open>internal/auth/runtime.go\<close>). The configured credentials are a Go map, given
  here by its entries in the order the loop visits them; the adapter keeps a map from trimmed tokens
  to runtime identifiers. Only a configured token is exchanged for a runtime, always for the
  configured one, and the order of the entries is irrelevant when the trimmed tokens differ.
\<close>

type_synonym StaticRuntimeAuthenticator = "string \<rightharpoonup> string"

fun addCredentials :: "(string \<times> string) list \<Rightarrow> (string \<rightharpoonup> string) \<Rightarrow> StaticRuntimeAuthenticator res" where
  "addCredentials [] tokens = Inr tokens"
| "addCredentials ((token0, rid) # entries) tokens =
     (let token = TrimSpace token0 in
      if token = [] then Inl [Application ErrInvalidInput]
      else res_bind (NewAuthenticatedRuntime rid) (\<lambda>runtime.
        addCredentials entries (tokens(token \<mapsto> authenticated_runtimeID runtime))))"

definition NewStaticRuntimeAuthenticator :: "(string \<times> string) list \<Rightarrow> StaticRuntimeAuthenticator res" where
  "NewStaticRuntimeAuthenticator runtimesByToken =
     (if length runtimesByToken = 0 then Inl [Application ErrInvalidInput]
      else addCredentials runtimesByToken Map.empty)"

definition Authenticate :: "StaticRuntimeAuthenticator option \<Rightarrow> string \<Rightarrow> AuthenticatedRuntime res" where
  "Authenticate authenticator credential0 =
     (let credential = TrimSpace credential0 in
      if credential = [] then Inl [Auth ErrCredentialMissing]
      else case authenticator of
        None \<Rightarrow> Inl [Auth ErrCredentialInvalid]
      | Some runtimesByToken \<Rightarrow>
          (case runtimesByToken credential of
             None \<Rightarrow> Inl [Auth ErrCredentialInvalid]
           | Some rid \<Rightarrow> NewAuthenticatedRuntime rid))"

section \<open>Results\<close>

definition valid_entry :: "string \<times> string \<Rightarrow> bool" where
  "valid_entry e \<longleftrightarrow> TrimSpace (fst e) \<noteq> [] \<and> wf_identifier (TrimSpace (snd e))"

definition entry_of :: "string \<times> string \<Rightarrow> string \<times> string" where
  "entry_of e = (TrimSpace (fst e), TrimSpace (snd e))"

lemma NewAuthenticatedRuntime_eq:
  "NewAuthenticatedRuntime rid =
     (if wf_identifier (TrimSpace rid) then Inr \<lparr>authenticated_runtimeID = TrimSpace rid\<rparr>
      else Inl [Application ErrInvalidInput])"
  by (auto simp: NewAuthenticatedRuntime_def Let_def wf_identifier_def)

lemma addCredentials_eq:
  "addCredentials entries tokens =
     (if list_all valid_entry entries then Inr (tokens ++ map_of (rev (map entry_of entries)))
      else Inl [Application ErrInvalidInput])"
  by (induction entries arbitrary: tokens rule: list.induct)
    (auto simp: valid_entry_def entry_of_def NewAuthenticatedRuntime_eq Let_def map_add_upd_left)

lemma NewStaticRuntimeAuthenticator_eq:
  "NewStaticRuntimeAuthenticator entries =
     (if entries \<noteq> [] \<and> list_all valid_entry entries then Inr (map_of (rev (map entry_of entries)))
      else Inl [Application ErrInvalidInput])"
  by (simp add: NewStaticRuntimeAuthenticator_def addCredentials_eq)

lemma Authenticate_Inr:
  assumes "NewStaticRuntimeAuthenticator entries = Inr auth" "Authenticate (Some auth) credential = Inr runtime"
  shows "wf_runtime runtime"
    and "(TrimSpace credential, authenticated_runtimeID runtime) \<in> set (map entry_of entries)"
proof -
  obtain rid where rid: "auth (TrimSpace credential) = Some rid" "NewAuthenticatedRuntime rid = Inr runtime"
    using assms(2) by (auto simp: Authenticate_def Let_def split: if_splits option.splits)
  then show "wf_runtime runtime" by (simp add: NewAuthenticatedRuntime_Inr_iff)
  have "(TrimSpace credential, rid) \<in> set (map entry_of entries)"
    using rid(1) assms(1) by (auto simp: NewStaticRuntimeAuthenticator_eq dest!: map_of_SomeD split: if_splits)
  moreover have "authenticated_runtimeID runtime = rid"
    using rid(2) calculation by (auto simp: NewAuthenticatedRuntime_Inr_iff entry_of_def)
  ultimately show "(TrimSpace credential, authenticated_runtimeID runtime) \<in> set (map entry_of entries)" by simp
qed

lemma Authenticate_configured:
  assumes "NewStaticRuntimeAuthenticator entries = Inr auth" "(token, rid) \<in> set entries"
    and "distinct (map fst (map entry_of entries))" "TrimSpace credential = TrimSpace token"
  shows "Authenticate (Some auth) credential = Inr \<lparr>authenticated_runtimeID = TrimSpace rid\<rparr>"
proof -
  have valid: "list_all valid_entry entries" "auth = map_of (rev (map entry_of entries))"
    using assms(1) by (auto simp: NewStaticRuntimeAuthenticator_eq split: if_splits)
  then have ve: "valid_entry (token, rid)" using assms(2) by (auto simp: list_all_iff)
  have "distinct (map fst (rev (map entry_of entries)))" using assms(3) by (simp add: rev_map [symmetric])
  moreover have "(TrimSpace token, TrimSpace rid) \<in> set (rev (map entry_of entries))"
    using assms(2) by (force simp: entry_of_def)
  ultimately have "auth (TrimSpace credential) = Some (TrimSpace rid)"
    using valid(2) assms(4) map_of_is_SomeI by metis
  then show ?thesis using ve assms(4) by (auto simp: Authenticate_def Let_def NewAuthenticatedRuntime_eq valid_entry_def)
qed

lemma Authenticate_unknown:
  assumes "NewStaticRuntimeAuthenticator entries = Inr auth"
    and "\<forall>(token, rid) \<in> set entries. TrimSpace token \<noteq> TrimSpace credential"
  shows "Authenticate (Some auth) credential =
    Inl [Auth (if TrimSpace credential = [] then ErrCredentialMissing else ErrCredentialInvalid)]"
proof -
  have "auth = map_of (rev (map entry_of entries))"
    using assms(1) by (auto simp: NewStaticRuntimeAuthenticator_eq split: if_splits)
  moreover have "TrimSpace credential \<notin> fst ` set (rev (map entry_of entries))"
    using assms(2) by (force simp: entry_of_def)
  ultimately have "auth (TrimSpace credential) = None" by (simp add: map_of_eq_None_iff)
  then show ?thesis by (simp add: Authenticate_def Let_def)
qed

lemma credentials_order:
  assumes "NewStaticRuntimeAuthenticator entries = Inr auth" "mset entries = mset entries'"
    and "distinct (map fst (map entry_of entries))"
  shows "NewStaticRuntimeAuthenticator entries' = Inr auth"
proof -
  have valid: "entries \<noteq> []" "list_all valid_entry entries" "auth = map_of (rev (map entry_of entries))"
    using assms(1) by (auto simp: NewStaticRuntimeAuthenticator_eq split: if_splits)
  have set: "set entries' = set entries" using assms(2) mset_eq_setD by metis
  have "mset (map fst (map entry_of entries)) = mset (map fst (map entry_of entries'))"
    using assms(2) by (simp del: map_map)
  then have "distinct (map fst (map entry_of entries'))"
    using assms(3) mset_eq_imp_distinct_iff by blast
  then have d: "distinct (map fst (rev (map entry_of entries)))" "distinct (map fst (rev (map entry_of entries')))"
    using assms(3) by (simp_all add: rev_map [symmetric])
  have "map_of (rev (map entry_of entries')) = map_of (rev (map entry_of entries))"
    using map_of_inject_set [OF d] set by simp
  moreover have "entries' \<noteq> []" "list_all valid_entry entries'"
    using valid set by (auto simp: list_all_iff)
  ultimately show ?thesis using valid(3) by (simp add: NewStaticRuntimeAuthenticator_eq)
qed

end
