(* ===== verification/Ledger.thy ===== *)
theory Ledger
  imports Serialization
begin

text \<open>
  The decision ledger (\<^verbatim>\<open>internal/storage/sqlite/ledger.go\<close>) over the tables of
  \<^verbatim>\<open>migrations/0001_minimal_ledger.sql\<close>. SQLite itself is a parameter: the statements the ledger
  issues are the fields of a record of operations on a world \<open>'w\<close>, which also holds everything other
  connections do. What the ledger relies on is the locale \<open>sql_store\<close>: rows are only ever added,
  keys stay unique, a transaction that commits has added its rows. The results: a committed or found
  record is the decoded content of the row of its request and stays that for ever, so any two
  successful answers for one request agree.
\<close>

section \<open>Rows and tables\<close>

record ActionRow =
  ar_runtime_id :: string
  ar_request_id :: string
  ar_action_digest :: string
  ar_action_type :: string
  ar_schema_version :: int
  ar_action_json :: string
  ar_created_at :: string

record DecisionRow =
  dr_decision_id :: string
  dr_runtime_id :: string
  dr_request_id :: string
  dr_decision_type :: string
  dr_reason_codes_json :: string
  dr_required_types_json :: string
  dr_policy_version :: string
  dr_matched_rules_json :: string
  dr_evaluated_at :: string

record EffectRow =
  er_effect_id :: string
  er_decision_id :: string
  er_effect_type :: string
  er_context_json :: string
  er_idempotency_key :: string
  er_dispatch_status :: string
  er_attempt_count :: int
  er_created_at :: string
  er_updated_at :: string

record tables =
  t_actions :: "ActionRow list"
  t_decisions :: "DecisionRow list"
  t_effects :: "EffectRow list"

text \<open>The columns of the \<^verbatim>\<open>SELECT\<close> that joins a request with its decision.\<close>

record QueryRow =
  q_action_digest :: string
  q_action_json :: string
  q_decision_id :: string
  q_decision_type :: string
  q_reason_codes_json :: string
  q_required_types_json :: string
  q_policy_version :: string
  q_matched_rules_json :: string
  q_evaluated_at :: string

definition action_key :: "ActionRow \<Rightarrow> string \<times> string" where
  "action_key r = (ar_runtime_id r, ar_request_id r)"

definition decision_key :: "DecisionRow \<Rightarrow> string \<times> string" where
  "decision_key r = (dr_runtime_id r, dr_request_id r)"

definition join_row :: "ActionRow \<Rightarrow> DecisionRow \<Rightarrow> QueryRow" where
  "join_row a d =
     \<lparr>q_action_digest = ar_action_digest a, q_action_json = ar_action_json a, q_decision_id = dr_decision_id d,
      q_decision_type = dr_decision_type d, q_reason_codes_json = dr_reason_codes_json d,
      q_required_types_json = dr_required_types_json d, q_policy_version = dr_policy_version d,
      q_matched_rules_json = dr_matched_rules_json d, q_evaluated_at = dr_evaluated_at d\<rparr>"

definition select_evaluation :: "tables \<Rightarrow> string \<Rightarrow> string \<Rightarrow> QueryRow option" where
  "select_evaluation T rid qid =
     (case find (\<lambda>a. action_key a = (rid, qid)) (t_actions T) of
        None \<Rightarrow> None
      | Some a \<Rightarrow>
          (case find (\<lambda>d. decision_key d = (rid, qid)) (t_decisions T) of
             None \<Rightarrow> None
           | Some d \<Rightarrow> Some (join_row a d)))"

section \<open>The ledger\<close>

record 'w SqlOps =
  sql_select :: "string \<Rightarrow> string \<Rightarrow> 'w \<Rightarrow> QueryRow option option \<times> 'w"
  sql_begin :: "'w \<Rightarrow> bool \<times> 'w"
  sql_insert_action :: "ActionRow \<Rightarrow> 'w \<Rightarrow> nat option \<times> 'w"
  sql_insert_decision :: "DecisionRow \<Rightarrow> 'w \<Rightarrow> bool \<times> 'w"
  sql_insert_effect :: "EffectRow \<Rightarrow> 'w \<Rightarrow> bool \<times> 'w"
  sql_commit :: "'w \<Rightarrow> bool \<times> 'w"
  sql_rollback :: "'w \<Rightarrow> 'w"

text \<open>
  \<open>sql_select\<close> returns \<open>None\<close> for an error and \<open>Some None\<close> for \<^verbatim>\<open>sql.ErrNoRows\<close>; \<open>sql_insert_action\<close> is
  \<^verbatim>\<open>ExecContext\<close> and \<^verbatim>\<open>RowsAffected\<close>, \<open>None\<close> when either fails; the boolean of the others is success.
  A ledger is the pointer to the struct that holds the database, nil is \<open>None\<close>.
\<close>

type_synonym 'w DecisionLedger = "'w SqlOps option"

definition NewDecisionLedger :: "'w SqlOps option \<Rightarrow> 'w DecisionLedger res" where
  "NewDecisionLedger database =
     (case database of None \<Rightarrow> Inl [Application ErrInvalidInput] | Some ops \<Rightarrow> Inr (Some ops))"

definition reconstruct :: "string \<Rightarrow> string \<Rightarrow> QueryRow \<Rightarrow> StoredEvaluation res" where
  "reconstruct rid qid row =
     (let failure = [Application ErrLedgerFailure] in
      res_bind (res_replace failure (decodeAction (q_action_json row))) (\<lambda>action.
      res_bind (res_replace failure (ParseActionDigest (q_action_digest row))) (\<lambda>digest.
      if ComputeActionDigest action \<noteq> Inr digest then Inl failure
      else
        res_bind (res_replace failure
          (decodeDecision (q_decision_type row) (q_reason_codes_json row) (q_required_types_json row))) (\<lambda>decision.
        res_bind (res_replace failure
          (json_unmarshal (dec_slice [] dec_string) (q_matched_rules_json row) [])) (\<lambda>matchedRuleIDs.
        res_bind (res_replace failure (time_Parse (q_evaluated_at row))) (\<lambda>evaluatedTime.
          Inr \<lparr>stored_RuntimeID = rid, stored_RequestID = qid, stored_Action = action,
               stored_Decision =
                 \<lparr>record_DecisionID = q_decision_id row, record_Decision = decision, record_ActionDigest = digest,
                  record_PolicyVersion = q_policy_version row, record_MatchedRuleIDs = matchedRuleIDs,
                  record_EvaluatedAt = Time_UTC evaluatedTime\<rparr>\<rparr>))))))"

definition GetEvaluationByRequestID ::
    "'w DecisionLedger \<Rightarrow> string \<Rightarrow> string \<Rightarrow> 'w \<Rightarrow> StoredEvaluation res \<times> 'w" where
  "GetEvaluationByRequestID ledger runtime request w =
     (case ledger of
        None \<Rightarrow> (Inl [Application ErrLedgerFailure], w)
      | Some ops \<Rightarrow>
          let rid = TrimSpace runtime; qid = TrimSpace request in
          if rid = [] \<or> qid = [] then (Inl [Application ErrInvalidInput], w)
          else (case sql_select ops rid qid w of
            (None, w') \<Rightarrow> (Inl [Application ErrLedgerFailure], w')
          | (Some None, w') \<Rightarrow> (Inl [Application ErrEvaluationNotFound], w')
          | (Some (Some row), w') \<Rightarrow> (reconstruct rid qid row, w')))"

definition resolveExisting :: "StoredEvaluation \<Rightarrow> string \<Rightarrow> DecisionRecord res" where
  "resolveExisting existing digest =
     (if record_ActionDigest (stored_Decision existing) \<noteq> digest then Inl [Application ErrRequestIDConflict]
      else Inr (stored_Decision existing))"

definition resolveCommitRace :: "'w DecisionLedger \<Rightarrow> EvaluationCommit \<Rightarrow> 'w \<Rightarrow> DecisionRecord res \<times> 'w" where
  "resolveCommitRace ledger commit w =
     (case GetEvaluationByRequestID ledger (commit_RuntimeID commit) (commit_RequestID commit) w of
        (Inl e, w') \<Rightarrow> (Inl e, w')
      | (Inr existing, w') \<Rightarrow> (resolveExisting existing (commit_ActionDigest commit), w'))"

definition insertCommittedActionRequest ::
    "'w SqlOps \<Rightarrow> EvaluationCommit \<Rightarrow> string \<Rightarrow> 'w \<Rightarrow> bool option \<times> 'w" where
  "insertCommittedActionRequest ops commit actionJSON w =
     (case sql_insert_action ops
        \<lparr>ar_runtime_id = commit_RuntimeID commit, ar_request_id = commit_RequestID commit,
         ar_action_digest = commit_ActionDigest commit, ar_action_type = action_typ (commit_Action commit),
         ar_schema_version = 1, ar_action_json = actionJSON,
         ar_created_at = format_rfc3339nano (Time_UTC (commit_EvaluatedAt commit))\<rparr> w of
        (None, w') \<Rightarrow> (None, w')
      | (Some rows, w') \<Rightarrow> (Some (rows = 1), w'))"

definition insertCommittedDecision ::
    "'w SqlOps \<Rightarrow> EvaluationCommit \<Rightarrow> encodedEvaluation \<Rightarrow> 'w \<Rightarrow> bool \<times> 'w" where
  "insertCommittedDecision ops commit encoded w =
     sql_insert_decision ops
       \<lparr>dr_decision_id = commit_DecisionID commit, dr_runtime_id = commit_RuntimeID commit,
        dr_request_id = commit_RequestID commit, dr_decision_type = decision_typ (commit_Decision commit),
        dr_reason_codes_json = enc_reasonCodesJSON encoded,
        dr_required_types_json = enc_requiredActionsJSON encoded,
        dr_policy_version = commit_PolicyVersion commit, dr_matched_rules_json = enc_matchedRuleIDsJSON encoded,
        dr_evaluated_at = format_rfc3339nano (Time_UTC (commit_EvaluatedAt commit))\<rparr> w"

definition effect_row :: "EvaluationCommit \<Rightarrow> encodedPolicyEffect \<Rightarrow> EffectRow" where
  "effect_row commit effect =
     (let at = format_rfc3339nano (Time_UTC (commit_EvaluatedAt commit)) in
      \<lparr>er_effect_id = enc_effectID effect, er_decision_id = commit_DecisionID commit,
       er_effect_type = enc_typ effect, er_context_json = enc_contextJSON effect,
       er_idempotency_key = enc_idempotencyKey effect, er_dispatch_status = ''PENDING'', er_attempt_count = 0,
       er_created_at = at, er_updated_at = at\<rparr>)"

fun insertPolicyEffects :: "'w SqlOps \<Rightarrow> EvaluationCommit \<Rightarrow> encodedPolicyEffect list \<Rightarrow> 'w \<Rightarrow> bool \<times> 'w" where
  "insertPolicyEffects ops commit [] w = (True, w)"
| "insertPolicyEffects ops commit (effect # effects) w =
     (case sql_insert_effect ops (effect_row commit effect) w of
        (False, w') \<Rightarrow> (False, w')
      | (True, w') \<Rightarrow> insertPolicyEffects ops commit effects w')"

definition decisionRecordFromCommit :: "EvaluationCommit \<Rightarrow> DecisionRecord" where
  "decisionRecordFromCommit commit =
     \<lparr>record_DecisionID = commit_DecisionID commit, record_Decision = commit_Decision commit,
      record_ActionDigest = commit_ActionDigest commit, record_PolicyVersion = commit_PolicyVersion commit,
      record_MatchedRuleIDs = commit_MatchedRuleIDs commit, record_EvaluatedAt = Time_UTC (commit_EvaluatedAt commit)\<rparr>"

text \<open>The transaction of a commit, from the first insert on.\<close>

definition commitTransaction ::
    "'w SqlOps \<Rightarrow> EvaluationCommit \<Rightarrow> encodedEvaluation \<Rightarrow> 'w \<Rightarrow> DecisionRecord res \<times> 'w" where
  "commitTransaction ops commit encoded w =
     (let failure = [Application ErrLedgerFailure] in
      case insertCommittedActionRequest ops commit (enc_actionJSON encoded) w of
        (None, w1) \<Rightarrow>
          (case resolveCommitRace (Some ops) commit (sql_rollback ops w1) of
             (Inr resolved, w2) \<Rightarrow> (Inr resolved, w2)
           | (Inl _, w2) \<Rightarrow> (Inl failure, w2))
      | (Some False, w1) \<Rightarrow> resolveCommitRace (Some ops) commit (sql_rollback ops w1)
      | (Some True, w1) \<Rightarrow>
          (case insertCommittedDecision ops commit encoded w1 of
             (False, w2) \<Rightarrow> (Inl failure, sql_rollback ops w2)
           | (True, w2) \<Rightarrow>
               (case insertPolicyEffects ops commit (enc_effects encoded) w2 of
                  (False, w3) \<Rightarrow> (Inl failure, sql_rollback ops w3)
                | (True, w3) \<Rightarrow>
                    (case sql_commit ops w3 of
                       (True, w4) \<Rightarrow> (Inr (decisionRecordFromCommit commit), w4)
                     | (False, w4) \<Rightarrow>
                         (case resolveCommitRace (Some ops) commit w4 of
                            (Inr resolved, w5) \<Rightarrow> (Inr resolved, w5)
                          | (Inl _, w5) \<Rightarrow> (Inl failure, w5))))))"

definition CommitEvaluation :: "'w DecisionLedger \<Rightarrow> EvaluationCommit \<Rightarrow> 'w \<Rightarrow> DecisionRecord res \<times> 'w" where
  "CommitEvaluation ledger commit w =
     (case ledger of
        None \<Rightarrow> (Inl [Application ErrLedgerFailure], w)
      | Some ops \<Rightarrow>
          (case encodeEvaluation commit of
             Inl e \<Rightarrow> (Inl e, w)
           | Inr encoded \<Rightarrow>
               (case GetEvaluationByRequestID ledger (commit_RuntimeID commit) (commit_RequestID commit) w of
                  (Inr existing, w1) \<Rightarrow> (resolveExisting existing (commit_ActionDigest commit), w1)
                | (Inl e, w1) \<Rightarrow>
                    if \<not> errors_Is e (Application ErrEvaluationNotFound) then (Inl e, w1)
                    else (case sql_begin ops w1 of
                      (False, w2) \<Rightarrow> (Inl [Application ErrLedgerFailure], w2)
                    | (True, w2) \<Rightarrow> commitTransaction ops commit encoded w2))))"

section \<open>What the ledger relies on\<close>

definition tables_le :: "tables \<Rightarrow> tables \<Rightarrow> bool" where
  "tables_le S T \<longleftrightarrow> set (t_actions S) \<subseteq> set (t_actions T) \<and> set (t_decisions S) \<subseteq> set (t_decisions T) \<and>
     set (t_effects S) \<subseteq> set (t_effects T)"

definition unique_keys :: "tables \<Rightarrow> bool" where
  "unique_keys T \<longleftrightarrow> distinct (map action_key (t_actions T)) \<and> distinct (map decision_key (t_decisions T))"

definition no_rows :: tables where
  "no_rows = \<lparr>t_actions = [], t_decisions = [], t_effects = []\<rparr>"

text \<open>Complete tables: every request has its decision, every effect belongs to a decision.\<close>

definition complete :: "tables \<Rightarrow> bool" where
  "complete T \<longleftrightarrow> action_key ` set (t_actions T) = decision_key ` set (t_decisions T) \<and>
     er_decision_id ` set (t_effects T) \<subseteq> dr_decision_id ` set (t_decisions T)"

lemma tables_le_refl [simp]: "tables_le T T"
  by (simp add: tables_le_def)

lemma tables_le_trans [trans]: "tables_le S T \<Longrightarrow> tables_le T U \<Longrightarrow> tables_le S U"
  by (auto simp: tables_le_def)

lemma find_unique_key:
  "distinct (map key xs) \<Longrightarrow> x \<in> set xs \<Longrightarrow> find (\<lambda>y. key y = key x) xs = Some x"
  by (induction xs) (auto simp: image_iff)

lemma select_evaluation_Some_iff:
  assumes "unique_keys T"
  shows "select_evaluation T rid qid = Some row \<longleftrightarrow>
    (\<exists>a \<in> set (t_actions T). \<exists>d \<in> set (t_decisions T).
       action_key a = (rid, qid) \<and> decision_key d = (rid, qid) \<and> row = join_row a d)"
proof
  assume "select_evaluation T rid qid = Some row"
  then show "\<exists>a \<in> set (t_actions T). \<exists>d \<in> set (t_decisions T).
       action_key a = (rid, qid) \<and> decision_key d = (rid, qid) \<and> row = join_row a d"
    by (auto simp: select_evaluation_def find_Some_iff split: option.splits dest!: nth_mem)
next
  assume "\<exists>a \<in> set (t_actions T). \<exists>d \<in> set (t_decisions T).
       action_key a = (rid, qid) \<and> decision_key d = (rid, qid) \<and> row = join_row a d"
  then obtain a d where ad: "a \<in> set (t_actions T)" "d \<in> set (t_decisions T)"
      "action_key a = (rid, qid)" "decision_key d = (rid, qid)" "row = join_row a d" by blast
  have "find (\<lambda>x. action_key x = (rid, qid)) (t_actions T) = Some a"
    "find (\<lambda>x. decision_key x = (rid, qid)) (t_decisions T) = Some d"
    using find_unique_key [of action_key _ a] find_unique_key [of decision_key _ d] ad assms
    by (simp_all add: unique_keys_def)
  with ad show "select_evaluation T rid qid = Some row" by (simp add: select_evaluation_def)
qed

lemma select_evaluation_stable:
  "unique_keys S \<Longrightarrow> unique_keys T \<Longrightarrow> tables_le S T \<Longrightarrow> select_evaluation S rid qid = Some row \<Longrightarrow>
     select_evaluation T rid qid = Some row"
  unfolding select_evaluation_Some_iff tables_le_def by blast

text \<open>The request is bound to the record: its row decodes to it.\<close>

definition bound :: "tables \<Rightarrow> string \<Rightarrow> string \<Rightarrow> DecisionRecord \<Rightarrow> bool" where
  "bound T rid qid rec \<longleftrightarrow>
     (\<exists>row ev. select_evaluation T rid qid = Some row \<and> reconstruct rid qid row = Inr ev \<and> stored_Decision ev = rec)"

lemma bound_unique: "bound T rid qid r1 \<Longrightarrow> bound T rid qid r2 \<Longrightarrow> r1 = r2"
  by (auto simp: bound_def)

lemma bound_stable: "unique_keys S \<Longrightarrow> unique_keys T \<Longrightarrow> tables_le S T \<Longrightarrow> bound S rid qid r \<Longrightarrow> bound T rid qid r"
  unfolding bound_def using select_evaluation_stable by metis

text \<open>
  How the world may change between two statements: rows are added by other connections, whole
  evaluations at a time, and never removed.
\<close>

definition evolves :: "('w \<Rightarrow> bool) \<Rightarrow> ('w \<Rightarrow> tables) \<Rightarrow> 'w \<Rightarrow> 'w \<Rightarrow> bool" where
  "evolves invar committed w w' \<longleftrightarrow>
     invar w' \<and> tables_le (committed w) (committed w') \<and> (complete (committed w) \<longrightarrow> complete (committed w'))"

lemma evolves_refl: "invar w \<Longrightarrow> evolves invar committed w w"
  by (simp add: evolves_def)

lemma evolves_trans:
  "evolves invar committed w w' \<Longrightarrow> evolves invar committed w' w'' \<Longrightarrow> evolves invar committed w w''"
  by (auto simp: evolves_def intro: tables_le_trans)

lemma evolves_invar: "evolves invar committed w w' \<Longrightarrow> invar w'"
  by (simp add: evolves_def)

lemma evolves_le: "evolves invar committed w w' \<Longrightarrow> tables_le (committed w) (committed w')"
  by (simp add: evolves_def)

locale sql_store =
  fixes ops :: "'w SqlOps"
    and invar :: "'w \<Rightarrow> bool"
    and committed :: "'w \<Rightarrow> tables"
    and staged :: "'w \<Rightarrow> tables"
  assumes invar_unique: "invar w \<Longrightarrow> unique_keys (committed w)"
    and select_law: "invar w \<Longrightarrow> sql_select ops rid qid w = (res, w') \<Longrightarrow>
      evolves invar committed w w' \<and> (\<forall>r. res = Some r \<longrightarrow> r = select_evaluation (committed w') rid qid)"
    and begin_law: "invar w \<Longrightarrow> sql_begin ops w = (ok, w') \<Longrightarrow>
      evolves invar committed w w' \<and> (ok \<longrightarrow> staged w' = no_rows)"
    and insert_action_law: "invar w \<Longrightarrow> sql_insert_action ops a w = (rows, w') \<Longrightarrow>
      evolves invar committed w w' \<and>
      (rows = Some 1 \<longrightarrow> staged w' = staged w\<lparr>t_actions := a # t_actions (staged w)\<rparr>)"
    and insert_decision_law: "invar w \<Longrightarrow> sql_insert_decision ops d w = (ok, w') \<Longrightarrow>
      evolves invar committed w w' \<and>
      (ok \<longrightarrow> staged w' = staged w\<lparr>t_decisions := d # t_decisions (staged w)\<rparr>)"
    and insert_effect_law: "invar w \<Longrightarrow> sql_insert_effect ops e w = (ok, w') \<Longrightarrow>
      evolves invar committed w w' \<and>
      (ok \<longrightarrow> staged w' = staged w\<lparr>t_effects := e # t_effects (staged w)\<rparr>)"
    and commit_law: "invar w \<Longrightarrow> complete (staged w) \<Longrightarrow> sql_commit ops w = (ok, w') \<Longrightarrow>
      evolves invar committed w w' \<and> (ok \<longrightarrow> tables_le (staged w) (committed w'))"
    and rollback_law: "invar w \<Longrightarrow> evolves invar committed w (sql_rollback ops w)"

text \<open>
  The evaluations the application commits: domain values in normal form, identifiers without
  surrounding white space, texts in UTF-8 and times of the years 0 to 9999.
\<close>

definition wf_commit :: "EvaluationCommit \<Rightarrow> bool" where
  "wf_commit c \<longleftrightarrow>
     wf_action (commit_Action c) \<and> utf8_action (commit_Action c) \<and>
     rfc3339_time (action_requestedAt (commit_Action c)) \<and> wf_decision (commit_Decision c) \<and>
     list_all valid_utf8 (commit_MatchedRuleIDs c) \<and> rfc3339_time (Time_UTC (commit_EvaluatedAt c)) \<and>
     TrimSpace (commit_RuntimeID c) = commit_RuntimeID c \<and> TrimSpace (commit_RequestID c) = commit_RequestID c"

text \<open>What is enough for being stored: the requested time may lie outside the years 0 to 9999.\<close>

definition storable :: "EvaluationCommit \<Rightarrow> bool" where
  "storable c \<longleftrightarrow>
     wf_action (commit_Action c) \<and> utf8_action (commit_Action c) \<and> wf_decision (commit_Decision c) \<and>
     list_all valid_utf8 (commit_MatchedRuleIDs c) \<and>
     TrimSpace (commit_RuntimeID c) = commit_RuntimeID c \<and> TrimSpace (commit_RequestID c) = commit_RequestID c"

lemma wf_commit_storable: "wf_commit c \<Longrightarrow> storable c"
  by (simp add: wf_commit_def storable_def)

definition committed_row :: "EvaluationCommit \<Rightarrow> encodedEvaluation \<Rightarrow> QueryRow" where
  "committed_row c e =
     \<lparr>q_action_digest = commit_ActionDigest c, q_action_json = enc_actionJSON e, q_decision_id = commit_DecisionID c,
      q_decision_type = decision_typ (commit_Decision c), q_reason_codes_json = enc_reasonCodesJSON e,
      q_required_types_json = enc_requiredActionsJSON e, q_policy_version = commit_PolicyVersion c,
      q_matched_rules_json = enc_matchedRuleIDsJSON e,
      q_evaluated_at = format_rfc3339nano (Time_UTC (commit_EvaluatedAt c))\<rparr>"

text \<open>Decoding the row of a commit gives the record the commit returns.\<close>

lemma reconstruct_committed_row:
  assumes "wf_commit c" "encodeEvaluation c = Inr e"
  shows "reconstruct (commit_RuntimeID c) (commit_RequestID c) (committed_row c e) =
    Inr \<lparr>stored_RuntimeID = commit_RuntimeID c, stored_RequestID = commit_RequestID c,
         stored_Action = commit_Action c, stored_Decision = decisionRecordFromCommit c\<rparr>"
proof -
  note enc = assms(2) [unfolded encodeEvaluation_Inr_iff]
  note wf = assms(1) [unfolded wf_commit_def]
  have "decodeAction (enc_actionJSON e) = Inr (commit_Action c)"
    using decodeAction_canonical wf enc by blast
  moreover have "ParseActionDigest (commit_ActionDigest c) = Inr (commit_ActionDigest c)"
    using enc ComputeActionDigest_valid by (auto simp: ParseActionDigest_Inr_iff)
  moreover have "decodeDecision (decision_typ (commit_Decision c)) (enc_reasonCodesJSON e) (enc_requiredActionsJSON e)
      = Inr (commit_Decision c)"
    using decodeDecision_encoded wf enc by simp
  moreover have "json_unmarshal (dec_slice [] dec_string) (enc_matchedRuleIDsJSON e) [] = Inr (commit_MatchedRuleIDs c)"
    using unmarshal_jstrings wf enc by simp
  moreover have "time_Parse (format_rfc3339nano (Time_UTC (commit_EvaluatedAt c))) = Inr (Time_UTC (commit_EvaluatedAt c))"
    using parse_format_rfc3339nano wf by (simp add: time_Parse_def)
  ultimately show ?thesis using enc
    by (simp add: reconstruct_def committed_row_def decisionRecordFromCommit_def Let_def)
qed

section \<open>The ledger on any store\<close>

definition commit_action_row :: "EvaluationCommit \<Rightarrow> encodedEvaluation \<Rightarrow> ActionRow" where
  "commit_action_row c e =
     \<lparr>ar_runtime_id = commit_RuntimeID c, ar_request_id = commit_RequestID c,
      ar_action_digest = commit_ActionDigest c, ar_action_type = action_typ (commit_Action c),
      ar_schema_version = 1, ar_action_json = enc_actionJSON e,
      ar_created_at = format_rfc3339nano (Time_UTC (commit_EvaluatedAt c))\<rparr>"

definition commit_decision_row :: "EvaluationCommit \<Rightarrow> encodedEvaluation \<Rightarrow> DecisionRow" where
  "commit_decision_row c e =
     \<lparr>dr_decision_id = commit_DecisionID c, dr_runtime_id = commit_RuntimeID c,
      dr_request_id = commit_RequestID c, dr_decision_type = decision_typ (commit_Decision c),
      dr_reason_codes_json = enc_reasonCodesJSON e, dr_required_types_json = enc_requiredActionsJSON e,
      dr_policy_version = commit_PolicyVersion c, dr_matched_rules_json = enc_matchedRuleIDsJSON e,
      dr_evaluated_at = format_rfc3339nano (Time_UTC (commit_EvaluatedAt c))\<rparr>"

lemma join_commit_rows: "join_row (commit_action_row c e) (commit_decision_row c e) = committed_row c e"
  by (simp add: join_row_def commit_action_row_def commit_decision_row_def committed_row_def)

lemma encode_trim:
  "encodeEvaluation c = Inr e \<Longrightarrow> storable c \<Longrightarrow>
     TrimSpace (commit_RuntimeID c) = commit_RuntimeID c \<and> commit_RuntimeID c \<noteq> [] \<and>
     TrimSpace (commit_RequestID c) = commit_RequestID c \<and> commit_RequestID c \<noteq> []"
  by (auto simp: encodeEvaluation_Inr_iff storable_def)

text \<open>A history: calls on the ledger one after the other, with whatever other connections do between them.\<close>

datatype ledger_call = GetCall string string | CommitCall EvaluationCommit

fun call_key :: "ledger_call \<Rightarrow> string \<times> string" where
  "call_key (GetCall r q) = (TrimSpace r, TrimSpace q)"
| "call_key (CommitCall c) = (commit_RuntimeID c, commit_RequestID c)"

fun wf_call :: "ledger_call \<Rightarrow> bool" where
  "wf_call (GetCall r q) = True"
| "wf_call (CommitCall c) = wf_commit c"

fun run_call :: "'w DecisionLedger \<Rightarrow> ledger_call \<Rightarrow> 'w \<Rightarrow> DecisionRecord res \<times> 'w" where
  "run_call ledger (GetCall r q) w =
     (case GetEvaluationByRequestID ledger r q w of
        (Inl e, w') \<Rightarrow> (Inl e, w') | (Inr ev, w') \<Rightarrow> (Inr (stored_Decision ev), w'))"
| "run_call ledger (CommitCall c) w = CommitEvaluation ledger c w"

fun run_calls :: "'w DecisionLedger \<Rightarrow> ledger_call list \<Rightarrow> 'w \<Rightarrow> (ledger_call \<times> DecisionRecord res) list \<times> 'w" where
  "run_calls ledger [] w = ([], w)"
| "run_calls ledger (call # calls) w =
     (case run_call ledger call w of (res, w1) \<Rightarrow>
      case run_calls ledger calls w1 of (rest, w2) \<Rightarrow> ((call, res) # rest, w2))"

context sql_store
begin

lemma get_evolves:
  assumes "invar w" "GetEvaluationByRequestID (Some ops) r q w = (res, w')"
  shows "evolves invar committed w w'"
  using assms select_law [OF assms(1)]
  by (fastforce simp: GetEvaluationByRequestID_def Let_def evolves_refl split: if_splits prod.splits option.splits)

lemma get_bound:
  assumes "invar w" "GetEvaluationByRequestID (Some ops) r q w = (Inr ev, w')"
  shows "bound (committed w') (TrimSpace r) (TrimSpace q) (stored_Decision ev)"
  using assms select_law [OF assms(1), of "TrimSpace r" "TrimSpace q"]
  by (fastforce simp: GetEvaluationByRequestID_def Let_def bound_def split: if_splits prod.splits option.splits)

lemma race_evolves:
  assumes "invar w" "resolveCommitRace (Some ops) c w = (res, w')"
  shows "evolves invar committed w w'"
  using assms get_evolves [OF assms(1)]
  by (fastforce simp: resolveCommitRace_def split: prod.splits sum.splits)

lemma race_bound:
  assumes "invar w" "resolveCommitRace (Some ops) c w = (Inr rec, w')"
  shows "bound (committed w') (TrimSpace (commit_RuntimeID c)) (TrimSpace (commit_RequestID c)) rec \<and>
    record_ActionDigest rec = commit_ActionDigest c"
  using assms get_bound [OF assms(1)]
  by (fastforce simp: resolveCommitRace_def resolveExisting_def split: prod.splits sum.splits if_splits)

lemma insertPolicyEffects_evolves:
  assumes "invar w" "insertPolicyEffects ops c es w = (ok, w')"
  shows "evolves invar committed w w' \<and>
    (ok \<longrightarrow> staged w' = staged w\<lparr>t_effects := map (effect_row c) (rev es) @ t_effects (staged w)\<rparr>)"
  using assms
proof (induction es arbitrary: w)
  case (Cons e es)
  obtain ok1 w1 where step: "sql_insert_effect ops (effect_row c e) w = (ok1, w1)" by fastforce
  note law = insert_effect_law [OF Cons.prems(1) step]
  then have "invar w1" by (simp add: evolves_def)
  with Cons.IH [of w1] Cons.prems(2) law step show ?case
    by (cases ok1) (auto intro: evolves_trans)
qed (simp add: evolves_refl)

text \<open>A successful answer to a commit is the record the request is bound to.\<close>

definition answers :: "EvaluationCommit \<Rightarrow> 'w \<Rightarrow> DecisionRecord res \<times> 'w \<Rightarrow> bool" where
  "answers c w r \<longleftrightarrow>
     evolves invar committed w (snd r) \<and>
     (\<forall>rec. fst r = Inr rec \<longrightarrow>
        bound (committed (snd r)) (commit_RuntimeID c) (commit_RequestID c) rec \<and>
        record_ActionDigest rec = commit_ActionDigest c)"

lemma answers_error: "evolves invar committed w w' \<Longrightarrow> answers c w (Inl e, w')"
  by (simp add: answers_def)

lemma answers_trans: "evolves invar committed w w1 \<Longrightarrow> answers c w1 r \<Longrightarrow> answers c w r"
  by (auto simp: answers_def intro: evolves_trans)

lemma answers_race:
  assumes "invar w" "wf_commit c"
  shows "answers c w (resolveCommitRace (Some ops) c w)"
    and "answers c w (case resolveCommitRace (Some ops) c w of
      (Inr resolved, w2) \<Rightarrow> (Inr resolved, w2) | (Inl _, w2) \<Rightarrow> (Inl e, w2))"
proof -
  obtain res w' where race: "resolveCommitRace (Some ops) c w = (res, w')" by fastforce
  have "answers c w (res, w')"
    using race_evolves [OF assms(1) race] race_bound [OF assms(1), of c _ w'] race assms(2)
    by (auto simp: answers_def wf_commit_def)
  then show "answers c w (resolveCommitRace (Some ops) c w)"
    and "answers c w (case resolveCommitRace (Some ops) c w of
      (Inr resolved, w2) \<Rightarrow> (Inr resolved, w2) | (Inl _, w2) \<Rightarrow> (Inl e, w2))"
    by (simp_all add: race answers_def split: sum.split)
qed

lemma rollback_then:
  assumes "invar w" "evolves invar committed w w1" "invar (sql_rollback ops w1) \<Longrightarrow> answers c (sql_rollback ops w1) r"
  shows "answers c w r"
proof -
  have "invar w1" using assms(2) by (simp add: evolves_def)
  then have rb: "evolves invar committed w1 (sql_rollback ops w1)" by (rule rollback_law)
  then have "invar (sql_rollback ops w1)" by (simp add: evolves_def)
  with rb assms show ?thesis by (meson answers_trans evolves_trans)
qed

lemma commit_staged:
  assumes "invar w" "wf_commit c" "encodeEvaluation c = Inr e" "sql_commit ops w = (ok, w')"
    and staged: "staged w = \<lparr>t_actions = [commit_action_row c e], t_decisions = [commit_decision_row c e],
      t_effects = map (effect_row c) es\<rparr>"
  shows "evolves invar committed w w'" and "ok \<Longrightarrow> answers c w (Inr (decisionRecordFromCommit c), w')"
proof -
  have "complete (staged w)"
    by (auto simp: staged complete_def action_key_def decision_key_def commit_action_row_def
        commit_decision_row_def effect_row_def Let_def)
  note law = commit_law [OF assms(1) this assms(4)]
  then show ev: "evolves invar committed w w'" by simp
  assume ok
  with law have "commit_action_row c e \<in> set (t_actions (committed w'))"
    "commit_decision_row c e \<in> set (t_decisions (committed w'))" by (auto simp: tables_le_def staged)
  moreover have "unique_keys (committed w')" using ev by (simp add: evolves_def invar_unique)
  ultimately have "select_evaluation (committed w') (commit_RuntimeID c) (commit_RequestID c) = Some (committed_row c e)"
    unfolding select_evaluation_Some_iff [OF \<open>unique_keys (committed w')\<close>]
    by (intro bexI [of _ "commit_action_row c e"] bexI [of _ "commit_decision_row c e"])
      (simp_all add: join_commit_rows, simp_all add: action_key_def decision_key_def commit_action_row_def commit_decision_row_def)
  then show "answers c w (Inr (decisionRecordFromCommit c), w')"
    using reconstruct_committed_row [OF assms(2,3)] ev
    by (auto simp: answers_def bound_def decisionRecordFromCommit_def)
qed

lemma finish_answers:
  assumes "invar w" "wf_commit c" "encodeEvaluation c = Inr e"
    and "staged w = \<lparr>t_actions = [commit_action_row c e], t_decisions = [commit_decision_row c e],
      t_effects = map (effect_row c) es\<rparr>"
  shows "answers c w (case sql_commit ops w of
      (True, w4) \<Rightarrow> (Inr (decisionRecordFromCommit c), w4)
    | (False, w4) \<Rightarrow>
        (case resolveCommitRace (Some ops) c w4 of
           (Inr resolved, w5) \<Rightarrow> (Inr resolved, w5) | (Inl _, w5) \<Rightarrow> (Inl [Application ErrLedgerFailure], w5)))"
proof -
  obtain ok w4 where k: "sql_commit ops w = (ok, w4)" by fastforce
  note cs = commit_staged [OF assms(1-3) k assms(4)]
  then have "invar w4" by (simp add: evolves_def)
  from answers_race(2) [OF this assms(2)] cs show ?thesis by (cases ok) (auto simp: k intro: answers_trans)
qed

lemma transaction_answers:
  assumes inv: "invar w" and empty: "staged w = no_rows" and wf: "wf_commit c" "encodeEvaluation c = Inr e"
  shows "answers c w (commitTransaction ops c e w)"
proof -
  obtain rows w1 where a: "sql_insert_action ops (commit_action_row c e) w = (rows, w1)" by fastforce
  note law1 = insert_action_law [OF inv a]
  then have inv1: "invar w1" and ev1: "evolves invar committed w w1" by (simp_all add: evolves_def)
  obtain ok2 w2 where d: "sql_insert_decision ops (commit_decision_row c e) w1 = (ok2, w2)" by fastforce
  note law2 = insert_decision_law [OF inv1 d]
  then have inv2: "invar w2" and ev2: "evolves invar committed w w2"
    using ev1 by (auto simp: evolves_def intro: tables_le_trans)
  obtain ok3 w3 where f: "insertPolicyEffects ops c (enc_effects e) w2 = (ok3, w3)" by fastforce
  note law3 = insertPolicyEffects_evolves [OF inv2 f]
  then have inv3: "invar w3" and ev3: "evolves invar committed w w3"
    using ev2 by (auto simp: evolves_def intro: tables_le_trans)
  have race: "answers c w (resolveCommitRace (Some ops) c (sql_rollback ops w1))"
    "answers c w (case resolveCommitRace (Some ops) c (sql_rollback ops w1) of
      (Inr resolved, w2) \<Rightarrow> (Inr resolved, w2) | (Inl _, w2) \<Rightarrow> (Inl [Application ErrLedgerFailure], w2))"
    by (rule rollback_then [OF inv ev1], rule answers_race [OF _ wf(1)], assumption)+
  have undo: "answers c w (Inl [Application ErrLedgerFailure], sql_rollback ops w')"
    if "evolves invar committed w w'" for w'
    using that by (intro rollback_then [OF inv that] answers_error evolves_refl)
  have finish: "answers c w (case sql_commit ops w3 of
      (True, w4) \<Rightarrow> (Inr (decisionRecordFromCommit c), w4)
    | (False, w4) \<Rightarrow>
        (case resolveCommitRace (Some ops) c w4 of
           (Inr resolved, w5) \<Rightarrow> (Inr resolved, w5) | (Inl _, w5) \<Rightarrow> (Inl [Application ErrLedgerFailure], w5)))"
    if "rows = Some 1" "ok2" "ok3"
    using that law1 law2 law3 empty
    by (intro answers_trans [OF ev3] finish_answers [OF inv3 wf, where es = "rev (enc_effects e)"]) (simp add: no_rows_def)
  have rows: "insertCommittedActionRequest ops c (enc_actionJSON e) w =
      (case rows of None \<Rightarrow> None | Some n \<Rightarrow> Some (n = 1), w1)"
    using a by (simp add: insertCommittedActionRequest_def commit_action_row_def split: option.split)
  have dec: "insertCommittedDecision ops c e w1 = (ok2, w2)"
    using d by (simp add: insertCommittedDecision_def commit_decision_row_def)
  show ?thesis
    using race undo [OF ev2] undo [OF ev3] finish
    by (cases rows; cases "rows = Some 1"; cases ok2; cases ok3)
      (simp_all add: commitTransaction_def Let_def rows dec f)
qed

lemma commit_answers:
  assumes inv: "invar w" and wf: "wf_commit c"
  shows "answers c w (CommitEvaluation (Some ops) c w)"
proof (cases "encodeEvaluation c")
  case (Inl e)
  then show ?thesis using inv by (simp add: CommitEvaluation_def answers_error evolves_refl)
next
  case (Inr e)
  obtain res w1 where get: "GetEvaluationByRequestID (Some ops) (commit_RuntimeID c) (commit_RequestID c) w = (res, w1)"
    by fastforce
  have ev1: "evolves invar committed w w1" by (rule get_evolves [OF inv get])
  show ?thesis
  proof (cases res)
    case (Inr existing)
    have "answers c w (resolveExisting existing (commit_ActionDigest c), w1)"
      using get_bound [OF inv get [unfolded Inr]] ev1 wf
      by (auto simp: answers_def resolveExisting_def wf_commit_def split: if_splits)
    with get Inr \<open>encodeEvaluation c = Inr e\<close> show ?thesis by (simp add: CommitEvaluation_def)
  next
    case (Inl err)
    obtain ok w2 where b: "sql_begin ops w1 = (ok, w2)" by fastforce
    have "invar w1" using ev1 by (simp add: evolves_def)
    note law = begin_law [OF this b]
    have "answers c w (Inl err', w')" if "evolves invar committed w1 w'" for err' w'
      using that ev1 by (meson answers_error evolves_trans)
    moreover have "answers c w (commitTransaction ops c e w2)" if ok
    proof -
      have "invar w2" "staged w2 = no_rows" using law that by (auto simp: evolves_def)
      from transaction_answers [OF this wf \<open>encodeEvaluation c = Inr e\<close>] show ?thesis
        using law ev1 by (meson answers_trans)
    qed
    ultimately show ?thesis
      using law get Inl \<open>encodeEvaluation c = Inr e\<close> \<open>invar w1\<close> b
      by (cases ok) (auto simp: CommitEvaluation_def evolves_refl)
  qed
qed

lemma call_answers:
  assumes "invar w" "wf_call call" "run_call (Some ops) call w = (res, w')"
  shows "evolves invar committed w w'"
    and "res = Inr rec \<Longrightarrow> bound (committed w') (fst (call_key call)) (snd (call_key call)) rec"
proof -
  have "evolves invar committed w w' \<and>
    (res = Inr rec \<longrightarrow> bound (committed w') (fst (call_key call)) (snd (call_key call)) rec)"
  proof (cases call)
    case (GetCall r q)
    then show ?thesis using get_evolves [OF assms(1), of r q] get_bound [OF assms(1), of r q] assms(3)
      by (fastforce split: prod.splits sum.splits)
  next
    case (CommitCall c)
    then show ?thesis using commit_answers [OF assms(1), of c] assms(2,3) by (auto simp: answers_def)
  qed
  then show "evolves invar committed w w'"
    and "res = Inr rec \<Longrightarrow> bound (committed w') (fst (call_key call)) (snd (call_key call)) rec"
    by blast+
qed

lemma history_bound:
  assumes "invar w" "list_all wf_call calls" "run_calls (Some ops) calls w = (results, w')"
  shows "evolves invar committed w w' \<and>
    (\<forall>(call, res) \<in> set results. \<forall>rec. res = Inr rec \<longrightarrow>
       bound (committed w') (fst (call_key call)) (snd (call_key call)) rec)"
  using assms
proof (induction calls arbitrary: w results w')
  case (Cons call calls)
  obtain res w1 where first: "run_call (Some ops) call w = (res, w1)" by (rule prod.exhaust)
  obtain rest w2 where rest: "run_calls (Some ops) calls w1 = (rest, w2)" by (rule prod.exhaust)
  have wf: "wf_call call" "list_all wf_call calls" using Cons.prems(2) by simp_all
  note step = call_answers [OF Cons.prems(1) wf(1) first]
  have inv1: "invar w1" by (rule evolves_invar [OF step(1)])
  note IH = Cons.IH [OF inv1 wf(2) rest]
  have inv2: "invar w2" and le: "tables_le (committed w1) (committed w2)"
    by (rule evolves_invar [OF conjunct1 [OF IH]], rule evolves_le [OF conjunct1 [OF IH]])
  have "bound (committed w2) (fst (call_key call)) (snd (call_key call)) rec" if "res = Inr rec" for rec
    by (rule bound_stable [OF invar_unique [OF inv1] invar_unique [OF inv2] le step(2) [OF that]])
  moreover have "results = (call, res) # rest" "w' = w2" using Cons.prems(3) by (simp_all add: first rest)
  moreover have "evolves invar committed w w2" by (rule evolves_trans [OF step(1) conjunct1 [OF IH]])
  ultimately show ?case using conjunct2 [OF IH] by simp
next
  case Nil
  then show ?case by (simp add: evolves_refl)
qed

lemma history_agreement:
  assumes "invar w" "list_all wf_call calls" "run_calls (Some ops) calls w = (results, w')"
    and "(call1, Inr rec1) \<in> set results" "(call2, Inr rec2) \<in> set results" "call_key call1 = call_key call2"
  shows "rec1 = rec2"
proof -
  have "bound (committed w') (fst (call_key call1)) (snd (call_key call1)) rec1"
    "bound (committed w') (fst (call_key call2)) (snd (call_key call2)) rec2"
    using history_bound [OF assms(1-3)] assms(4,5) by blast+
  then show ?thesis using assms(6) by (metis bound_unique)
qed

text \<open>A bound request stays bound to its record, whatever is committed under it.\<close>

lemma bound_commit:
  assumes "invar w" "wf_commit c" "bound (committed w) (commit_RuntimeID c) (commit_RequestID c) rec"
    and "CommitEvaluation (Some ops) c w = (res, w')"
  shows "bound (committed w') (commit_RuntimeID c) (commit_RequestID c) rec"
    and "res = Inr rec' \<Longrightarrow> rec' = rec \<and> record_ActionDigest rec = commit_ActionDigest c"
    and "encodeEvaluation c = Inr e \<Longrightarrow>
      GetEvaluationByRequestID (Some ops) (commit_RuntimeID c) (commit_RequestID c) w = (Inr ev, w1) \<Longrightarrow>
      w' = w1 \<and> res = (if record_ActionDigest rec = commit_ActionDigest c then Inr rec else Inl [Application ErrRequestIDConflict])"
proof -
  have stays: "bound (committed v) (commit_RuntimeID c) (commit_RequestID c) rec" if "evolves invar committed w v" for v
    using that bound_stable [OF invar_unique invar_unique] assms(1,3) by (simp add: evolves_def)
  have ans: "answers c w (res, w')" using commit_answers [OF assms(1,2)] assms(4) by simp
  then show kept: "bound (committed w') (commit_RuntimeID c) (commit_RequestID c) rec" by (simp add: stays answers_def)
  show "res = Inr rec' \<Longrightarrow> rec' = rec \<and> record_ActionDigest rec = commit_ActionDigest c"
    using ans bound_unique [OF _ kept] by (auto simp: answers_def)
  assume enc: "encodeEvaluation c = Inr e"
    and get: "GetEvaluationByRequestID (Some ops) (commit_RuntimeID c) (commit_RequestID c) w = (Inr ev, w1)"
  have "stored_Decision ev = rec"
    using get_bound [OF assms(1) get] stays [OF get_evolves [OF assms(1) get]] assms(2)
    by (auto simp: wf_commit_def intro: bound_unique)
  then show "w' = w1 \<and> res = (if record_ActionDigest rec = commit_ActionDigest c then Inr rec else Inl [Application ErrRequestIDConflict])"
    using assms(4) enc get by (auto simp: CommitEvaluation_def resolveExisting_def)
qed

end

end
