(* ===== verification/TableStore.thy ===== *)
theory TableStore
  imports Ledger
begin

text \<open>
  The ledger's tables with the constraints of \<^verbatim>\<open>migrations/0001_minimal_ledger.sql\<close>, as a store the
  ledger runs on. A script decides, statement by statement, what happens around it: nothing, other
  connections committing whole evaluations, a failing statement, or a commit that is applied while its
  acknowledgement is lost. The store satisfies the laws of \<open>sql_store\<close>, and everything the ledger
  encodes satisfies the constraints.
\<close>

section \<open>The constraints of the schema\<close>

text \<open>
  \<^verbatim>\<open>length(trim(x)) > 0\<close>: \<^verbatim>\<open>trim\<close> removes blanks only and \<^verbatim>\<open>length\<close> counts up to the first NUL.
\<close>

definition sql_trim :: "string \<Rightarrow> string" where
  "sql_trim s = rev (dropWhile (\<lambda>c. c = CHR 0x20) (rev (dropWhile (\<lambda>c. c = CHR 0x20) s)))"

definition sql_nonblank :: "string \<Rightarrow> bool" where
  "sql_nonblank s \<longleftrightarrow> takeWhile (\<lambda>c. c \<noteq> CHR 0x00) (sql_trim s) \<noteq> []"

definition sql_json_get :: "string \<Rightarrow> json \<Rightarrow> json option" where
  "sql_json_get k j = (case j of JObj ms \<Rightarrow> map_of ms k | _ \<Rightarrow> None)"

definition sql_json_path :: "string list \<Rightarrow> json \<Rightarrow> json option" where
  "sql_json_path ks j = foldl (\<lambda>o' k. Option.bind o' (sql_json_get k)) (Some j) ks"

definition sql_text_is :: "json option \<Rightarrow> string \<Rightarrow> bool" where
  "sql_text_is j s = (case j of Some (JStr raw) \<Rightarrow> json_unquote raw = s | _ \<Rightarrow> False)"

definition sql_digest_check :: "string \<Rightarrow> bool" where
  "sql_digest_check d \<longleftrightarrow> length d = 71 \<and> prefix ''sha256:'' d \<and> list_all (\<lambda>c. lower_hex_rune (byte c)) (drop 7 d)"

definition action_json_check :: "ActionRow \<Rightarrow> bool" where
  "action_json_check r =
     (case json_parse (ar_action_json r) of
        Inr (JObj ms) \<Rightarrow>
          sql_text_is (sql_json_path [''type''] (JObj ms)) (ar_action_type r) \<and>
          sql_text_is (sql_json_path [''actor'', ''runtimeId''] (JObj ms)) (ar_runtime_id r) \<and>
          (case sql_json_path [''payload'', ''digest''] (JObj ms) of Some (JStr _) \<Rightarrow> True | _ \<Rightarrow> False) \<and>
          sql_json_path [''payload'', ''content''] (JObj ms) = None \<and>
          sql_json_path [''payload'', ''body''] (JObj ms) = None \<and>
          sql_json_path [''payload'', ''bytes''] (JObj ms) = None
      | _ \<Rightarrow> False)"

definition action_checks :: "ActionRow \<Rightarrow> bool" where
  "action_checks r \<longleftrightarrow>
     sql_nonblank (ar_runtime_id r) \<and> sql_nonblank (ar_request_id r) \<and> sql_digest_check (ar_action_digest r) \<and>
     ar_action_type r \<in> set [''EXTERNAL_SEND'', ''UPDATE_RESOURCE_ACCESS'', ''DELETE''] \<and> ar_schema_version r = 1 \<and>
     action_json_check r \<and> sql_nonblank (ar_created_at r)"

definition sql_array_length :: "string \<Rightarrow> nat option" where
  "sql_array_length s = (case json_parse s of Inr (JArr xs) \<Rightarrow> Some (length xs) | _ \<Rightarrow> None)"

definition sql_instr :: "string \<Rightarrow> string \<Rightarrow> bool" where
  "sql_instr s sub \<longleftrightarrow> sublist sub s"

definition approval_literal :: string where
  "approval_literal = CHR 0x22 # ''DELEGATOR_APPROVAL_REQUIRED'' @ [CHR 0x22]"

definition required_literal :: string where
  "required_literal = CHR 0x5B # CHR 0x22 # ''REQUIRE_APPROVAL'' @ [CHR 0x22, CHR 0x5D]"

definition decision_checks :: "DecisionRow \<Rightarrow> bool" where
  "decision_checks r \<longleftrightarrow>
     sql_nonblank (dr_decision_id r) \<and> dr_decision_type r \<in> set [''ALLOW'', ''DENY''] \<and>
     sql_array_length (dr_reason_codes_json r) \<noteq> None \<and>
     dr_required_types_json r \<in> set [''[]'', required_literal] \<and>
     sql_nonblank (dr_policy_version r) \<and> sql_array_length (dr_matched_rules_json r) \<noteq> None \<and>
     sql_nonblank (dr_evaluated_at r) \<and>
     (dr_decision_type r = ''ALLOW'' \<and> sql_array_length (dr_reason_codes_json r) = Some 0 \<and>
        dr_required_types_json r = ''[]'' \<or>
      dr_decision_type r = ''DENY'' \<and> (\<exists>n \<in> set_option (sql_array_length (dr_reason_codes_json r)). 0 < n)) \<and>
     (sql_instr (dr_reason_codes_json r) approval_literal \<and> dr_required_types_json r = required_literal \<or>
      \<not> sql_instr (dr_reason_codes_json r) approval_literal \<and> dr_required_types_json r = ''[]'')"

definition effect_checks :: "EffectRow \<Rightarrow> bool" where
  "effect_checks r \<longleftrightarrow>
     sql_nonblank (er_effect_id r) \<and> er_effect_type r = ''CREATE_SAFETY_REVIEW'' \<and>
     (case json_parse (er_context_json r) of Inr (JObj _) \<Rightarrow> True | _ \<Rightarrow> False) \<and>
     sql_nonblank (er_idempotency_key r) \<and>
     er_dispatch_status r \<in> set [''PENDING'', ''PROCESSING'', ''SUCCEEDED'', ''FAILED''] \<and>
     0 \<le> er_attempt_count r \<and> sql_nonblank (er_created_at r) \<and> sql_nonblank (er_updated_at r) \<and>
     er_dispatch_status r \<noteq> ''SUCCEEDED''"

text \<open>Primary keys and unique columns.\<close>

definition store_ok :: "tables \<Rightarrow> bool" where
  "store_ok T \<longleftrightarrow> unique_keys T \<and> distinct (map dr_decision_id (t_decisions T)) \<and>
     distinct (map er_effect_id (t_effects T)) \<and> distinct (map er_idempotency_key (t_effects T))"

definition add_rows :: "tables \<Rightarrow> tables \<Rightarrow> tables" where
  "add_rows T S =
     \<lparr>t_actions = t_actions S @ t_actions T, t_decisions = t_decisions S @ t_decisions T,
      t_effects = t_effects S @ t_effects T\<rparr>"

section \<open>The store\<close>

datatype event = Quiet | Others tables | Fault | LostAck

record sqlite_world =
  db_committed :: tables
  db_staged :: tables
  db_script :: "event list"

text \<open>
  Before a statement, others may have committed; not while this connection holds the write lock,
  that is once it has staged rows.
\<close>

definition tick :: "sqlite_world \<Rightarrow> event \<times> sqlite_world" where
  "tick w =
     (case db_script w of
        [] \<Rightarrow> (Quiet, w)
      | ev # rest \<Rightarrow>
          let w' = w\<lparr>db_script := rest\<rparr> in
          (case ev of
             Others S \<Rightarrow>
               if db_staged w = no_rows \<and> complete S \<and> store_ok (add_rows (db_committed w) S)
               then (Quiet, w'\<lparr>db_committed := add_rows (db_committed w) S\<rparr>) else (Quiet, w')
           | _ \<Rightarrow> (ev, w')))"

definition table_select :: "string \<Rightarrow> string \<Rightarrow> sqlite_world \<Rightarrow> QueryRow option option \<times> sqlite_world" where
  "table_select rid qid w =
     (case tick w of (ev, w') \<Rightarrow>
        if ev = Fault then (None, w') else (Some (select_evaluation (db_committed w') rid qid), w'))"

definition table_begin :: "sqlite_world \<Rightarrow> bool \<times> sqlite_world" where
  "table_begin w =
     (case tick w of (ev, w') \<Rightarrow> if ev = Fault then (False, w') else (True, w'\<lparr>db_staged := no_rows\<rparr>))"

definition table_insert_action :: "ActionRow \<Rightarrow> sqlite_world \<Rightarrow> nat option \<times> sqlite_world" where
  "table_insert_action a w =
     (case tick w of (ev, w') \<Rightarrow>
        let all = add_rows (db_committed w') (db_staged w') in
        if ev = Fault \<or> \<not> action_checks a then (None, w')
        else if action_key a \<in> action_key ` set (t_actions all) then (Some 0, w')
        else (Some 1, w'\<lparr>db_staged := (db_staged w')\<lparr>t_actions := a # t_actions (db_staged w')\<rparr>\<rparr>))"

definition table_insert_decision :: "DecisionRow \<Rightarrow> sqlite_world \<Rightarrow> bool \<times> sqlite_world" where
  "table_insert_decision d w =
     (case tick w of (ev, w') \<Rightarrow>
        let all = add_rows (db_committed w') (db_staged w') in
        if ev = Fault \<or> \<not> decision_checks d \<or> dr_decision_id d \<in> dr_decision_id ` set (t_decisions all) \<or>
           decision_key d \<in> decision_key ` set (t_decisions all) \<or>
           decision_key d \<notin> action_key ` set (t_actions all)
        then (False, w')
        else (True, w'\<lparr>db_staged := (db_staged w')\<lparr>t_decisions := d # t_decisions (db_staged w')\<rparr>\<rparr>))"

definition table_insert_effect :: "EffectRow \<Rightarrow> sqlite_world \<Rightarrow> bool \<times> sqlite_world" where
  "table_insert_effect e w =
     (case tick w of (ev, w') \<Rightarrow>
        let all = add_rows (db_committed w') (db_staged w') in
        if ev = Fault \<or> \<not> effect_checks e \<or> er_effect_id e \<in> er_effect_id ` set (t_effects all) \<or>
           er_idempotency_key e \<in> er_idempotency_key ` set (t_effects all) \<or>
           er_decision_id e \<notin> dr_decision_id ` set (t_decisions all)
        then (False, w')
        else (True, w'\<lparr>db_staged := (db_staged w')\<lparr>t_effects := e # t_effects (db_staged w')\<rparr>\<rparr>))"

definition table_commit :: "sqlite_world \<Rightarrow> bool \<times> sqlite_world" where
  "table_commit w =
     (case tick w of (ev, w') \<Rightarrow>
        if ev = Fault then (False, w'\<lparr>db_staged := no_rows\<rparr>)
        else (ev \<noteq> LostAck,
              w'\<lparr>db_committed := add_rows (db_committed w') (db_staged w'), db_staged := no_rows\<rparr>))"

definition table_rollback :: "sqlite_world \<Rightarrow> sqlite_world" where
  "table_rollback w = w\<lparr>db_staged := no_rows\<rparr>"

definition table_ops :: "sqlite_world SqlOps" where
  "table_ops =
     \<lparr>sql_select = table_select, sql_begin = table_begin, sql_insert_action = table_insert_action,
      sql_insert_decision = table_insert_decision, sql_insert_effect = table_insert_effect,
      sql_commit = table_commit, sql_rollback = table_rollback\<rparr>"

definition table_invar :: "sqlite_world \<Rightarrow> bool" where
  "table_invar w \<longleftrightarrow> store_ok (db_committed w) \<and> store_ok (add_rows (db_committed w) (db_staged w))"

section \<open>The store satisfies the laws\<close>

lemma add_rows_empty [simp]: "add_rows T no_rows = T"
  by (cases T) (simp add: add_rows_def no_rows_def)

lemma complete_add_rows: "complete T \<Longrightarrow> complete S \<Longrightarrow> complete (add_rows T S)"
  by (auto simp: complete_def add_rows_def)

lemma tables_le_add_rows: "tables_le T (add_rows T S)" "tables_le S (add_rows T S)"
  by (auto simp: tables_le_def add_rows_def)

abbreviation table_evolves :: "sqlite_world \<Rightarrow> sqlite_world \<Rightarrow> bool" where
  "table_evolves \<equiv> evolves table_invar db_committed"

lemma tick_cases:
  assumes "tick w = (ev, w')"
  obtains "db_committed w' = db_committed w" "db_staged w' = db_staged w"
  | S where "db_staged w = no_rows" "db_staged w' = no_rows" "complete S" "ev = Quiet"
      "db_committed w' = add_rows (db_committed w) S" "store_ok (add_rows (db_committed w) S)"
  using assms by (auto simp: tick_def Let_def split: list.splits event.splits if_splits)

lemma tick_evolves:
  assumes "table_invar w" "tick w = (ev, w')"
  shows "table_evolves w w'" "db_staged w' = db_staged w"
proof -
  have "table_evolves w w' \<and> db_staged w' = db_staged w"
    using assms(2)
  proof (cases rule: tick_cases)
    case 1
    then show ?thesis using assms(1) by (simp add: evolves_def table_invar_def)
  next
    case (2 S)
    then show ?thesis
      by (simp add: evolves_def table_invar_def tables_le_add_rows complete_add_rows)
  qed
  then show "table_evolves w w'" "db_staged w' = db_staged w" by blast+
qed

text \<open>A change of the staged rows that keeps the constraints.\<close>

lemma evolves_staged:
  assumes "table_evolves w w'" "store_ok (add_rows (db_committed w') S)"
  shows "table_evolves w (w'\<lparr>db_staged := S\<rparr>)"
  using assms by (simp add: evolves_def table_invar_def)

lemma evolves_no_rows: "table_evolves w w' \<Longrightarrow> table_evolves w (w'\<lparr>db_staged := no_rows\<rparr>)"
  by (rule evolves_staged) (auto simp: evolves_def table_invar_def)

lemma store_ok_insert:
  "store_ok (add_rows T S) \<Longrightarrow> action_key a \<notin> action_key ` set (t_actions (add_rows T S)) \<Longrightarrow>
     store_ok (add_rows T (S\<lparr>t_actions := a # t_actions S\<rparr>))"
  "store_ok (add_rows T S) \<Longrightarrow> decision_key d \<notin> decision_key ` set (t_decisions (add_rows T S)) \<Longrightarrow>
     dr_decision_id d \<notin> dr_decision_id ` set (t_decisions (add_rows T S)) \<Longrightarrow>
     store_ok (add_rows T (S\<lparr>t_decisions := d # t_decisions S\<rparr>))"
  "store_ok (add_rows T S) \<Longrightarrow> er_effect_id e \<notin> er_effect_id ` set (t_effects (add_rows T S)) \<Longrightarrow>
     er_idempotency_key e \<notin> er_idempotency_key ` set (t_effects (add_rows T S)) \<Longrightarrow>
     store_ok (add_rows T (S\<lparr>t_effects := e # t_effects S\<rparr>))"
  by (auto simp: store_ok_def unique_keys_def add_rows_def)

lemma evolves_store_ok: "table_evolves w w' \<Longrightarrow> store_ok (add_rows (db_committed w') (db_staged w'))"
  by (simp add: evolves_def table_invar_def)

lemma table_insert_laws:
  assumes inv: "table_invar w"
  shows "table_insert_action a w = (rows, w') \<Longrightarrow> table_evolves w w' \<and>
      (rows = Some 1 \<longrightarrow> db_staged w' = db_staged w\<lparr>t_actions := a # t_actions (db_staged w)\<rparr>)"
    and "table_insert_decision d w = (ok, w') \<Longrightarrow> table_evolves w w' \<and>
      (ok \<longrightarrow> db_staged w' = db_staged w\<lparr>t_decisions := d # t_decisions (db_staged w)\<rparr>)"
    and "table_insert_effect e w = (ok, w') \<Longrightarrow> table_evolves w w' \<and>
      (ok \<longrightarrow> db_staged w' = db_staged w\<lparr>t_effects := e # t_effects (db_staged w)\<rparr>)"
proof -
  obtain ev w1 where t: "tick w = (ev, w1)" by (rule prod.exhaust)
  note te = tick_evolves [OF inv t]
  note ins = store_ok_insert [OF evolves_store_ok [OF te(1)]]
  show "table_insert_action a w = (rows, w') \<Longrightarrow> table_evolves w w' \<and>
      (rows = Some 1 \<longrightarrow> db_staged w' = db_staged w\<lparr>t_actions := a # t_actions (db_staged w)\<rparr>)"
    using te ins(1) [of a] evolves_staged [OF te(1)]
    by (auto simp: table_insert_action_def t Let_def split: if_splits)
  show "table_insert_decision d w = (ok, w') \<Longrightarrow> table_evolves w w' \<and>
      (ok \<longrightarrow> db_staged w' = db_staged w\<lparr>t_decisions := d # t_decisions (db_staged w)\<rparr>)"
    using te ins(2) [of d] evolves_staged [OF te(1)]
    by (auto simp: table_insert_decision_def t Let_def split: if_splits)
  show "table_insert_effect e w = (ok, w') \<Longrightarrow> table_evolves w w' \<and>
      (ok \<longrightarrow> db_staged w' = db_staged w\<lparr>t_effects := e # t_effects (db_staged w)\<rparr>)"
    using te ins(3) [of e] evolves_staged [OF te(1)]
    by (auto simp: table_insert_effect_def t Let_def split: if_splits)
qed

lemma table_commit_law:
  assumes inv: "table_invar w" and compl: "complete (db_staged w)" and c: "table_commit w = (ok, w')"
  shows "table_evolves w w' \<and> (ok \<longrightarrow> tables_le (db_staged w) (db_committed w'))"
proof -
  obtain ev w1 where t: "tick w = (ev, w1)" by (rule prod.exhaust)
  note te = tick_evolves [OF inv t]
  have "table_evolves w (w1\<lparr>db_committed := add_rows (db_committed w1) (db_staged w1), db_staged := no_rows\<rparr>)"
    using te compl tables_le_trans [OF evolves_le [OF te(1)] tables_le_add_rows(1)]
    by (auto simp: evolves_def table_invar_def complete_add_rows)
  then show ?thesis
    using c te(2) evolves_no_rows [OF te(1)] tables_le_add_rows(2) [of "db_staged w1" "db_committed w1"]
    by (auto simp: table_commit_def t split: if_splits)
qed

interpretation table: sql_store table_ops table_invar db_committed db_staged
proof unfold_locales
  fix w :: sqlite_world
  show "table_invar w \<Longrightarrow> unique_keys (db_committed w)" by (simp add: table_invar_def store_ok_def)
next
  fix w w' :: sqlite_world and rid qid res
  assume "table_invar w" "sql_select table_ops rid qid w = (res, w')"
  then show "table_evolves w w' \<and> (\<forall>r. res = Some r \<longrightarrow> r = select_evaluation (db_committed w') rid qid)"
    using tick_evolves by (auto simp: table_ops_def table_select_def split: prod.splits if_splits)
next
  fix w w' :: sqlite_world and ok
  assume "table_invar w" "sql_begin table_ops w = (ok, w')"
  then show "table_evolves w w' \<and> (ok \<longrightarrow> db_staged w' = no_rows)"
    using tick_evolves evolves_no_rows by (auto simp: table_ops_def table_begin_def split: prod.splits if_splits)
next
  fix w :: sqlite_world
  assume "table_invar w"
  then show "table_evolves w (sql_rollback table_ops w)"
    using evolves_no_rows [OF evolves_refl] by (simp add: table_ops_def table_rollback_def)
qed (simp_all add: table_ops_def table_insert_laws table_commit_law)

section \<open>What the ledger encodes satisfies the constraints\<close>

lemma blank_space_encoding: "[CHR 0x20] \<in> set space_encodings"
proof -
  have "EncodeRune 32 = [CHR 0x20]"
  proof -
    have "char_of (32::nat) = CHR 0x20" by (simp only: char_of_eq_iff) simp
    then show ?thesis by (simp add: EncodeRune_def)
  qed
  moreover have "32 \<in> set space_runes" by (simp add: space_runes_def)
  ultimately show ?thesis unfolding space_encodings_def set_map by (metis image_eqI)
qed

lemma sql_nonblank_TrimSpace:
  assumes "TrimSpace s \<noteq> []" "CHR 0x00 \<notin> set s"
  shows "sql_nonblank s"
proof -
  let ?blank = "\<lambda>c. c = CHR 0x20"
  have "\<not> prefix [CHR 0x20] (TrimSpace s)" 
    using trimmed_TrimSpace [of s] blank_space_encoding unfolding trimmed_def by blast
  then have "hd (TrimSpace s) \<noteq> CHR 0x20" using assms(1) by (cases "TrimSpace s") auto
  moreover have "hd (TrimSpace s) \<in> set s"
  proof -
    obtain xs ys where "s = xs @ TrimSpace s @ ys" using TrimSpace_infix [of s] by (elim exE)
    then have "set s = set (xs @ TrimSpace s @ ys)" by (rule arg_cong)
    moreover have "hd (TrimSpace s) \<in> set (TrimSpace s)" using assms(1) by (rule hd_in_set)
    ultimately show ?thesis by (metis Un_iff set_append)
  qed
  ultimately have "dropWhile ?blank s \<noteq> []" unfolding dropWhile_eq_Nil_conv by blast
  moreover from this have "\<not> ?blank (hd (dropWhile ?blank s))" by (rule hd_dropWhile)
  moreover have "hd (dropWhile ?blank s) \<in> set (rev (dropWhile ?blank s))"
    using \<open>dropWhile ?blank s \<noteq> []\<close> by simp
  ultimately have "dropWhile ?blank (rev (dropWhile ?blank s)) \<noteq> []"
    unfolding dropWhile_eq_Nil_conv by blast
  then have "sql_trim s \<noteq> []" by (simp add: sql_trim_def)
  moreover have "set (sql_trim s) \<subseteq> set s" by (auto simp: sql_trim_def dest!: set_dropWhileD)
  ultimately show ?thesis using assms(2) unfolding sql_nonblank_def
    by (cases "sql_trim s") auto
qed

definition plain_char :: "char \<Rightarrow> bool" where
  "plain_char c \<longleftrightarrow> 0x20 \<le> byte c \<and> byte c < 0x80 \<and> byte c \<notin> {0x22, 0x5C, 0x3C, 0x3E, 0x26}"

lemma json_escape_plain: "list_all plain_char s \<Longrightarrow> json_escape s = s"
proof -
  assume "list_all plain_char s"
  then have p: "\<forall>c \<in> set s. plain_char c" by (simp add: list_all_iff)
  then have "rune_chunks s = map (\<lambda>c. (byte c, [c])) s" by (intro runes_ascii) (auto simp: plain_char_def)
  moreover have "json_escape_rune (byte c, [c]) = [c]" if "plain_char c" for c
    using that by (auto simp: json_escape_rune_def plain_char_def)
  then have "concat (map (\<lambda>c. json_escape_rune (byte c, [c])) xs) = xs" if "\<forall>c \<in> set xs. plain_char c" for xs
    using that by (induction xs) auto
  ultimately show ?thesis using p by (simp add: json_escape_def comp_def)
qed

lemma reason_code_plain: "ReasonCode_Valid r \<Longrightarrow> list_all plain_char r"
  by (auto simp: ReasonCode_Valid_def reason_defs plain_char_def)

text \<open>Searching a quoted word in the text of a list of quoted words.\<close>

fun quoted_items :: "string list \<Rightarrow> string" where
  "quoted_items [] = []"
| "quoted_items [r] = CHR 0x22 # r @ [CHR 0x22]"
| "quoted_items (r # s # rs) = CHR 0x22 # r @ CHR 0x22 # CHR '','' # quoted_items (s # rs)"

lemma first_quote_unique:
  "CHR 0x22 \<notin> set a \<Longrightarrow> CHR 0x22 \<notin> set b \<Longrightarrow> a @ CHR 0x22 # x = b @ CHR 0x22 # y \<Longrightarrow> a = b \<and> x = y"
  by (induction a arbitrary: b) (auto simp: Cons_eq_append_conv)

lemma quoted_step:
  assumes "CHR 0x22 \<notin> set r" "CHR 0x22 \<notin> set w" "w \<noteq> []" "hd w \<noteq> CHR '',''" "hd w \<noteq> CHR '']''"
    and "rest = '']'' \<or> rest = CHR '','' # rest'"
    and occ: "CHR 0x22 # r @ CHR 0x22 # rest = ps @ CHR 0x22 # w @ CHR 0x22 # ss"
  shows "r = w \<or> (\<exists>ps'. rest = CHR '','' # rest' \<and> rest' = ps' @ CHR 0x22 # w @ CHR 0x22 # ss)"
proof (cases ps)
  case Nil
  then have "r @ CHR 0x22 # rest = w @ CHR 0x22 # ss" using occ by simp
  then show ?thesis using first_quote_unique [OF assms(1,2)] by blast
next
  case (Cons q ps')
  then have eq: "r @ CHR 0x22 # rest = ps' @ CHR 0x22 # w @ CHR 0x22 # ss" using occ by (metis append_Cons list.inject)
  show ?thesis
  proof (cases "CHR 0x22 \<in> set ps'")
    case False
    then have "rest = w @ CHR 0x22 # ss" using first_quote_unique [OF assms(1) False eq] by simp
    then show ?thesis using assms(3-6) by (cases w) auto
  next
    case True
    then obtain p1 p2 where split: "ps' = p1 @ CHR 0x22 # p2" "CHR 0x22 \<notin> set p1" by (meson split_list_first)
    have "r @ CHR 0x22 # rest = p1 @ CHR 0x22 # (p2 @ CHR 0x22 # w @ CHR 0x22 # ss)"
      using eq by (simp add: split(1))
    then have rest: "rest = p2 @ CHR 0x22 # w @ CHR 0x22 # ss"
      using first_quote_unique [OF assms(1) split(2)] by blast
    show ?thesis
    proof (cases p2)
      case Nil
      then show ?thesis using rest assms(6) by simp
    next
      case (Cons x p3)
      then show ?thesis using rest assms(6) by auto
    qed
  qed
qed

lemma quoted_word_member:
  assumes "\<forall>r \<in> set rs. CHR 0x22 \<notin> set r" "CHR 0x22 \<notin> set w" "w \<noteq> []" "hd w \<noteq> CHR '',''" "hd w \<noteq> CHR '']''"
    and "rs \<noteq> []" "quoted_items rs @ '']'' = ps @ CHR 0x22 # w @ CHR 0x22 # ss"
  shows "w \<in> set rs"
  using assms
proof (induction rs arbitrary: ps rule: quoted_items.induct)
  case (2 r)
  then show ?case using quoted_step [of r w "'']''" "[]" ps ss] by auto
next
  case (3 r s rs)
  let ?rest' = "quoted_items (s # rs) @ '']''"
  have "r = w \<or> (\<exists>ps'. CHR '','' # ?rest' = CHR '','' # ?rest' \<and> ?rest' = ps' @ CHR 0x22 # w @ CHR 0x22 # ss)"
    using 3 by (intro quoted_step [where ps = ps]) auto
  then show ?case using 3 by auto
qed simp

lemma json_print_items_plain:
  "\<forall>r \<in> set rs. list_all plain_char r \<Longrightarrow> json_print_items (map jstring rs) = quoted_items rs"
  by (induction rs rule: quoted_items.induct) (simp_all add: jstring_def json_escape_plain)

lemma quoted_items_occurrence: "w \<in> set rs \<Longrightarrow> sublist (CHR 0x22 # w @ [CHR 0x22]) (quoted_items rs)"
proof (induction rs rule: quoted_items.induct)
  case (2 r)
  then show ?case by simp
next
  case (3 r s rs)
  show ?case
  proof (cases "w = r")
    case True
    then have "quoted_items (r # s # rs) = [] @ (CHR 0x22 # w @ [CHR 0x22]) @ CHR '','' # quoted_items (s # rs)"
      by simp
    then show ?thesis unfolding sublist_def by blast
  next
    case False
    then have "sublist (CHR 0x22 # w @ [CHR 0x22]) (quoted_items (s # rs))" using 3 by simp
    then obtain ps ss where "quoted_items (s # rs) = ps @ (CHR 0x22 # w @ [CHR 0x22]) @ ss"
      unfolding sublist_def by blast
    then have "quoted_items (r # s # rs) =
        (CHR 0x22 # r @ CHR 0x22 # CHR '','' # ps) @ (CHR 0x22 # w @ [CHR 0x22]) @ ss" by simp
    then show ?thesis unfolding sublist_def by blast
  qed
qed simp

lemma approval_instr:
  assumes "list_all ReasonCode_Valid rs"
  shows "sql_instr (json_print (jstrings rs)) approval_literal \<longleftrightarrow> ReasonDelegatorApprovalRequired \<in> set rs"
proof -
  have plain: "\<forall>r \<in> set rs. list_all plain_char r" using assms reason_code_plain by (auto simp: list_all_iff)
  then have print: "json_print (jstrings rs) = CHR ''['' # quoted_items rs @ '']''"
    by (simp add: jstrings_def json_print_items_plain)
  have lit: "approval_literal = CHR 0x22 # ReasonDelegatorApprovalRequired @ [CHR 0x22]"
    by (simp add: approval_literal_def reason_defs)
  have noquote: "\<forall>r \<in> set rs. CHR 0x22 \<notin> set r" using plain by (force simp: list_all_iff plain_char_def)
  show ?thesis
  proof
    assume "sql_instr (json_print (jstrings rs)) approval_literal"
    then obtain ps ss where "CHR ''['' # quoted_items rs @ '']'' =
        ps @ CHR 0x22 # ReasonDelegatorApprovalRequired @ CHR 0x22 # ss"
      unfolding sql_instr_def print lit sublist_def by auto
    then have occ: "quoted_items rs @ '']'' = tl ps @ CHR 0x22 # ReasonDelegatorApprovalRequired @ CHR 0x22 # ss"
      by (cases ps) auto
    then have "rs \<noteq> []" by (auto simp: reason_defs append_eq_Cons_conv Cons_eq_append_conv)
    with occ noquote show "ReasonDelegatorApprovalRequired \<in> set rs"
      by (intro quoted_word_member [where rs = rs]) (auto simp: reason_defs)
  next
    assume "ReasonDelegatorApprovalRequired \<in> set rs"
    then have "sublist approval_literal (quoted_items rs)" unfolding lit by (rule quoted_items_occurrence)
    then obtain ps ss where "quoted_items rs = ps @ approval_literal @ ss" unfolding sublist_def by blast
    then have "json_print (jstrings rs) = (CHR ''['' # ps) @ approval_literal @ ss @ '']''" by (simp add: print)
    then show "sql_instr (json_print (jstrings rs)) approval_literal"
      unfolding sql_instr_def sublist_def by blast
  qed
qed

lemma sql_nonblank_hd:
  assumes "c \<noteq> CHR 0x20" "c \<noteq> CHR 0x00"
  shows "sql_nonblank (c # t)"
proof -
  let ?blank = "\<lambda>c. c = CHR 0x20"
  have "sql_trim (c # t) = rev (dropWhile ?blank (rev t @ [c]))" using assms(1) by (simp add: sql_trim_def)
  then have "\<exists>u. sql_trim (c # t) = c # u" using assms(1) by (simp add: dropWhile_append) (metis rev_rev_ident)
  then show ?thesis using assms(2) by (auto simp: sql_nonblank_def)
qed

lemma sql_nonblank_time: "sql_nonblank (format_rfc3339nano t)"
proof -
  have pad: "pad_nat w n \<noteq> []" for w n by (simp add: pad_nat_def)
  obtain c u where year: "appendInt (c_year (civil_of t)) 4 = c # u"
    using pad by (metis appendInt_def list.discI neq_Nil_conv)
  have "is_digit x" if "x \<in> set (pad_nat w n)" for x w n
    using that nat_dec_digits by (auto simp: pad_nat_def)
  then have "is_digit c \<or> c = CHR ''-''" using year
    by (auto simp: appendInt_def split: if_splits) (metis list.set_intros(1))
  then have "c \<noteq> CHR 0x20" "c \<noteq> CHR 0x00" by (auto simp: is_digit_def)
  then show ?thesis by (simp add: format_rfc3339nano_def Let_def format_seconds_def year sql_nonblank_hd)
qed

lemma sql_nonblank_sha256 [simp]: "sql_nonblank (sha256_text s)"
  by (simp add: sha256_text_def digest_prefix_def sql_nonblank_hd)

lemma sql_digest_check_valid:
  assumes "ComputeActionDigest a = Inr d"
  shows "sql_digest_check d"
proof -
  obtain b where d: "d = sha256_text b" using assms by (auto simp: ComputeActionDigest_def res_simps)
  have "lower_hex_rune (byte c)" if "c \<in> set (hex_EncodeToString (sha256_bytes bs))" for c bs
    using hex_runes [OF _ that] sha256_bytes_range by blast
  then show ?thesis by (simp add: sql_digest_check_def d sha256_text_def digest_prefix_def list_all_iff)
qed

text \<open>The identifiers SQLite measures contain no NUL.\<close>

definition nul_free :: "EvaluationCommit \<Rightarrow> bool" where
  "nul_free c \<longleftrightarrow> list_all (\<lambda>s. CHR 0x00 \<notin> set s)
     (commit_RuntimeID c # commit_RequestID c # commit_DecisionID c # commit_PolicyVersion c #
      map EffectID (commit_Effects c))"

lemma action_row_checks:
  assumes wf: "storable c" and enc: "encodeEvaluation c = Inr e" and nul: "nul_free c"
  shows "action_checks (commit_action_row c e)"
proof -
  let ?a = "commit_Action c"
  note ei = enc [unfolded encodeEvaluation_Inr_iff]
  note wfc = wf [unfolded storable_def]
  obtain p where p: "action_parameters ?a = Some p" using wfc by (auto simp: wf_action_def)
  obtain params where params: "canonicalParameters (Some p) = Inr params"
      "enc_actionJSON e = json_print (canonicalAction ?a params)"
    using CanonicalActionBytes_wf [of ?a] wfc ei p by auto
  have "utf8_action ?a" using wfc by blast
  note ok = json_ok_canonicalAction [OF this p params(1)]
  then have parse: "json_parse (enc_actionJSON e) = Inr (canonicalAction ?a params)"
    by (simp add: params(2) json_parse_print)
  have "valid_utf8 (action_typ ?a)" "valid_utf8 (runtimeID (action_actor ?a))"
    using \<open>utf8_action ?a\<close> by (simp_all add: utf8_action_def)
  with parse have json: "action_json_check (commit_action_row c e)"
    using ei by (simp add: action_json_check_def commit_action_row_def canonicalAction_def sql_json_path_def
        sql_json_get_def sql_text_is_def jstring_def canonicalActor_def canonicalPayload_def)
  have "ActionType_Valid (action_typ ?a)" using wfc by (simp add: wf_action_def)
  then show ?thesis
    using json ei nul sql_digest_check_valid
    by (auto simp: action_checks_def commit_action_row_def sql_nonblank_TrimSpace sql_nonblank_time nul_free_def
        ActionType_Valid_def action_type_defs)
qed

lemma array_length_jstrings: "list_all valid_utf8 xs \<Longrightarrow> sql_array_length (json_print (jstrings xs)) = Some (length xs)"
  using json_parse_print [of "jstrings xs"] by (simp add: sql_array_length_def max_nesting_def) (simp add: jstrings_def)

lemma required_json:
  assumes "wf_decision d"
  shows "json_print (jstrings (map required_typ (requiredActions d))) =
    (if ReasonDelegatorApprovalRequired \<in> set (reasonCodes d) then required_literal else ''[]'')"
proof -
  have "list_all plain_char ''REQUIRE_APPROVAL''" by (simp add: plain_char_def)
  then have "json_print (jstrings [''REQUIRE_APPROVAL'']) = required_literal"
    by (simp add: jstrings_def jstring_def json_escape_plain required_literal_def)
  with assms show ?thesis
    by (auto simp: wf_decision_def NewRequireApprovalAction_def RequiredActionRequireApproval_def jstrings_def)
qed

lemma decision_row_checks:
  assumes wf: "storable c" and enc: "encodeEvaluation c = Inr e" and nul: "nul_free c"
  shows "decision_checks (commit_decision_row c e)"
proof -
  let ?d = "commit_Decision c"
  note ei = enc [unfolded encodeEvaluation_Inr_iff]
  note wfc = wf [unfolded storable_def]
  have valid: "list_all ReasonCode_Valid (reasonCodes ?d)" using ei by blast
  have utf8: "list_all valid_utf8 (reasonCodes ?d)" using valid valid_utf8_reason by (auto simp: list_all_iff)
  have req: "enc_requiredActionsJSON e = (if ReasonDelegatorApprovalRequired \<in> set (reasonCodes ?d)
      then required_literal else ''[]'')"
    using required_json wfc ei by simp
  have instr: "sql_instr (enc_reasonCodesJSON e) approval_literal \<longleftrightarrow>
      ReasonDelegatorApprovalRequired \<in> set (reasonCodes ?d)"
    using approval_instr [OF valid] ei by simp
  have len: "sql_array_length (enc_reasonCodesJSON e) = Some (length (reasonCodes ?d))"
    "sql_array_length (enc_matchedRuleIDsJSON e) = Some (length (commit_MatchedRuleIDs c))"
    using array_length_jstrings utf8 wfc ei by auto
  have "sql_nonblank (commit_DecisionID c)" "sql_nonblank (commit_PolicyVersion c)"
    using ei nul by (auto simp: sql_nonblank_TrimSpace nul_free_def)
  moreover have "wf_decision ?d" using wfc by blast
  ultimately show ?thesis using len instr req
    by (auto simp: decision_checks_def commit_decision_row_def sql_nonblank_time wf_decision_def DecisionAllow_def
        DecisionDeny_def)
qed

definition utf8_effect :: "PolicyEffectCommit \<Rightarrow> bool" where
  "utf8_effect i =
     (case Option.bind (Effect i) effect_requirement of
        None \<Rightarrow> True
      | Some r \<Rightarrow> valid_utf8 (review_priority r) \<and> list_all valid_utf8 (review_evidenceRefs r))"

lemma effect_row_checks:
  assumes nul: "list_all (\<lambda>i. CHR 0x00 \<notin> set (EffectID i)) items"
    and utf8: "list_all utf8_effect items"
    and "encodeEffectsLoop rid qid ids types items = Inr es" "f \<in> set es"
  shows "effect_checks (effect_row c f)"
  using assms
proof (induction items arbitrary: ids types es)
  case (Cons item items)
  let ?id = "TrimSpace (EffectID item)"
  obtain eff req es' where item: "Effect item = Some eff" "effect_requirement eff = Some req" "?id \<noteq> []"
      "encodeEffectsLoop rid qid (?id # ids) (PolicyEffectCreateSafetyReview # types) items = Inr es'"
      "es = \<lparr>enc_effectID = ?id, enc_typ = PolicyEffectCreateSafetyReview,
             enc_contextJSON = json_print (safetyReviewContext req),
             enc_idempotencyKey = policyEffectIdempotencyKey rid qid PolicyEffectCreateSafetyReview\<rparr> # es'"
    using Cons.prems(3) by (auto simp: Let_def res_simps split: option.splits if_splits)
  show ?case
  proof (cases "f \<in> set es'")
    case True
    then show ?thesis using Cons.IH [OF _ _ item(4)] Cons.prems(1,2) by simp
  next
    case False
    then have f: "f = hd es" using Cons.prems(4) item(5) by simp
    have u: "valid_utf8 (review_priority req)" "list_all valid_utf8 (review_evidenceRefs req)"
      using Cons.prems(2) item(1,2) by (simp_all add: utf8_effect_def)
    have "json_ok (safetyReviewContext req)" "json_depth (safetyReviewContext req) \<le> max_nesting"
      using u by (auto simp: safetyReviewContext_def jstrings_or_null_def max_nesting_def)
    then have "json_parse (json_print (safetyReviewContext req)) = Inr (safetyReviewContext req)"
      by (rule json_parse_print)
    moreover have "CHR 0x00 \<notin> set ?id"
    proof -
      obtain xs ys where eq: "EffectID item = xs @ ?id @ ys" using TrimSpace_infix [of "EffectID item"] by (elim exE)
      have "set (EffectID item) = set (xs @ ?id @ ys)" using eq by (rule arg_cong)
      then show ?thesis using Cons.prems(1) by auto
    qed
    then have "sql_nonblank ?id" using item(3) by (intro sql_nonblank_TrimSpace) simp_all
    ultimately show ?thesis
      by (simp add: f item(5) effect_checks_def effect_row_def Let_def sql_nonblank_time safetyReviewContext_def
          PolicyEffectCreateSafetyReview_def policyEffectIdempotencyKey_def)
  qed
qed simp

section \<open>Commits that meet no fault\<close>

text \<open>The next statements meet neither a fault nor another connection; a script that has ended stays quiet.\<close>

definition quiet_for :: "nat \<Rightarrow> sqlite_world \<Rightarrow> bool" where
  "quiet_for n w \<longleftrightarrow> list_all (\<lambda>e. e = Quiet) (take n (db_script w))"

lemma quiet_for_simps [simp]:
  "quiet_for 0 w" "db_script w = [] \<Longrightarrow> quiet_for n w" "db_script w = replicate n Quiet @ s \<Longrightarrow> quiet_for n w"
  by (simp_all add: quiet_for_def list_all_iff)

lemma quiet_for_split: "quiet_for (m + n) w \<longleftrightarrow> quiet_for m w \<and> quiet_for n (w\<lparr>db_script := drop m (db_script w)\<rparr>)"
  by (simp add: quiet_for_def take_add)

lemma tick_quiet: "quiet_for (Suc n) w \<Longrightarrow> tick w = (Quiet, w\<lparr>db_script := drop 1 (db_script w)\<rparr>)"
  by (cases "db_script w"; cases w) (auto simp: tick_def quiet_for_def Let_def)

lemma tick_LostAck: "db_script w = LostAck # s \<Longrightarrow> tick w = (LostAck, w\<lparr>db_script := s\<rparr>)"
  by (simp add: tick_def Let_def)

definition commit_rows :: "EvaluationCommit \<Rightarrow> encodedEvaluation \<Rightarrow> tables" where
  "commit_rows c e =
     \<lparr>t_actions = [commit_action_row c e], t_decisions = [commit_decision_row c e],
      t_effects = map (effect_row c) (rev (enc_effects e))\<rparr>"

lemma distinct_rev_mid: "distinct (map f (rev (x # xs)) @ ys) \<Longrightarrow> f x \<notin> set ys \<and> distinct (map f (rev xs) @ f x # ys)"
  by auto

lemma quiet_effects:
  assumes "quiet_for (length es) w" "\<forall>f \<in> set es. effect_checks (effect_row c f)"
    and "commit_DecisionID c \<in> dr_decision_id ` set (t_decisions (db_staged w))"
    and "distinct (map er_effect_id (map (effect_row c) (rev es) @ t_effects (db_staged w) @ t_effects (db_committed w)))"
    and "distinct (map er_idempotency_key (map (effect_row c) (rev es) @ t_effects (db_staged w) @ t_effects (db_committed w)))"
  shows "insertPolicyEffects table_ops c es w =
    (True, w\<lparr>db_staged := db_staged w\<lparr>t_effects := map (effect_row c) (rev es) @ t_effects (db_staged w)\<rparr>,
             db_script := drop (length es) (db_script w)\<rparr>)"
  using assms
proof (induction es arbitrary: w)
  case (Cons f es)
  let ?w1 = "w\<lparr>db_staged := db_staged w\<lparr>t_effects := effect_row c f # t_effects (db_staged w)\<rparr>,
      db_script := drop 1 (db_script w)\<rparr>"
  have quiet: "quiet_for (Suc (length es)) w" using Cons.prems(1) by simp
  then have rest: "quiet_for (length es) ?w1" using quiet_for_split [of 1 "length es" w] by (simp add: quiet_for_def)
  have "er_decision_id (effect_row c f) = commit_DecisionID c" by (simp add: effect_row_def Let_def)
  then have ins: "sql_insert_effect table_ops (effect_row c f) w = (True, ?w1)"
    using Cons.prems(2-) tick_quiet [OF quiet] distinct_rev_mid [of er_effect_id "effect_row c f" "map (effect_row c) es"]
      distinct_rev_mid [of er_idempotency_key "effect_row c f" "map (effect_row c) es"]
    by (auto simp: table_ops_def table_insert_effect_def Let_def add_rows_def)
  have "insertPolicyEffects table_ops c es ?w1 = (True, ?w1\<lparr>db_staged := db_staged ?w1\<lparr>t_effects :=
      map (effect_row c) (rev es) @ t_effects (db_staged ?w1)\<rparr>, db_script := drop (length es) (db_script ?w1)\<rparr>)"
    using Cons.prems(2-) by (intro Cons.IH [OF rest]) auto
  with ins show ?case by simp
qed simp

lemma quiet_get:
  "quiet_for (Suc n) w \<Longrightarrow> TrimSpace r \<noteq> [] \<Longrightarrow> TrimSpace q \<noteq> [] \<Longrightarrow>
     GetEvaluationByRequestID (Some table_ops) r q w =
       (case select_evaluation (db_committed w) (TrimSpace r) (TrimSpace q) of
          None \<Rightarrow> Inl [Application ErrEvaluationNotFound]
        | Some row \<Rightarrow> reconstruct (TrimSpace r) (TrimSpace q) row, w\<lparr>db_script := drop 1 (db_script w)\<rparr>)"
  by (simp add: GetEvaluationByRequestID_def table_ops_def table_select_def tick_quiet split: option.split)

text \<open>Everything a commit needs of the tables: its rows meet the constraints next to the stored ones.\<close>

definition admissible :: "sqlite_world \<Rightarrow> EvaluationCommit \<Rightarrow> encodedEvaluation \<Rightarrow> bool" where
  "admissible w c e \<longleftrightarrow>
     complete (db_committed w) \<and> store_ok (add_rows (db_committed w) (commit_rows c e)) \<and>
     action_checks (commit_action_row c e) \<and> decision_checks (commit_decision_row c e) \<and>
     list_all (\<lambda>f. effect_checks (effect_row c f)) (enc_effects e)"

lemma admissible_fresh:
  assumes "admissible w c e"
  shows "select_evaluation (db_committed w) (commit_RuntimeID c) (commit_RequestID c) = None"
    and "(commit_RuntimeID c, commit_RequestID c) \<notin> action_key ` set (t_actions (db_committed w))"
proof -
  show fresh: "(commit_RuntimeID c, commit_RequestID c) \<notin> action_key ` set (t_actions (db_committed w))"
    using assms
    by (auto simp: admissible_def store_ok_def unique_keys_def add_rows_def commit_rows_def action_key_def commit_action_row_def)
  have "find (\<lambda>a. action_key a = (commit_RuntimeID c, commit_RequestID c)) (t_actions (db_committed w)) = None"
    unfolding find_None_iff using fresh by (metis image_eqI)
  then show "select_evaluation (db_committed w) (commit_RuntimeID c) (commit_RequestID c) = None"
    by (simp add: select_evaluation_def)
qed

lemma quiet_inserts:
  assumes adm: "admissible w c e" and staged: "db_staged w = no_rows"
    and quiet: "quiet_for (2 + length (enc_effects e)) w"
  obtains w1 w2 where
    "insertCommittedActionRequest table_ops c (enc_actionJSON e) w = (Some True, w1)"
    "insertCommittedDecision table_ops c e w1 = (True, w2)"
    "insertPolicyEffects table_ops c (enc_effects e) w2 =
       (True, w\<lparr>db_staged := commit_rows c e, db_script := drop (2 + length (enc_effects e)) (db_script w)\<rparr>)"
proof -
  let ?k = "length (enc_effects e)"
  let ?w1 = "w\<lparr>db_staged := no_rows\<lparr>t_actions := [commit_action_row c e]\<rparr>, db_script := drop 1 (db_script w)\<rparr>"
  let ?w2 = "w\<lparr>db_staged := no_rows\<lparr>t_actions := [commit_action_row c e], t_decisions := [commit_decision_row c e]\<rparr>,
      db_script := drop 2 (db_script w)\<rparr>"
  have q: "quiet_for (Suc (Suc ?k)) w" "quiet_for (Suc ?k) ?w1" "quiet_for ?k ?w2"
    using quiet quiet_for_split [of 1 "Suc ?k" w] quiet_for_split [of 2 ?k w] by (simp_all add: quiet_for_def)
  note ok = adm [unfolded admissible_def store_ok_def unique_keys_def]
  have "sql_insert_action table_ops (commit_action_row c e) w = (Some 1, ?w1)"
    using ok staged tick_quiet [OF q(1)]
    by (auto simp: table_ops_def table_insert_action_def Let_def add_rows_def no_rows_def commit_rows_def)
  then have 1: "insertCommittedActionRequest table_ops c (enc_actionJSON e) w = (Some True, ?w1)"
    by (simp add: insertCommittedActionRequest_def commit_action_row_def)
  have key: "decision_key (commit_decision_row c e) = action_key (commit_action_row c e)"
    by (simp add: decision_key_def action_key_def commit_decision_row_def commit_action_row_def)
  have "sql_insert_decision table_ops (commit_decision_row c e) ?w1 = (True, ?w2)"
    using ok tick_quiet [OF q(2)] key
    by (auto simp: table_ops_def table_insert_decision_def Let_def add_rows_def no_rows_def commit_rows_def numeral_2_eq_2)
  then have 2: "insertCommittedDecision table_ops c e ?w1 = (True, ?w2)"
    by (simp add: insertCommittedDecision_def commit_decision_row_def)
  have "insertPolicyEffects table_ops c (enc_effects e) ?w2 =
      (True, ?w2\<lparr>db_staged := db_staged ?w2\<lparr>t_effects := map (effect_row c) (rev (enc_effects e)) @ t_effects (db_staged ?w2)\<rparr>,
             db_script := drop ?k (db_script ?w2)\<rparr>)"
    using ok q(3) by (intro quiet_effects) (auto simp: list_all_iff add_rows_def no_rows_def commit_rows_def commit_decision_row_def)
  then have 3: "insertPolicyEffects table_ops c (enc_effects e) ?w2 =
      (True, w\<lparr>db_staged := commit_rows c e, db_script := drop (2 + ?k) (db_script w)\<rparr>)"
    by (simp add: commit_rows_def no_rows_def add.commute)
  show thesis by (rule that [OF 1 2 3])
qed

lemma transaction_steps:
  "insertCommittedActionRequest ops c (enc_actionJSON e) w = (Some True, w1) \<Longrightarrow>
   insertCommittedDecision ops c e w1 = (True, w2) \<Longrightarrow> insertPolicyEffects ops c (enc_effects e) w2 = (True, w3) \<Longrightarrow>
   commitTransaction ops c e w =
     (case sql_commit ops w3 of
        (True, w4) \<Rightarrow> (Inr (decisionRecordFromCommit c), w4)
      | (False, w4) \<Rightarrow>
          (case resolveCommitRace (Some ops) c w4 of
             (Inr resolved, w5) \<Rightarrow> (Inr resolved, w5) | (Inl _, w5) \<Rightarrow> (Inl [Application ErrLedgerFailure], w5)))"
  by (simp add: commitTransaction_def Let_def)

lemma commit_steps:
  "encodeEvaluation c = Inr e \<Longrightarrow>
   GetEvaluationByRequestID (Some ops) (commit_RuntimeID c) (commit_RequestID c) w =
     (Inl [Application ErrEvaluationNotFound], w1) \<Longrightarrow>
   sql_begin ops w1 = (True, w2) \<Longrightarrow> CommitEvaluation (Some ops) c w = commitTransaction ops c e w2"
  by (simp add: CommitEvaluation_def errors_Is_def)

lemma select_committed_rows:
  assumes "admissible w c e"
  shows "select_evaluation (add_rows (db_committed w) (commit_rows c e)) (commit_RuntimeID c) (commit_RequestID c) =
    Some (committed_row c e)"
  by (simp add: select_evaluation_def add_rows_def commit_rows_def action_key_def decision_key_def
      commit_action_row_def commit_decision_row_def join_row_def committed_row_def)

text \<open>A new evaluation reaches the final \<^verbatim>\<open>COMMIT\<close> with its rows staged.\<close>

lemma quiet_until_commit:
  assumes st: "storable c" and enc: "encodeEvaluation c = Inr e" and adm: "admissible w c e"
    and quiet: "quiet_for (4 + length (enc_effects e)) w"
  shows "CommitEvaluation (Some table_ops) c w =
    (case sql_commit table_ops (w\<lparr>db_staged := commit_rows c e, db_script := drop (4 + length (enc_effects e)) (db_script w)\<rparr>) of
       (True, w4) \<Rightarrow> (Inr (decisionRecordFromCommit c), w4)
     | (False, w4) \<Rightarrow>
         (case resolveCommitRace (Some table_ops) c w4 of
            (Inr resolved, w5) \<Rightarrow> (Inr resolved, w5) | (Inl _, w5) \<Rightarrow> (Inl [Application ErrLedgerFailure], w5)))"
proof -
  let ?k = "length (enc_effects e)"
  let ?w1 = "w\<lparr>db_script := drop 1 (db_script w)\<rparr>"
  let ?w2 = "w\<lparr>db_staged := no_rows, db_script := drop 2 (db_script w)\<rparr>"
  have q: "quiet_for (Suc (3 + ?k)) w" "quiet_for (Suc (2 + ?k)) ?w1" "quiet_for (2 + ?k) ?w2"
    using quiet quiet_for_split [of 1 "3 + ?k" w] quiet_for_split [of 2 "2 + ?k" w]
    by (simp_all add: quiet_for_def numeral_eq_Suc)
  note trim = encode_trim [OF enc st]
  have get: "GetEvaluationByRequestID (Some table_ops) (commit_RuntimeID c) (commit_RequestID c) w =
      (Inl [Application ErrEvaluationNotFound], ?w1)"
    using quiet_get [OF q(1)] admissible_fresh(1) [OF adm] trim by simp
  have started: "sql_begin table_ops ?w1 = (True, ?w2)"
    using tick_quiet [OF q(2)] by (simp add: table_ops_def table_begin_def numeral_2_eq_2)
  have adm2: "admissible ?w2 c e" using adm by (simp add: admissible_def)
  obtain v1 v2 where ins: "insertCommittedActionRequest table_ops c (enc_actionJSON e) ?w2 = (Some True, v1)"
      "insertCommittedDecision table_ops c e v1 = (True, v2)"
      "insertPolicyEffects table_ops c (enc_effects e) v2 =
         (True, ?w2\<lparr>db_staged := commit_rows c e, db_script := drop (2 + ?k) (db_script ?w2)\<rparr>)"
    using quiet_inserts [OF adm2 _ q(3)] by auto
  have "drop (2 + ?k) (db_script ?w2) = drop (4 + ?k) (db_script w)" by (simp add: numeral_eq_Suc)
  then show ?thesis unfolding commit_steps [OF enc get started] transaction_steps [OF ins] by simp
qed

text \<open>
  Without faults the evaluation is stored and its record returned; when only the acknowledgement of
  the commit is lost, the record is found again and returned all the same.
\<close>

lemma quiet_commit:
  assumes "storable c" "encodeEvaluation c = Inr e" "admissible w c e" "quiet_for (5 + length (enc_effects e)) w"
  shows "CommitEvaluation (Some table_ops) c w = (Inr (decisionRecordFromCommit c),
    w\<lparr>db_committed := add_rows (db_committed w) (commit_rows c e), db_staged := no_rows,
      db_script := drop (5 + length (enc_effects e)) (db_script w)\<rparr>)"
proof -
  let ?k = "length (enc_effects e)"
  let ?w3 = "w\<lparr>db_staged := commit_rows c e, db_script := drop (4 + ?k) (db_script w)\<rparr>"
  have q: "quiet_for (4 + ?k) w" "quiet_for (Suc 0) ?w3"
    using assms(4) quiet_for_split [of "4 + ?k" 1 w] by (simp_all add: quiet_for_def add.commute)
  show ?thesis
    unfolding quiet_until_commit [OF assms(1-3) q(1)] using tick_quiet [OF q(2)]
    by (simp add: table_ops_def table_commit_def)
qed

lemma lost_acknowledgement_commit:
  assumes wf: "wf_commit c" and enc: "encodeEvaluation c = Inr e" and adm: "admissible w c e"
    and script: "db_script w = replicate (4 + length (enc_effects e)) Quiet @ LostAck # Quiet # s"
  shows "CommitEvaluation (Some table_ops) c w = (Inr (decisionRecordFromCommit c),
    w\<lparr>db_committed := add_rows (db_committed w) (commit_rows c e), db_staged := no_rows, db_script := s\<rparr>)"
proof -
  let ?k = "length (enc_effects e)"
  let ?w3 = "w\<lparr>db_staged := commit_rows c e, db_script := LostAck # Quiet # s\<rparr>"
  let ?w4 = "w\<lparr>db_committed := add_rows (db_committed w) (commit_rows c e), db_staged := no_rows, db_script := Quiet # s\<rparr>"
  note st = wf_commit_storable [OF wf]
  have drop: "drop (4 + ?k) (db_script w) = LostAck # Quiet # s" and quiet: "quiet_for (4 + ?k) w"
    unfolding script by (simp, rule quiet_for_simps(3) [OF script])
  have commit: "sql_commit table_ops ?w3 = (False, ?w4)"
    using tick_LostAck [of ?w3 "Quiet # s"] by (simp add: table_ops_def table_commit_def)
  have "quiet_for (Suc 0) ?w4" by (simp add: quiet_for_def)
  then have race: "resolveCommitRace (Some table_ops) c ?w4 = (Inr (decisionRecordFromCommit c), ?w4\<lparr>db_script := s\<rparr>)"
    using quiet_get [of 0 ?w4 "commit_RuntimeID c" "commit_RequestID c"] select_committed_rows [OF adm]
      reconstruct_committed_row [OF wf enc] encode_trim [OF enc st]
    by (simp add: resolveCommitRace_def resolveExisting_def decisionRecordFromCommit_def)
  show ?thesis unfolding quiet_until_commit [OF st enc adm quiet] drop commit by (simp add: race)
qed

end
