(* ===== verification/Service.thy ===== *)
theory Service
  imports Normalizer TableStore
begin

text \<open>
  The decision service (\<^verbatim>\<open>internal/application/decision_service.go\<close>, \<^verbatim>\<open>ids.go\<close>, \<^verbatim>\<open>ports.go\<close>, \<^verbatim>\<open>clock.go\<close>). Its
  dependencies are the ports of the application layer, functions on a world that each call may change.
  The locale \<open>decision_ports\<close> is what the service relies on; the service is shown to return, for every
  request, the one record the ledger binds the request to.
\<close>

section \<open>Identifiers and ports\<close>

type_synonym IDKind = string

definition IDDecision :: IDKind where "IDDecision = ''DECISION''"
definition IDPolicyEffect :: IDKind where "IDPolicyEffect = ''POLICY_EFFECT''"

definition IDKind_Valid :: "IDKind \<Rightarrow> bool" where
  "IDKind_Valid kind \<longleftrightarrow> kind = IDDecision \<or> kind = IDPolicyEffect"

definition ParseIDKind :: "string \<Rightarrow> IDKind res" where
  "ParseIDKind value = (if \<not> IDKind_Valid value then Inl [Application ErrInvalidInput] else Inr value)"

text \<open>
  \<^verbatim>\<open>PolicyEvaluator\<close>, \<^verbatim>\<open>DecisionLedger\<close>, \<^verbatim>\<open>Clock\<close> and \<^verbatim>\<open>IDGenerator\<close>. A ledger lookup returns a pointer, so
  success may come with nil.
\<close>

type_synonym 'w PolicyEvaluator = "ProposedAction \<Rightarrow> 'w \<Rightarrow> PolicyEvaluation res \<times> 'w"

type_synonym 'w DecisionLedgerPort =
  "(string \<Rightarrow> string \<Rightarrow> 'w \<Rightarrow> StoredEvaluation option res \<times> 'w) \<times> (EvaluationCommit \<Rightarrow> 'w \<Rightarrow> DecisionRecord res \<times> 'w)"

type_synonym 'w Clock = "'w \<Rightarrow> Time \<times> 'w"

type_synonym 'w IDGenerator = "IDKind \<Rightarrow> 'w \<Rightarrow> string res \<times> 'w"

record 'w Ports =
  port_Evaluate :: "'w PolicyEvaluator"
  port_Get :: "string \<Rightarrow> string \<Rightarrow> 'w \<Rightarrow> StoredEvaluation option res \<times> 'w"
  port_Commit :: "EvaluationCommit \<Rightarrow> 'w \<Rightarrow> DecisionRecord res \<times> 'w"
  port_Now :: "'w Clock"
  port_NewID :: "'w IDGenerator"

record EvaluateActionCommand =
  command_RequestID :: string
  command_ProposedAction :: ProposedActionInput

text \<open>A service is constructed only when all four dependencies are given.\<close>

definition NewDecisionService ::
    "'w PolicyEvaluator option \<Rightarrow> 'w DecisionLedgerPort option \<Rightarrow> 'w Clock option \<Rightarrow> 'w IDGenerator option \<Rightarrow>
     'w Ports res" where
  "NewDecisionService evaluator ledger clock ids =
     (case (evaluator, ledger, clock, ids) of
        (Some e, Some (g, c), Some n, Some i) \<Rightarrow>
          Inr \<lparr>port_Evaluate = e, port_Get = g, port_Commit = c, port_Now = n, port_NewID = i\<rparr>
      | _ \<Rightarrow> Inl [Application ErrInvalidInput])"

section \<open>The service\<close>

definition normalizeDecisionRequestID :: "string \<Rightarrow> string res" where
  "normalizeDecisionRequestID value0 =
     (let value = TrimSpace value0 in
      if value = [] \<or> 256 < length value then Inl [Application ErrInvalidInput] else Inr value)"

definition validPolicyEffect :: "PolicyEffect option \<Rightarrow> bool" where
  "validPolicyEffect effect =
     (case effect of
        Some (CreateSafetyReviewEffect _) \<Rightarrow> PolicyEffectType_Valid PolicyEffectCreateSafetyReview
      | Some (CreateSafetyReviewPtr p) \<Rightarrow> p \<noteq> None \<and> PolicyEffectType_Valid PolicyEffectCreateSafetyReview
      | None \<Rightarrow> False)"

definition validatePolicyEvaluation :: "PolicyEvaluation \<Rightarrow> unit res" where
  "validatePolicyEvaluation ev =
     (let unavailable = [Application ErrPolicyUnavailable] in
      if TrimSpace (PolicyVersion ev) = [] then Inl unavailable
      else if \<not> list_all (\<lambda>r. TrimSpace r \<noteq> []) (MatchedRuleIDs ev) then Inl unavailable
      else guard_res (list_all validPolicyEffect (Effects ev)) unavailable)"

definition newRequiredID :: "'w Ports \<Rightarrow> IDKind \<Rightarrow> 'w \<Rightarrow> string res \<times> 'w" where
  "newRequiredID ports kind w =
     (case port_NewID ports kind w of
        (Inl e, w') \<Rightarrow> (Inl (Application ErrIDGeneration # e), w')
      | (Inr value0, w') \<Rightarrow>
          let value = TrimSpace value0 in
          (if value = [] then Inl [Application ErrIDGeneration] else Inr value, w'))"

fun preparePolicyEffects :: "'w Ports \<Rightarrow> PolicyEffect option list \<Rightarrow> 'w \<Rightarrow> PolicyEffectCommit list res \<times> 'w" where
  "preparePolicyEffects ports [] w = (Inr [], w)"
| "preparePolicyEffects ports (effect # effects) w =
     (if \<not> validPolicyEffect effect then (Inl [Application ErrPolicyUnavailable], w)
      else case newRequiredID ports IDPolicyEffect w of
        (Inl e, w1) \<Rightarrow> (Inl e, w1)
      | (Inr effectID, w1) \<Rightarrow>
          (case preparePolicyEffects ports effects w1 of
             (Inl e, w2) \<Rightarrow> (Inl e, w2)
           | (Inr rest, w2) \<Rightarrow> (Inr (\<lparr>EffectID = effectID, Effect = effect\<rparr> # rest), w2)))"

definition validateAuthoritativeDecision :: "DecisionRecord \<Rightarrow> string \<Rightarrow> unit res" where
  "validateAuthoritativeDecision record0 actionDigest =
     guard_res (\<not> (TrimSpace (record_DecisionID record0) = [] \<or>
        \<not> DecisionType_Valid (decision_typ (record_Decision record0)) \<or>
        record_ActionDigest record0 \<noteq> actionDigest \<or> TrimSpace (record_PolicyVersion record0) = [] \<or>
        Time_IsZero (record_EvaluatedAt record0))) [Application ErrLedgerFailure]"

definition resolveStoredEvaluation ::
    "StoredEvaluation option \<Rightarrow> string \<Rightarrow> string \<Rightarrow> string \<Rightarrow> DecisionRecord res" where
  "resolveStoredEvaluation stored rid qid actionDigest =
     (case stored of
        None \<Rightarrow> Inl [Application ErrLedgerFailure]
      | Some s \<Rightarrow>
          if stored_RuntimeID s \<noteq> rid \<or> stored_RequestID s \<noteq> qid then Inl [Application ErrLedgerFailure]
          else if record_ActionDigest (stored_Decision s) \<noteq> actionDigest then Inl [Application ErrRequestIDConflict]
          else res_bind (validateAuthoritativeDecision (stored_Decision s) actionDigest) (\<lambda>_. Inr (stored_Decision s)))"

definition wrapLedgerError :: "goerr \<Rightarrow> goerr" where
  "wrapLedgerError e =
     (if errors_Is e (Application ErrLedgerFailure) then e else Application ErrLedgerFailure # e)"

text \<open>From the policy evaluation to the commit: the part of \<^verbatim>\<open>Evaluate\<close> that runs for a new request.\<close>

definition decideAndCommit ::
    "'w Ports \<Rightarrow> string \<Rightarrow> string \<Rightarrow> ProposedAction \<Rightarrow> string \<Rightarrow> 'w \<Rightarrow> DecisionRecord res \<times> 'w" where
  "decideAndCommit ports rid qid action actionDigest w =
     (case port_Evaluate ports action w of
        (Inl e, w1) \<Rightarrow> (Inl (Application ErrPolicyUnavailable # e), w1)
      | (Inr evaluation, w1) \<Rightarrow>
          (case validatePolicyEvaluation evaluation of
             Inl e \<Rightarrow> (Inl e, w1)
           | Inr _ \<Rightarrow>
               (case Compose evaluation of
                  Inl e \<Rightarrow> (Inl (Application ErrPolicyUnavailable # e), w1)
                | Inr decision \<Rightarrow>
                    (case newRequiredID ports IDDecision w1 of
                       (Inl e, w2) \<Rightarrow> (Inl e, w2)
                     | (Inr decisionID, w2) \<Rightarrow>
                         (case preparePolicyEffects ports (Effects evaluation) w2 of
                            (Inl e, w3) \<Rightarrow> (Inl e, w3)
                          | (Inr effects, w3) \<Rightarrow>
                              (case port_Now ports w3 of (now, w4) \<Rightarrow>
                                 let evaluatedAt = Time_UTC now in
                                 if Time_IsZero evaluatedAt then (Inl [Application ErrClockFailure], w4)
                                 else (case port_Commit ports
                                   \<lparr>commit_RuntimeID = rid, commit_RequestID = qid, commit_Action = action,
                                    commit_ActionDigest = actionDigest, commit_DecisionID = decisionID,
                                    commit_Decision = decision, commit_PolicyVersion = TrimSpace (PolicyVersion evaluation),
                                    commit_MatchedRuleIDs = MatchedRuleIDs evaluation, commit_Effects = effects,
                                    commit_EvaluatedAt = evaluatedAt\<rparr> w4 of
                                     (Inl e, w5) \<Rightarrow>
                                       (Inl (if errors_Is e (Application ErrRequestIDConflict) then e else wrapLedgerError e), w5)
                                   | (Inr rec, w5) \<Rightarrow>
                                       (res_bind (validateAuthoritativeDecision rec actionDigest) (\<lambda>_. Inr rec), w5))))))))"

definition Evaluate ::
    "'w Ports option \<Rightarrow> AuthenticatedRuntime \<Rightarrow> EvaluateActionCommand \<Rightarrow> 'w \<Rightarrow> DecisionRecord res \<times> 'w" where
  "Evaluate service runtime command w =
     (case service of
        None \<Rightarrow> (Inl [Application ErrInvalidInput], w)
      | Some ports \<Rightarrow>
          (case normalizeDecisionRequestID (command_RequestID command) of
             Inl e \<Rightarrow> (Inl e, w)
           | Inr requestID \<Rightarrow>
               (case Normalize runtime (command_ProposedAction command) of
                  Inl e \<Rightarrow> (Inl e, w)
                | Inr action \<Rightarrow>
                    (case ComputeActionDigest action of
                       Inl _ \<Rightarrow> (Inl [Application ErrInvalidInput], w)
                     | Inr actionDigest \<Rightarrow>
                         (case port_Get ports (authenticated_runtimeID runtime) requestID w of
                            (Inr existing, w1) \<Rightarrow>
                              (resolveStoredEvaluation existing (authenticated_runtimeID runtime) requestID actionDigest, w1)
                          | (Inl e, w1) \<Rightarrow>
                              if \<not> errors_Is e (Application ErrEvaluationNotFound) then (Inl (wrapLedgerError e), w1)
                              else decideAndCommit ports (authenticated_runtimeID runtime) requestID action
                                actionDigest w1)))))"

section \<open>Results for any ports\<close>

text \<open>The digest a request is evaluated under.\<close>

definition request_digest :: "AuthenticatedRuntime \<Rightarrow> EvaluateActionCommand \<Rightarrow> string \<Rightarrow> bool" where
  "request_digest runtime command d \<longleftrightarrow>
     (\<exists>a. Normalize runtime (command_ProposedAction command) = Inr a \<and> ComputeActionDigest a = Inr d)"

lemma request_digest_unique: "request_digest r c d \<Longrightarrow> request_digest r c d' \<Longrightarrow> d = d'"
  by (auto simp: request_digest_def)

lemma validateAuthoritativeDecision_Inr_iff [res_simps]:
  "validateAuthoritativeDecision rec d = Inr u \<longleftrightarrow>
     TrimSpace (record_DecisionID rec) \<noteq> [] \<and> DecisionType_Valid (decision_typ (record_Decision rec)) \<and>
     record_ActionDigest rec = d \<and> TrimSpace (record_PolicyVersion rec) \<noteq> [] \<and>
     \<not> Time_IsZero (record_EvaluatedAt rec)"
  by (auto simp: validateAuthoritativeDecision_def guard_res_Inr_iff)

lemma validateAuthoritativeDecision_Inl [res_simps]:
  "validateAuthoritativeDecision rec d = Inl e \<Longrightarrow> e = [Application ErrLedgerFailure]"
  by (auto simp: validateAuthoritativeDecision_def guard_res_Inl_iff)

lemma resolveStoredEvaluation_Inr:
  "resolveStoredEvaluation existing rid qid d = Inr rec \<Longrightarrow>
     \<exists>s. existing = Some s \<and> stored_RuntimeID s = rid \<and> stored_RequestID s = qid \<and> stored_Decision s = rec \<and>
       validateAuthoritativeDecision rec d = Inr ()"
  by (auto simp: resolveStoredEvaluation_def res_simps split: option.splits if_splits)

lemma decideAndCommit_validated:
  "decideAndCommit ports rid qid a d w = (Inr rec, w') \<Longrightarrow> validateAuthoritativeDecision rec d = Inr ()"
  by (auto simp: decideAndCommit_def Let_def res_simps split: prod.splits sum.splits if_splits)

lemma Evaluate_Inr:
  assumes "Evaluate service runtime command w = (Inr rec, w')"
  obtains ports a d where "service = Some ports"
    "normalizeDecisionRequestID (command_RequestID command) = Inr (TrimSpace (command_RequestID command))"
    "Normalize runtime (command_ProposedAction command) = Inr a" "ComputeActionDigest a = Inr d"
    "validateAuthoritativeDecision rec d = Inr ()"
proof -
  have "\<exists>ports a d. service = Some ports \<and>
    normalizeDecisionRequestID (command_RequestID command) = Inr (TrimSpace (command_RequestID command)) \<and>
    Normalize runtime (command_ProposedAction command) = Inr a \<and> ComputeActionDigest a = Inr d \<and>
    validateAuthoritativeDecision rec d = Inr ()"
    using assms decideAndCommit_validated
    by (fastforce simp: Evaluate_def normalizeDecisionRequestID_def Let_def dest: resolveStoredEvaluation_Inr
        split: option.splits sum.splits prod.splits if_splits)
  then show thesis using that by blast
qed

section \<open>What the service relies on\<close>

text \<open>
  The world only moves forward: what a request is bound to stays bound. The other laws are the
  contract of each port: lookups and commits answer with the binding of the request, rule identifiers
  are UTF-8 and the clock shows a time of the years 0 to 9999.
\<close>

definition keeps :: "('w \<Rightarrow> bool) \<Rightarrow> ('w \<Rightarrow> string \<Rightarrow> string \<Rightarrow> DecisionRecord \<Rightarrow> bool) \<Rightarrow> 'w \<Rightarrow> 'w \<Rightarrow> bool" where
  "keeps invar binding w w' \<longleftrightarrow> invar w' \<and> (\<forall>r q rec. binding w r q rec \<longrightarrow> binding w' r q rec)"

lemma keeps_refl: "invar w \<Longrightarrow> keeps invar binding w w"
  by (simp add: keeps_def)

lemma keeps_trans: "keeps invar binding w w' \<Longrightarrow> keeps invar binding w' w'' \<Longrightarrow> keeps invar binding w w''"
  by (simp add: keeps_def)

lemma keeps_invar: "keeps invar binding w w' \<Longrightarrow> invar w'"
  by (simp add: keeps_def)

lemma keeps_binding: "keeps invar binding w w' \<Longrightarrow> binding w r q rec \<Longrightarrow> binding w' r q rec"
  by (simp add: keeps_def)

locale decision_ports =
  fixes ports :: "'w Ports"
    and invar :: "'w \<Rightarrow> bool"
    and binding :: "'w \<Rightarrow> string \<Rightarrow> string \<Rightarrow> DecisionRecord \<Rightarrow> bool"
  assumes binding_unique: "invar w \<Longrightarrow> binding w r q rec1 \<Longrightarrow> binding w r q rec2 \<Longrightarrow> rec1 = rec2"
    and evaluate_law: "invar w \<Longrightarrow> port_Evaluate ports a w = (res, w') \<Longrightarrow>
      keeps invar binding w w' \<and> (\<forall>ev. res = Inr ev \<longrightarrow> list_all valid_utf8 (MatchedRuleIDs ev))"
    and get_law: "invar w \<Longrightarrow> port_Get ports r q w = (found, w') \<Longrightarrow>
      keeps invar binding w w' \<and>
      (\<forall>s. found = Inr (Some s) \<longrightarrow> binding w' (TrimSpace r) (TrimSpace q) (stored_Decision s))"
    and commit_law: "invar w \<Longrightarrow> wf_commit c \<Longrightarrow> port_Commit ports c w = (outcome, w') \<Longrightarrow>
      keeps invar binding w w' \<and>
      (\<forall>rec. outcome = Inr rec \<longrightarrow> binding w' (commit_RuntimeID c) (commit_RequestID c) rec)"
    and now_law: "invar w \<Longrightarrow> port_Now ports w = (t, w') \<Longrightarrow>
      keeps invar binding w w' \<and> rfc3339_time (Time_UTC t)"
    and new_id_law: "invar w \<Longrightarrow> port_NewID ports kind w = (newid, w') \<Longrightarrow> keeps invar binding w w'"

text \<open>The requests the service is given: an authenticated runtime, texts in UTF-8, a time of the years 0 to 9999.\<close>

definition wf_request :: "AuthenticatedRuntime \<Rightarrow> EvaluateActionCommand \<Rightarrow> bool" where
  "wf_request runtime command \<longleftrightarrow>
     wf_runtime runtime \<and> valid_utf8 (authenticated_runtimeID runtime) \<and>
     utf8_input (command_ProposedAction command) \<and>
     rfc3339_time (Time_UTC (input_RequestedAt (command_ProposedAction command)))"

lemma wf_request_action:
  assumes "wf_request runtime command" "Normalize runtime (command_ProposedAction command) = Inr a"
  shows "wf_action a" "utf8_action a" "rfc3339_time (action_requestedAt a)"
    "TrimSpace (authenticated_runtimeID runtime) = authenticated_runtimeID runtime"
  using assms normalizeAction_wf [of runtime "command_ProposedAction command" a]
    normalizeAction_utf8 [of runtime "command_ProposedAction command" a]
  by (simp_all add: wf_request_def wf_runtime_def wf_identifier_TrimSpace)

type_synonym request = "AuthenticatedRuntime \<times> EvaluateActionCommand"

definition request_key :: "request \<Rightarrow> string \<times> string" where
  "request_key r = (authenticated_runtimeID (fst r), TrimSpace (command_RequestID (snd r)))"

context decision_ports
begin

lemma newRequiredID_keeps:
  "invar w \<Longrightarrow> newRequiredID ports kind w = (res, w') \<Longrightarrow> keeps invar binding w w'"
  using new_id_law by (fastforce simp: newRequiredID_def Let_def split: prod.splits sum.splits)

lemma preparePolicyEffects_keeps:
  "invar w \<Longrightarrow> preparePolicyEffects ports es w = (res, w') \<Longrightarrow> keeps invar binding w w'"
proof (induction es arbitrary: w res)
  case (Cons e es)
  obtain x w1 where x: "newRequiredID ports IDPolicyEffect w = (x, w1)" by (rule prod.exhaust)
  obtain y w2 where y: "preparePolicyEffects ports es w1 = (y, w2)" by (rule prod.exhaust)
  note k1 = newRequiredID_keeps [OF Cons.prems(1) x]
  note k2 = Cons.IH [OF keeps_invar [OF k1]]
  show ?case
    using Cons.prems(2) x y k1 keeps_trans [OF k1 k2 [of y]] keeps_refl [of invar w, OF Cons.prems(1)]
    by (auto split: if_splits sum.splits)
qed (simp add: keeps_refl)

text \<open>A successful answer is what the request is bound to.\<close>

definition answered :: "string \<Rightarrow> string \<Rightarrow> 'w \<Rightarrow> DecisionRecord res \<times> 'w \<Rightarrow> bool" where
  "answered rid qid w r \<longleftrightarrow>
     keeps invar binding w (snd r) \<and> (\<forall>rec. fst r = Inr rec \<longrightarrow> binding (snd r) rid qid rec)"

lemma answered_error: "keeps invar binding w w' \<Longrightarrow> answered rid qid w (Inl e, w')"
  by (simp add: answered_def)

lemma answered_trans: "keeps invar binding w w1 \<Longrightarrow> answered rid qid w1 r \<Longrightarrow> answered rid qid w r"
  by (auto simp: answered_def intro: keeps_trans)

lemma commit_answered:
  assumes "invar w" "wf_commit c"
  shows "answered (commit_RuntimeID c) (commit_RequestID c) w
    (case port_Commit ports c w of
       (Inl e, w5) \<Rightarrow> (Inl (f e), w5)
     | (Inr rec, w5) \<Rightarrow> (res_bind (validateAuthoritativeDecision rec d) (\<lambda>_. Inr rec), w5))"
proof -
  obtain x w5 where x: "port_Commit ports c w = (x, w5)" by (rule prod.exhaust)
  show ?thesis using commit_law [OF assms x] x by (auto simp: answered_def res_simps split: sum.splits)
qed

lemma decide_answered:
  assumes inv: "invar w" and wf: "wf_request runtime command"
    and a: "Normalize runtime (command_ProposedAction command) = Inr a"
    and qid: "TrimSpace qid = qid"
  shows "answered (authenticated_runtimeID runtime) qid w
    (decideAndCommit ports (authenticated_runtimeID runtime) qid a d w)"
proof -
  let ?rid = "authenticated_runtimeID runtime"
  obtain x w1 where x: "port_Evaluate ports a w = (x, w1)" by (rule prod.exhaust)
  note law1 = evaluate_law [OF inv x]
  note k1 = conjunct1 [OF law1]
  obtain i w2 where i: "newRequiredID ports IDDecision w1 = (i, w2)" by (rule prod.exhaust)
  note k2 = keeps_trans [OF k1 newRequiredID_keeps [OF keeps_invar [OF k1] i]]
  show ?thesis
  proof (cases x)
    case (Inl e)
    then show ?thesis using k1 x by (simp add: decideAndCommit_def answered_error)
  next
    case (Inr ev)
    obtain fs w3 where fs: "preparePolicyEffects ports (Effects ev) w2 = (fs, w3)" by (rule prod.exhaust)
    note k3 = keeps_trans [OF k2 preparePolicyEffects_keeps [OF keeps_invar [OF k2] fs]]
    obtain t w4 where t: "port_Now ports w3 = (t, w4)" by (rule prod.exhaust)
    note law4 = now_law [OF keeps_invar [OF k3] t]
    note k4 = keeps_trans [OF k3 conjunct1 [OF law4]]
    note errs = answered_error [OF k1] answered_error [OF k2] answered_error [OF k3] answered_error [OF k4]
    have final: "answered ?rid qid w
      (case port_Commit ports c w4 of
         (Inl e, w5) \<Rightarrow> (Inl (f e), w5)
       | (Inr rec, w5) \<Rightarrow> (res_bind (validateAuthoritativeDecision rec d) (\<lambda>_. Inr rec), w5))"
      if "c = \<lparr>commit_RuntimeID = ?rid, commit_RequestID = qid, commit_Action = a, commit_ActionDigest = d,
          commit_DecisionID = did, commit_Decision = dec, commit_PolicyVersion = pv,
          commit_MatchedRuleIDs = MatchedRuleIDs ev, commit_Effects = efs, commit_EvaluatedAt = Time_UTC t\<rparr>"
        "Compose ev = Inr dec" for c did dec pv efs f
    proof -
      have "wf_commit c"
        using that wf_request_action [OF wf a] wf_Compose law1 law4 qid Inr by (simp add: wf_commit_def)
      from commit_answered [OF keeps_invar [OF k4] this] show ?thesis
        using that(1) by (auto intro: answered_trans [OF k4])
    qed
    show ?thesis
      using x Inr i fs t errs
      by (auto simp: decideAndCommit_def Let_def split: sum.splits intro!: final)
  qed
qed

lemma service_answered:
  assumes inv: "invar w" and wf: "wf_request runtime command"
  shows "answered (authenticated_runtimeID runtime) (TrimSpace (command_RequestID command)) w
    (Evaluate (Some ports) runtime command w)"
proof -
  let ?rid = "authenticated_runtimeID runtime" and ?qid = "TrimSpace (command_RequestID command)"
  obtain x w1 where x: "port_Get ports ?rid ?qid w = (x, w1)" by (rule prod.exhaust)
  note law = get_law [OF inv x]
  have trim: "TrimSpace ?rid = ?rid" using wf by (simp add: wf_request_def wf_runtime_def wf_identifier_TrimSpace)
  have found: "answered ?rid ?qid w (resolveStoredEvaluation s ?rid ?qid d, w1)" if "x = Inr s" for s d
    using law that trim by (auto simp: answered_def dest!: resolveStoredEvaluation_Inr)
  have fresh: "answered ?rid ?qid w (decideAndCommit ports ?rid ?qid a d w1)"
    if "Normalize runtime (command_ProposedAction command) = Inr a" for a d
    using decide_answered [OF _ wf that] law by (auto simp: keeps_def intro: answered_trans)
  have none: "answered ?rid ?qid w (Inl e, w)" "answered ?rid ?qid w (Inl e, w1)" for e
    using law by (auto intro: answered_error keeps_refl [of invar w, OF inv])
  show ?thesis
    using x found fresh none
    by (auto simp: Evaluate_def normalizeDecisionRequestID_def Let_def split: sum.splits)
qed

end

end
