(* ===== verification/DecodedText.thy ===== *)
theory DecodedText
  imports Wire
begin

text \<open>
  Every text decoded from JSON is valid UTF-8: \<^verbatim>\<open>encoding/json\<close> replaces invalid bytes and lone
  surrogates by U+FFFD. A property of a value that every field of its decoder keeps is kept by the
  decoder; the structs of \<open>Wire\<close> are instances.
\<close>

section \<open>String literals\<close>

lemma valid_utf8_append: "valid_utf8 s \<Longrightarrow> valid_utf8 t \<Longrightarrow> valid_utf8 (s @ t)"
proof -
  assume "valid_utf8 s" "valid_utf8 t"
  then obtain rs us where "\<forall>r \<in> set rs. valid_rune r" "s = concat (map EncodeRune rs)"
      "\<forall>r \<in> set us. valid_rune r" "t = concat (map EncodeRune us)"
    unfolding valid_utf8_iff by blast
  then have "\<forall>r \<in> set (rs @ us). valid_rune r" "s @ t = concat (map EncodeRune (rs @ us))" by auto
  then show ?thesis unfolding valid_utf8_iff by blast
qed

lemma valid_utf8_EncodeRune: "valid_rune r \<Longrightarrow> valid_utf8 (EncodeRune r)"
  unfolding valid_utf8_iff by (rule exI [of _ "[r]"]) simp

lemma hex_value_less: "hex_value c = Some n \<Longrightarrow> n < 16"
  by (auto simp: hex_value_def split: if_splits)

lemma hex4_less: "hex4 s = Some (r, t) \<Longrightarrow> r < 65536"
  by (induction s rule: hex4.induct) (auto split: option.splits dest!: hex_value_less)

lemma utf16_escape_valid: "r < 65536 \<Longrightarrow> utf16_escape r s = (out, t) \<Longrightarrow> valid_utf8 out"
  by (auto simp: utf16_escape_def valid_rune_def intro!: valid_utf8_EncodeRune split: list.splits option.splits if_splits)
    (auto simp: valid_rune_def RuneError_def)

lemma parse_escape_valid: "parse_escape s = Some (out, t) \<Longrightarrow> valid_utf8 out"
  by (cases s)
    (auto split: if_splits option.splits intro: valid_utf8_ascii utf16_escape_valid [OF hex4_less])

lemma DecodeRune_valid: "s \<noteq> [] \<Longrightarrow> valid_rune (fst (DecodeRune s))"
  using valid_rune_runes [of "fst (DecodeRune s)" s]
  by (cases "DecodeRune s") (simp add: runes_def rune_chunks.simps [of s])

lemma parse_str_valid: "parse_str s = Some (x, rest) \<Longrightarrow> valid_utf8 x"
proof (induction s arbitrary: x rest rule: parse_str.induct)
  case (1 s)
  obtain c t where s: "s = c # t" using 1(3) by (cases s) (simp_all add: parse_str.simps [of "[]"])
  obtain r n where d: "DecodeRune s = (r, n)" by (rule prod.exhaust)
  have valid: "valid_utf8 (EncodeRune r)" using DecodeRune_valid [of s] s d by (auto intro: valid_utf8_EncodeRune)
  show ?case
  proof (cases "c = CHR 0x5C")
    case True
    then show ?thesis
      using 1(3) 1(1) [OF s _ _ True] s
      by (subst (asm) parse_str.simps)
        (auto split: option.splits if_splits intro!: valid_utf8_append intro: parse_escape_valid)
  next
    case False
    show ?thesis
    proof (cases "c = CHR 0x22")
      case True
      then show ?thesis using 1(3) s by (subst (asm) parse_str.simps) (simp add: valid_utf8_ascii)
    next
      case quote: False
      obtain y where "parse_str (drop n s) = Some (y, rest)" "x = EncodeRune r @ y" "\<not> byte c < 0x20"
        using 1(3) s False quote d by (subst (asm) parse_str.simps) (auto split: option.splits if_splits)
      then show ?thesis using 1(2) [OF s quote _ False d [symmetric]] valid by (auto intro: valid_utf8_append)
    qed
  qed
qed

lemma valid_utf8_unquote: "valid_utf8 (json_unquote raw)"
  by (auto simp: json_unquote_def valid_utf8_ascii intro: parse_str_valid split: option.splits)

section \<open>Decoders\<close>

definition decodes :: "('a \<Rightarrow> bool) \<Rightarrow> 'a decoder \<Rightarrow> bool" where
  "decodes P dec \<longleftrightarrow> (\<forall>j old x. P old \<longrightarrow> dec j old = Inr x \<longrightarrow> P x)"

lemma decodesD: "decodes P dec \<Longrightarrow> dec j old = Inr x \<Longrightarrow> P old \<Longrightarrow> P x"
  by (auto simp: decodes_def)

lemma decodes_string: "decodes valid_utf8 dec_string"
  by (auto simp: decodes_def dec_string_def valid_utf8_unquote split: json.splits)

lemma decodes_True: "decodes (\<lambda>_. True) dec"
  by (simp add: decodes_def)

lemma dec_elements_all:
  "decodes P dec \<Longrightarrow> P zero \<Longrightarrow> list_all P old \<Longrightarrow> dec_elements zero dec js old = Inr xs \<Longrightarrow> list_all P xs"
proof (induction js arbitrary: old xs)
  case (Cons j js)
  have "list_all P (tl old)" "P (case old of [] \<Rightarrow> zero | x # xs \<Rightarrow> x)"
    using Cons.prems(2,3) by (cases old; simp)+
  with Cons.prems(4) Cons.IH [OF Cons.prems(1,2)] decodesD [OF Cons.prems(1)] show ?case
    by (auto simp: res_simps)
qed simp

lemma decodes_slice: "decodes P dec \<Longrightarrow> P zero \<Longrightarrow> decodes (list_all P) (dec_slice zero dec)"
  unfolding decodes_def [of "list_all P"] by (auto simp: dec_slice_def intro: dec_elements_all split: json.splits)

lemma decodes_field:
  assumes "decodes Q dec" "\<And>r. P r \<Longrightarrow> Q (get r)" "\<And>r x. P r \<Longrightarrow> Q x \<Longrightarrow> P (upd (\<lambda>_. x) r)"
  shows "decodes P (snd (field name dec get upd))"
  using assms(2,3) decodesD [OF assms(1)] by (fastforce simp: decodes_def field_def res_simps)

lemma find_field_mem: "find_field fs k = Some dec \<Longrightarrow> dec \<in> snd ` set fs"
  by (force simp: find_field_def split: option.splits dest: map_of_SomeD)

lemma decodes_struct: "list_all (\<lambda>f. decodes P (snd f)) fs \<Longrightarrow> decodes P (dec_struct strict fs)"
proof -
  assume fs: "list_all (\<lambda>f. decodes P (snd f)) fs"
  have "P r \<Longrightarrow> dec_members strict fs ms r = Inr x \<Longrightarrow> P x" for ms r x
  proof (induction ms arbitrary: r)
    case (Cons m ms)
    obtain k j where m: "m = (k, j)" by (rule prod.exhaust)
    show ?case
    proof (cases "find_field fs k")
      case None
      with Cons m show ?thesis by (simp split: if_splits)
    next
      case (Some dec)
      then have "decodes P dec" using find_field_mem fs by (fastforce simp: list_all_iff)
      with Cons m Some show ?thesis using decodesD [of P dec j r] by (auto simp: res_simps)
    qed
  qed simp
  then show ?thesis by (auto simp: decodes_def dec_struct_def split: json.splits)
qed

section \<open>The structs of actions\<close>

definition utf8_actor :: "Actor \<Rightarrow> bool" where
  "utf8_actor a \<longleftrightarrow> valid_utf8 (agentID a) \<and> valid_utf8 (runtimeID a) \<and> valid_utf8 (sessionID a)"

definition utf8_delegation :: "Delegation \<Rightarrow> bool" where
  "utf8_delegation d \<longleftrightarrow> valid_utf8 (delegation_id d) \<and> utf8_principal (delegator d)"

definition utf8_target :: "Target \<Rightarrow> bool" where
  "utf8_target t \<longleftrightarrow> valid_utf8 (resourceType t) \<and> valid_utf8 (resourceID t)"

lemma valid_utf8_Nil [simp]: "valid_utf8 []"
  by (simp add: valid_utf8_ascii)

lemma utf8_zero [simp]:
  "utf8_principal zero_principal" "utf8_actor zero_actor" "utf8_delegation zero_delegation" "utf8_target zero_target"
  "utf8_payload zero_payload" "utf8_scope zero_scope" "utf8_evidence zero_evidence"
  by (simp_all add: utf8_principal_def utf8_actor_def utf8_delegation_def utf8_target_def utf8_payload_def utf8_scope_def
      utf8_evidence_def zero_principal_def zero_actor_def zero_delegation_def zero_target_def zero_payload_def
      zero_scope_def zero_evidence_def)

lemmas field_rules = decodes_field [OF decodes_string] decodes_field [OF decodes_slice [OF decodes_string]]

lemma decodes_principal: "decodes utf8_principal (dec_principal strict)"
  unfolding dec_principal_def
  by (rule decodes_struct, simp only: list.pred_inject, intro conjI TrueI)
    (rule field_rules, simp_all add: utf8_principal_def)+

lemmas principal_rules = field_rules decodes_field [OF decodes_principal] decodes_field [OF decodes_slice [OF decodes_principal]]

lemma decodes_actor: "decodes utf8_actor (dec_actor strict)"
  unfolding dec_actor_def
  by (rule decodes_struct, simp only: list.pred_inject, intro conjI TrueI)
    (rule field_rules, simp_all add: utf8_actor_def)+

lemma decodes_delegation: "decodes utf8_delegation (dec_delegation name strict)"
  unfolding dec_delegation_def
  by (rule decodes_struct, simp only: list.pred_inject, intro conjI TrueI)
    (rule principal_rules, simp_all add: utf8_delegation_def)+

lemma decodes_target: "decodes utf8_target (dec_target strict)"
  unfolding dec_target_def
  by (rule decodes_struct, simp only: list.pred_inject, intro conjI TrueI)
    (rule field_rules, simp_all add: utf8_target_def)+

lemma decodes_payload: "decodes utf8_payload (dec_payload strict)"
  unfolding dec_payload_def
  by (rule decodes_struct, simp only: list.pred_inject, intro conjI TrueI)
    (rule field_rules decodes_field [OF decodes_True], simp_all add: utf8_payload_def)+

lemma decodes_scope: "decodes utf8_scope (dec_scope strict)"
  unfolding dec_scope_def
  by (rule decodes_struct, simp only: list.pred_inject, intro conjI TrueI)
    (rule field_rules, simp_all add: utf8_scope_def)+

lemma decodes_evidence: "decodes utf8_evidence (dec_evidence strict)"
  unfolding dec_evidence_def
  by (rule decodes_struct, simp only: list.pred_inject, intro conjI TrueI)
    (rule principal_rules decodes_field [OF decodes_scope], simp_all add: utf8_evidence_def)+

definition utf8_send :: "ExternalSendParameters \<Rightarrow> bool" where
  "utf8_send v \<longleftrightarrow> valid_utf8 (send_destinationScope v) \<and> list_all valid_utf8 (send_recipients v)"

definition utf8_access :: "UpdateResourceAccessParameters \<Rightarrow> bool" where
  "utf8_access v \<longleftrightarrow> valid_utf8 (access_currentScope v) \<and> valid_utf8 (access_requestedScope v) \<and>
     list_all utf8_principal (access_targetPrincipals v)"

lemma utf8_zero_parameters [simp]: "utf8_send zero_send" "utf8_access zero_access"
  by (simp_all add: utf8_send_def utf8_access_def zero_send_def zero_access_def)

lemma decodes_send: "decodes utf8_send (dec_send strict)"
  unfolding dec_send_def
  by (rule decodes_struct, simp only: list.pred_inject, intro conjI TrueI)
    (rule field_rules, simp_all add: utf8_send_def)+

lemma decodes_access: "decodes utf8_access (dec_access strict)"
  unfolding dec_access_def
  by (rule decodes_struct, simp only: list.pred_inject, intro conjI TrueI)
    (rule principal_rules, simp_all add: utf8_access_def)+

end
