(* ===== verification/HttpApi.thy ===== *)
theory HttpApi
  imports Authentication Service DecodedText
begin

text \<open>
  The HTTP transport (\<^verbatim>\<open>internal/transport/http\<close>: \<^verbatim>\<open>dto.go\<close>, \<^verbatim>\<open>mapper.go\<close>, \<^verbatim>\<open>server.go\<close>). The handler is a
  function from the parts of a request it reads to a response; the use case it calls is a function on
  the world. Logging is left out, routing is the table of patterns handed to \<^verbatim>\<open>http.ServeMux\<close>. The
  transport structs have the fields of the domain records, which carry them as in \<open>Wire\<close>. A Go panic in
  the use case would end the request without an answer; the panic of the normaliser needs parameters
  given as a nil pointer, which a decoded command never has (\<open>toActionParameters_type\<close>).
\<close>

section \<open>Requests (dto.go)\<close>

definition APIVersionV1 :: string where "APIVersionV1 = ''v1''"

text \<open>The constants of the wire format are declared apart from those of the domain and agree with them.\<close>

definition dto_ActionExternalSend :: string where "dto_ActionExternalSend = ''EXTERNAL_SEND''"
definition dto_ActionUpdateResourceAccess :: string where "dto_ActionUpdateResourceAccess = ''UPDATE_RESOURCE_ACCESS''"
definition dto_ActionDelete :: string where "dto_ActionDelete = ''DELETE''"
definition dto_DecisionAllow :: string where "dto_DecisionAllow = ''ALLOW''"
definition dto_DecisionDeny :: string where "dto_DecisionDeny = ''DENY''"
definition dto_RequiredActionRequireApproval :: string where
  "dto_RequiredActionRequireApproval = ''REQUIRE_APPROVAL''"

lemma dto_constants [simp]:
  "dto_ActionExternalSend = ActionExternalSend" "dto_ActionUpdateResourceAccess = ActionUpdateResourceAccess"
  "dto_ActionDelete = ActionDelete" "dto_DecisionAllow = DecisionAllow" "dto_DecisionDeny = DecisionDeny"
  "dto_RequiredActionRequireApproval = RequiredActionRequireApproval"
  by (simp_all add: dto_ActionExternalSend_def dto_ActionUpdateResourceAccess_def dto_ActionDelete_def
      dto_DecisionAllow_def dto_DecisionDeny_def dto_RequiredActionRequireApproval_def action_type_defs DecisionAllow_def
      DecisionDeny_def RequiredActionRequireApproval_def)

definition ErrorMalformedRequest :: string where "ErrorMalformedRequest = ''MALFORMED_REQUEST''"
definition ErrorAuthentication :: string where "ErrorAuthentication = ''AUTHENTICATION_REQUIRED''"
definition ErrorRuntimeForbidden :: string where "ErrorRuntimeForbidden = ''RUNTIME_NOT_AUTHORIZED''"
definition ErrorRequestIDConflict :: string where
  "ErrorRequestIDConflict = ''REQUEST_ID_REUSED_WITH_DIFFERENT_ACTION''"
definition ErrorValidation :: string where "ErrorValidation = ''VALIDATION_FAILED''"
definition ErrorInternal :: string where "ErrorInternal = ''INTERNAL_ERROR''"

record ProposedActionDTO =
  dto_Type :: string
  dto_RequestedAt :: Time
  dto_Actor :: Actor
  dto_Delegation :: Delegation
  dto_Target :: Target
  dto_Parameters :: "json option"
  dto_Payload :: PayloadFacts
  dto_Evidence :: "AuthorizationEvidence list"

record EvaluateActionRequest =
  request_APIVersion :: string
  request_RequestID :: string
  request_ProposedAction :: ProposedActionDTO

definition zero_actionDTO :: ProposedActionDTO where
  "zero_actionDTO =
     \<lparr>dto_Type = [], dto_RequestedAt = zero_time, dto_Actor = zero_actor, dto_Delegation = zero_delegation,
      dto_Target = zero_target, dto_Parameters = None, dto_Payload = zero_payload, dto_Evidence = []\<rparr>"

definition zero_request :: EvaluateActionRequest where
  "zero_request = \<lparr>request_APIVersion = [], request_RequestID = [], request_ProposedAction = zero_actionDTO\<rparr>"

definition dec_actorDTO :: "Actor decoder" where
  "dec_actorDTO = dec_actor True"

definition dec_principalDTO :: "Principal decoder" where
  "dec_principalDTO = dec_principal True"

definition dec_delegationDTO :: "Delegation decoder" where
  "dec_delegationDTO = dec_delegation ''delegationId'' True"

definition dec_targetDTO :: "Target decoder" where
  "dec_targetDTO = dec_target True"

definition dec_payloadDTO :: "PayloadFacts decoder" where
  "dec_payloadDTO = dec_payload True"

definition dec_scopeDTO :: "AuthorizationScope decoder" where
  "dec_scopeDTO = dec_scope True"

definition dec_evidenceDTO :: "AuthorizationEvidence decoder" where
  "dec_evidenceDTO = dec_evidence True"

definition dec_sendDTO :: "ExternalSendParameters decoder" where
  "dec_sendDTO = dec_send True"

definition dec_accessDTO :: "UpdateResourceAccessParameters decoder" where
  "dec_accessDTO = dec_access True"

definition dec_deleteDTO :: "DeleteParameters decoder" where
  "dec_deleteDTO = dec_delete True"

definition dec_actionDTO :: "ProposedActionDTO decoder" where
  "dec_actionDTO = dec_struct True
     [field ''type'' dec_string dto_Type dto_Type_update,
      field ''requestedAt'' unmarshal_time dto_RequestedAt dto_RequestedAt_update,
      field ''actor'' dec_actorDTO dto_Actor dto_Actor_update,
      field ''delegation'' dec_delegationDTO dto_Delegation dto_Delegation_update,
      field ''target'' dec_targetDTO dto_Target dto_Target_update,
      field ''parameters'' dec_raw dto_Parameters dto_Parameters_update,
      field ''payload'' dec_payloadDTO dto_Payload dto_Payload_update,
      field ''authorizationEvidence'' (dec_slice zero_evidence dec_evidenceDTO) dto_Evidence dto_Evidence_update]"

definition dec_request :: "EvaluateActionRequest decoder" where
  "dec_request = dec_struct True
     [field ''apiVersion'' dec_string request_APIVersion request_APIVersion_update,
      field ''requestId'' dec_string request_RequestID request_RequestID_update,
      field ''proposedAction'' dec_actionDTO request_ProposedAction request_ProposedAction_update]"

text \<open>
  \<^verbatim>\<open>decodeStrict\<close>: one JSON value without unknown members and nothing but white space after it. A raw
  message has already been scanned; an absent one is an empty input, which is an error.
\<close>

definition decodeStrict :: "'a decoder \<Rightarrow> string \<Rightarrow> 'a \<Rightarrow> 'a res" where
  "decodeStrict dec input zero = json_unmarshal dec input zero"

definition decodeStrict_raw :: "'a decoder \<Rightarrow> json option \<Rightarrow> 'a \<Rightarrow> 'a res" where
  "decodeStrict_raw dec raw zero = unmarshal_raw dec raw zero"

definition ValidateParameters :: "ProposedActionDTO \<Rightarrow> unit res" where
  "ValidateParameters action =
     (if dto_Type action = dto_ActionExternalSend then
        res_bind (decodeStrict_raw dec_sendDTO (dto_Parameters action) zero_send) (\<lambda>_. Inr ())
      else if dto_Type action = dto_ActionUpdateResourceAccess then
        res_bind (decodeStrict_raw dec_accessDTO (dto_Parameters action) zero_access) (\<lambda>_. Inr ())
      else if dto_Type action = dto_ActionDelete then
        res_bind (decodeStrict_raw dec_deleteDTO (dto_Parameters action) zero_delete) (\<lambda>_. Inr ())
      else Inl [])"

definition maximumDecisionRequestBytes :: nat where
  "maximumDecisionRequestBytes = 2 ^ 20"

text \<open>The body is read through a \<^verbatim>\<open>MaxBytesReader\<close>: a longer one is a read error before the end of input is seen.\<close>

definition DecodeEvaluateActionRequest :: "string \<Rightarrow> EvaluateActionRequest res" where
  "DecodeEvaluateActionRequest body =
     (if maximumDecisionRequestBytes < length body then Inl []
      else
        res_bind (decodeStrict dec_request body zero_request) (\<lambda>request.
        if request_APIVersion request \<noteq> APIVersionV1 then Inl []
        else res_bind (ValidateParameters (request_ProposedAction request)) (\<lambda>_. Inr request)))"

section \<open>Mapping to the use case (mapper.go)\<close>

definition toPrincipalInput :: "Principal \<Rightarrow> Principal res" where
  "toPrincipalInput item =
     res_bind (ParsePrincipalType (principal_typ item)) (\<lambda>typ.
       Inr \<lparr>principal_typ = typ, principal_id = principal_id item\<rparr>)"

definition toActionParameters :: "ProposedActionDTO \<Rightarrow> ActionParametersInput res" where
  "toActionParameters action =
     (if dto_Type action = dto_ActionExternalSend then
        res_bind (decodeStrict_raw dec_sendDTO (dto_Parameters action) zero_send) (\<lambda>v.
          Inr (ExternalSendInput v))
      else if dto_Type action = dto_ActionUpdateResourceAccess then
        res_bind (decodeStrict_raw dec_accessDTO (dto_Parameters action) zero_access) (\<lambda>v.
        res_bind (res_mapM toPrincipalInput (access_targetPrincipals v)) (\<lambda>principals.
          Inr (UpdateResourceAccessInput (v\<lparr>access_targetPrincipals := principals\<rparr>))))
      else if dto_Type action = dto_ActionDelete then
        res_bind (decodeStrict_raw dec_deleteDTO (dto_Parameters action) zero_delete) (\<lambda>v. Inr (DeleteInput v))
      else Inl [])"

definition toEvidenceInput :: "AuthorizationEvidence \<Rightarrow> AuthorizationEvidence res" where
  "toEvidenceInput item =
     res_bind (ParseActionType (scope_actionType (evidence_scope item))) (\<lambda>actionType.
     res_bind (toPrincipalInput (evidence_issuedBy item)) (\<lambda>issuer.
       Inr \<lparr>evidence_typ = evidence_typ item, evidence_id = evidence_id item, evidence_issuedBy = issuer,
            evidence_scope = (evidence_scope item)\<lparr>scope_actionType := actionType\<rparr>\<rparr>))"

definition toEvaluateActionCommand :: "EvaluateActionRequest \<Rightarrow> EvaluateActionCommand res" where
  "toEvaluateActionCommand request =
     (let action = request_ProposedAction request in
      res_bind (ParseActionType (dto_Type action)) (\<lambda>actionType.
      res_bind (toActionParameters action) (\<lambda>parameters.
      res_bind (res_mapM toEvidenceInput (dto_Evidence action)) (\<lambda>evidence.
      res_bind (toPrincipalInput (delegator (dto_Delegation action))) (\<lambda>delegator.
        Inr \<lparr>command_RequestID = request_RequestID request,
             command_ProposedAction =
               \<lparr>input_Type = actionType, input_RequestedAt = dto_RequestedAt action, input_Actor = dto_Actor action,
                input_Delegation = \<lparr>delegation_id = delegation_id (dto_Delegation action), delegator = delegator\<rparr>,
                input_Target = dto_Target action, input_Parameters = Some parameters,
                input_Payload = dto_Payload action, input_Evidence = evidence\<rparr>\<rparr>)))))"

section \<open>Responses\<close>

record DecisionResponse =
  response_APIVersion :: string
  response_RequestID :: string
  response_DecisionID :: string
  response_ActionDigest :: string
  response_Decision :: string
  response_ReasonCodes :: "string list"
  response_RequiredActions :: "string list"
  response_PolicyVersion :: string
  response_EvaluatedAt :: Time

definition toDecisionResponse :: "string \<Rightarrow> DecisionRecord \<Rightarrow> DecisionResponse" where
  "toDecisionResponse requestID record0 =
     \<lparr>response_APIVersion = APIVersionV1, response_RequestID = requestID,
      response_DecisionID = record_DecisionID record0, response_ActionDigest = record_ActionDigest record0,
      response_Decision = decision_typ (record_Decision record0),
      response_ReasonCodes = reasonCodes (record_Decision record0),
      response_RequiredActions = map required_typ (requiredActions (record_Decision record0)),
      response_PolicyVersion = record_PolicyVersion record0, response_EvaluatedAt = record_EvaluatedAt record0\<rparr>"

definition Validate :: "DecisionResponse \<Rightarrow> unit res" where
  "Validate r =
     (if response_APIVersion r \<noteq> APIVersionV1 then Inl []
      else if response_Decision r \<noteq> dto_DecisionAllow \<and> response_Decision r \<noteq> dto_DecisionDeny then Inl []
      else if response_Decision r = dto_DecisionAllow then
        (if length (response_ReasonCodes r) \<noteq> 0 then Inl []
         else if length (response_RequiredActions r) \<noteq> 0 then Inl [] else Inr ())
      else if length (response_ReasonCodes r) = 0 then Inl []
      else
        let hasApprovalReason = list_ex (\<lambda>c. c = ''DELEGATOR_APPROVAL_REQUIRED'') (response_ReasonCodes r) in
        if \<not> list_all (\<lambda>t. t = dto_RequiredActionRequireApproval) (response_RequiredActions r) then Inl []
        else if hasApprovalReason \<noteq> (length (response_RequiredActions r) = 1) then Inl [] else Inr ())"

text \<open>The JSON of a decision response; its time can be outside what \<^verbatim>\<open>MarshalJSON\<close> accepts.\<close>

definition decision_response_json :: "DecisionResponse \<Rightarrow> json res" where
  "decision_response_json r =
     res_bind (marshal_time (response_EvaluatedAt r)) (\<lambda>evaluatedAt.
       Inr (JObj [(''apiVersion'', jstring (response_APIVersion r)), (''requestId'', jstring (response_RequestID r)),
         (''decisionId'', jstring (response_DecisionID r)), (''actionDigest'', jstring (response_ActionDigest r)),
         (''decision'', jstring (response_Decision r)), (''reasonCodes'', jstrings (response_ReasonCodes r)),
         (''requiredActions'', JArr (map (\<lambda>t. JObj [(''type'', jstring t)]) (response_RequiredActions r))),
         (''policy'', JObj [(''version'', jstring (response_PolicyVersion r))]), (''evaluatedAt'', evaluatedAt)]))"

definition error_response_json :: "string \<Rightarrow> string \<Rightarrow> string \<Rightarrow> (string \<times> string) list \<Rightarrow> json" where
  "error_response_json requestID code message details =
     JObj ((''apiVersion'', jstring APIVersionV1) # omitempty ''requestId'' requestID @
       [(''error'', JObj ([(''code'', jstring code), (''message'', jstring message)] @
          (if details = [] then []
           else [(''details'',
             JArr (map (\<lambda>(f, c). JObj (omitempty ''field'' f @ [(''code'', jstring c)])) details))])))])"

section \<open>The handler (server.go)\<close>

record HttpResponse =
  resp_headers :: "(string \<times> string) list"
  resp_status :: nat
  resp_body :: string

definition writeJSON :: "(string \<times> string) list \<Rightarrow> nat \<Rightarrow> json res \<Rightarrow> HttpResponse" where
  "writeJSON headers status v =
     \<lparr>resp_headers = headers @ [(''Content-Type'', ''application/json'')], resp_status = status,
      resp_body = (case v of Inl _ \<Rightarrow> [] | Inr j \<Rightarrow> json_print j @ [CHR 0x0A])\<rparr>"

definition health :: HttpResponse where
  "health = writeJSON [] 200 (Inr (JObj [(''status'', jstring ''ok'')]))"

definition no_store :: "(string \<times> string) list" where
  "no_store = [(''Cache-Control'', ''no-store'')]"

definition writeErrorWithDetails :: "string \<Rightarrow> nat \<Rightarrow> string \<Rightarrow> string \<Rightarrow> (string \<times> string) list \<Rightarrow> HttpResponse" where
  "writeErrorWithDetails requestID status code message details =
     writeJSON no_store status (Inr (error_response_json requestID code message details))"

definition writeError :: "string \<Rightarrow> nat \<Rightarrow> string \<Rightarrow> string \<Rightarrow> HttpResponse" where
  "writeError requestID status code message = writeErrorWithDetails requestID status code message []"

definition writeApplicationError :: "string \<Rightarrow> goerr \<Rightarrow> HttpResponse" where
  "writeApplicationError requestID err =
     (if errors_Is err (Application ErrRuntimeIdentityConflict) then
        writeError requestID 403 ErrorRuntimeForbidden ''The caller is not authorized for this runtime.''
      else if errors_Is err (Application ErrRequestIDConflict) then
        writeErrorWithDetails requestID 409 ErrorRequestIDConflict
          ''The request ID is already bound to a different action.'' [(''requestId'', ''IDEMPOTENCY_CONFLICT'')]
      else if errors_Is err (Application ErrInvalidInput) then
        writeError requestID 422 ErrorValidation ''The proposed action is invalid.''
      else writeError requestID 500 ErrorInternal ''No authoritative decision was produced.'')"

text \<open>\<^verbatim>\<open>strings.Fields\<close>: the words between white space.\<close>

fun fields_loop :: "(nat \<times> string) list \<Rightarrow> string \<Rightarrow> string list" where
  "fields_loop [] word = (if word = [] then [] else [word])"
| "fields_loop ((r, c) # cs) word =
     (if r \<in> set space_runes then (if word = [] then fields_loop cs [] else word # fields_loop cs [])
      else fields_loop cs (word @ c))"

definition strings_Fields :: "string \<Rightarrow> string list" where
  "strings_Fields s = fields_loop (rune_chunks s) []"

text \<open>
  \<^verbatim>\<open>strings.EqualFold\<close> by simple case folding, as in \<open>fold_name\<close>: exact when one side is ASCII, since
  U+017F and U+212A are the only other runes that fold to an ASCII letter.
\<close>

definition EqualFold_ascii :: "string \<Rightarrow> string \<Rightarrow> bool" where
  "EqualFold_ascii s t \<longleftrightarrow> fold_name s = fold_name t"

definition bearerCredential :: "string \<Rightarrow> string res" where
  "bearerCredential v =
     (case strings_Fields v of
        [scheme, token] \<Rightarrow>
          if \<not> EqualFold_ascii scheme ''Bearer'' \<or> token = [] then Inl [Auth ErrCredentialMissing] else Inr token
      | _ \<Rightarrow> Inl [Auth ErrCredentialMissing])"

type_synonym RuntimeAuthenticator = "string \<Rightarrow> AuthenticatedRuntime res"

type_synonym 'w DecisionEvaluator =
  "AuthenticatedRuntime \<Rightarrow> EvaluateActionCommand \<Rightarrow> 'w \<Rightarrow> DecisionRecord res \<times> 'w"

record HttpRequest =
  req_Authorization :: string
  req_Body :: string

record 'w handler =
  runtimeAuthenticator :: RuntimeAuthenticator
  decisionEvaluator :: "'w DecisionEvaluator"

definition evaluateAction :: "'w handler \<Rightarrow> HttpRequest \<Rightarrow> 'w \<Rightarrow> HttpResponse \<times> 'w" where
  "evaluateAction h request w =
     (let unauthorized = writeError [] 401 ErrorAuthentication ''Runtime authentication is required.'' in
      case bearerCredential (req_Authorization request) of
        Inl _ \<Rightarrow> (unauthorized, w)
      | Inr credential \<Rightarrow>
          (case runtimeAuthenticator h credential of
             Inl _ \<Rightarrow> (unauthorized, w)
           | Inr runtime \<Rightarrow>
               (case DecodeEvaluateActionRequest (req_Body request) of
                  Inl _ \<Rightarrow> (writeError [] 400 ErrorMalformedRequest ''The request body is not valid JSON.'', w)
                | Inr decoded \<Rightarrow>
                    (case toEvaluateActionCommand decoded of
                       Inl _ \<Rightarrow>
                         (writeError (request_RequestID decoded) 422 ErrorValidation ''The proposed action is invalid.'', w)
                     | Inr command \<Rightarrow>
                         (case decisionEvaluator h runtime command w of
                            (Inl e, w') \<Rightarrow> (writeApplicationError (request_RequestID decoded) e, w')
                          | (Inr record0, w') \<Rightarrow>
                              let response = toDecisionResponse (request_RequestID decoded) record0 in
                              (case Validate response of
                                 Inl _ \<Rightarrow>
                                   (writeError (request_RequestID decoded) 500 ErrorInternal
                                      ''No authoritative decision was produced.'', w')
                               | Inr _ \<Rightarrow> (writeJSON no_store 200 (decision_response_json response), w')))))))"

text \<open>The routes registered with \<^verbatim>\<open>http.NewServeMux\<close>.\<close>

definition NewHandler ::
    "RuntimeAuthenticator option \<Rightarrow> 'w DecisionEvaluator option \<Rightarrow>
     (string \<times> (HttpRequest \<Rightarrow> 'w \<Rightarrow> HttpResponse \<times> 'w)) list res" where
  "NewHandler authenticator evaluator =
     (case (authenticator, evaluator) of
        (Some a, Some e) \<Rightarrow>
          let h = \<lparr>runtimeAuthenticator = a, decisionEvaluator = e\<rparr> in
          Inr [(''GET /healthz'', \<lambda>_ w. (health, w)), (''POST /v1/action-decisions'', evaluateAction h)]
      | _ \<Rightarrow> Inl [Application ErrInvalidInput])"

section \<open>Decoded requests\<close>

definition utf8_dto :: "ProposedActionDTO \<Rightarrow> bool" where
  "utf8_dto a \<longleftrightarrow> utf8_actor (dto_Actor a) \<and> utf8_delegation (dto_Delegation a) \<and> utf8_target (dto_Target a) \<and>
     utf8_payload (dto_Payload a) \<and> list_all utf8_evidence (dto_Evidence a) \<and> valid_utf8 (dto_Type a)"

definition utf8_request :: "EvaluateActionRequest \<Rightarrow> bool" where
  "utf8_request r \<longleftrightarrow> utf8_dto (request_ProposedAction r) \<and> valid_utf8 (request_RequestID r) \<and>
     valid_utf8 (request_APIVersion r)"

lemmas dto_decoder_defs = dec_actorDTO_def dec_principalDTO_def dec_delegationDTO_def dec_targetDTO_def
  dec_payloadDTO_def dec_scopeDTO_def dec_evidenceDTO_def dec_sendDTO_def dec_accessDTO_def dec_deleteDTO_def

lemma decodes_actionDTO: "decodes utf8_dto dec_actionDTO"
  unfolding dec_actionDTO_def dto_decoder_defs
  by (rule decodes_struct, simp only: list.pred_inject, intro conjI TrueI)
    (rule field_rules decodes_field [OF decodes_actor] decodes_field [OF decodes_delegation]
      decodes_field [OF decodes_target] decodes_field [OF decodes_payload]
      decodes_field [OF decodes_slice [OF decodes_evidence]] decodes_field [OF decodes_True],
      simp_all add: utf8_dto_def)+

lemma decodes_request: "decodes utf8_request dec_request"
  unfolding dec_request_def
  by (rule decodes_struct, simp only: list.pred_inject, intro conjI TrueI)
    (rule field_rules decodes_field [OF decodes_actionDTO], simp_all add: utf8_request_def)+

lemma utf8_zero_request: "utf8_request zero_request"
  by (simp add: utf8_request_def zero_request_def utf8_dto_def zero_actionDTO_def)

lemma decoded_request_utf8:
  assumes "DecodeEvaluateActionRequest body = Inr request"
  shows "utf8_request request" "length body \<le> maximumDecisionRequestBytes" "request_APIVersion request = APIVersionV1"
proof -
  obtain j where "dec_request j zero_request = Inr request"
    using assms by (auto simp: DecodeEvaluateActionRequest_def decodeStrict_def json_unmarshal_def res_simps
        split: if_splits)
  then show "utf8_request request" using decodesD [OF decodes_request] utf8_zero_request by blast
  show "length body \<le> maximumDecisionRequestBytes" "request_APIVersion request = APIVersionV1"
    using assms by (auto simp: DecodeEvaluateActionRequest_def res_simps split: if_splits)
qed

lemma toPrincipalInput_utf8: "toPrincipalInput p = Inr q \<Longrightarrow> utf8_principal p \<Longrightarrow> valid_utf8 (principal_id q)"
  by (auto simp: toPrincipalInput_def utf8_principal_def res_simps)

lemma toPrincipalInputs_utf8:
  "res_mapM toPrincipalInput ps = Inr qs \<Longrightarrow> list_all utf8_principal ps \<Longrightarrow> list_all (\<lambda>q. valid_utf8 (principal_id q)) qs"
  using toPrincipalInput_utf8 by (induction ps arbitrary: qs) (auto simp: res_simps)

lemma toEvidenceInputs_utf8:
  "res_mapM toEvidenceInput es = Inr fs \<Longrightarrow> list_all utf8_evidence es \<Longrightarrow> list_all utf8_evidence_input fs"
proof (induction es arbitrary: fs)
  case (Cons e es)
  then show ?case using toPrincipalInput_utf8
    by (auto simp: res_simps toEvidenceInput_def utf8_evidence_def utf8_evidence_input_def)
qed simp

lemma toActionParameters_utf8:
  assumes "toActionParameters a = Inr p"
  shows "utf8_parameters_input p"
proof -
  consider v where "p = ExternalSendInput v" "utf8_send v"
    | v qs where "p = UpdateResourceAccessInput (v\<lparr>access_targetPrincipals := qs\<rparr>)" "utf8_access v"
        "res_mapM toPrincipalInput (access_targetPrincipals v) = Inr qs"
    | v where "p = DeleteInput v"
    using assms decodesD [OF decodes_send [of True]] decodesD [OF decodes_access [of True]]
    by (fastforce simp: toActionParameters_def decodeStrict_raw_def unmarshal_raw_def dto_decoder_defs res_simps
        split: if_splits option.splits)
  then show ?thesis by cases (auto simp: utf8_send_def utf8_access_def toPrincipalInputs_utf8)
qed

lemma toActionParameters_type: "toActionParameters a = Inr p \<Longrightarrow> parametersInput_actionType p = Some (dto_Type a)"
  by (auto simp: toActionParameters_def res_simps split: if_splits)

lemma command_utf8:
  assumes "utf8_request request" "toEvaluateActionCommand request = Inr command"
  shows "utf8_input (command_ProposedAction command)"
  using assms toActionParameters_utf8 toEvidenceInputs_utf8 toPrincipalInput_utf8
  by (auto simp: toEvaluateActionCommand_def res_simps utf8_input_def utf8_request_def utf8_dto_def utf8_actor_def
      utf8_delegation_def utf8_target_def utf8_payload_def Let_def)

lemma command_requestID:
  "toEvaluateActionCommand request = Inr command \<Longrightarrow> command_RequestID command = request_RequestID request"
  "toEvaluateActionCommand request = Inr command \<Longrightarrow>
     input_RequestedAt (command_ProposedAction command) = dto_RequestedAt (request_ProposedAction request)"
  by (auto simp: toEvaluateActionCommand_def res_simps Let_def)

section \<open>Answers\<close>

text \<open>The checks before the use case runs: an early answer, or the caller and its command.\<close>

definition admit :: "RuntimeAuthenticator \<Rightarrow> HttpRequest \<Rightarrow> HttpResponse + AuthenticatedRuntime \<times> EvaluateActionRequest \<times> EvaluateActionCommand" where
  "admit authenticate request =
     (case res_bind (bearerCredential (req_Authorization request)) authenticate of
        Inl _ \<Rightarrow> Inl (writeError [] 401 ErrorAuthentication ''Runtime authentication is required.'')
      | Inr runtime \<Rightarrow>
          (case DecodeEvaluateActionRequest (req_Body request) of
             Inl _ \<Rightarrow> Inl (writeError [] 400 ErrorMalformedRequest ''The request body is not valid JSON.'')
           | Inr decoded \<Rightarrow>
               (case toEvaluateActionCommand decoded of
                  Inl _ \<Rightarrow> Inl (writeError (request_RequestID decoded) 422 ErrorValidation ''The proposed action is invalid.'')
                | Inr command \<Rightarrow> Inr (runtime, decoded, command))))"

definition decision_answer :: "string \<Rightarrow> DecisionRecord res \<Rightarrow> HttpResponse" where
  "decision_answer requestID outcome =
     (case outcome of
        Inl e \<Rightarrow> writeApplicationError requestID e
      | Inr record0 \<Rightarrow>
          if is_ok (Validate (toDecisionResponse requestID record0))
          then writeJSON no_store 200 (decision_response_json (toDecisionResponse requestID record0))
          else writeError requestID 500 ErrorInternal ''No authoritative decision was produced.'')"

lemma evaluateAction_eq:
  "evaluateAction h request w =
     (case admit (runtimeAuthenticator h) request of
        Inl response \<Rightarrow> (response, w)
      | Inr (runtime, decoded, command) \<Rightarrow>
          (case decisionEvaluator h runtime command w of
             (outcome, w') \<Rightarrow> (decision_answer (request_RequestID decoded) outcome, w')))"
  by (auto simp: evaluateAction_def admit_def decision_answer_def Let_def res_bind_def split: sum.splits prod.splits)

lemma resp_status_writeJSON [simp]: "resp_status (writeJSON hs n v) = n"
  by (simp add: writeJSON_def)

lemma resp_status_writeError [simp]:
  "resp_status (writeError q n c m) = n" "resp_status (writeErrorWithDetails q n c m ds) = n"
  by (simp_all add: writeError_def writeErrorWithDetails_def)

lemma admit_status: "admit authenticate request = Inl r \<Longrightarrow> resp_status r \<in> {400, 401, 422}"
  by (auto simp: admit_def split: sum.splits)

lemma application_error_status:
  "resp_status (writeApplicationError q e) =
     (if errors_Is e (Application ErrRuntimeIdentityConflict) then 403
      else if errors_Is e (Application ErrRequestIDConflict) then 409
      else if errors_Is e (Application ErrInvalidInput) then 422 else 500)"
  by (simp add: writeApplicationError_def)

lemma decision_answer_200_iff:
  "resp_status (decision_answer q outcome) = 200 \<longleftrightarrow>
     (\<exists>rec. outcome = Inr rec \<and> is_ok (Validate (toDecisionResponse q rec)))"
  by (auto simp: decision_answer_def application_error_status split: sum.splits)

text \<open>Well-formed decisions are always valid responses.\<close>

lemma Validate_wf:
  assumes "wf_decision (record_Decision rec)"
  shows "Validate (toDecisionResponse q rec) = Inr ()"
proof -
  have "''DELEGATOR_APPROVAL_REQUIRED'' = ReasonDelegatorApprovalRequired"
    by (simp add: ReasonDelegatorApprovalRequired_def)
  with assms show ?thesis
    by (auto simp: Validate_def toDecisionResponse_def wf_decision_def list_ex_iff list_all_iff Let_def
        DecisionAllow_def DecisionDeny_def NewRequireApprovalAction_def split: if_splits)
qed

section \<open>Admitted requests\<close>

text \<open>
  What the transport cannot check itself: the runtime comes from a configured identity in UTF-8 and
  the requested time stays within the years 0 to 9999 in UTC.
\<close>

definition sound_request :: "RuntimeAuthenticator \<Rightarrow> HttpRequest \<Rightarrow> bool" where
  "sound_request authenticate request =
     (case admit authenticate request of
        Inl _ \<Rightarrow> True
      | Inr (runtime, decoded, command) \<Rightarrow>
          wf_runtime runtime \<and> valid_utf8 (authenticated_runtimeID runtime) \<and>
          rfc3339_time (Time_UTC (dto_RequestedAt (request_ProposedAction decoded))))"

lemma admit_Inr:
  assumes "admit authenticate request = Inr (runtime, decoded, command)"
  shows "DecodeEvaluateActionRequest (req_Body request) = Inr decoded"
    and "toEvaluateActionCommand decoded = Inr command"
    and "\<exists>credential. bearerCredential (req_Authorization request) = Inr credential \<and> authenticate credential = Inr runtime"
  using assms by (auto simp: admit_def res_simps split: sum.splits)

lemma sound_request_wf:
  assumes "sound_request authenticate request" "admit authenticate request = Inr (runtime, decoded, command)"
  shows "wf_request runtime command"
proof -
  note parts = admit_Inr [OF assms(2)]
  have "utf8_input (command_ProposedAction command)"
    using command_utf8 decoded_request_utf8(1) parts by blast
  then show ?thesis
    using assms command_requestID(2) [OF parts(2)] by (simp add: sound_request_def wf_request_def)
qed

text \<open>The runtime and request identifier an HTTP request is admitted under.\<close>

definition http_key :: "RuntimeAuthenticator \<Rightarrow> HttpRequest \<Rightarrow> (string \<times> string) option" where
  "http_key authenticate request =
     (case admit authenticate request of
        Inl _ \<Rightarrow> None
      | Inr (runtime, decoded, command) \<Rightarrow> Some (authenticated_runtimeID runtime, request_RequestID decoded))"

definition service_handler :: "'w Ports \<Rightarrow> RuntimeAuthenticator \<Rightarrow> 'w handler" where
  "service_handler ports authenticate =
     \<lparr>runtimeAuthenticator = authenticate, decisionEvaluator = Evaluate (Some ports)\<rparr>"

end
