(* ===== verification/Osprey.thy ===== *)
theory Osprey
  imports Canonical Policy
begin

text \<open>
  The Osprey policy adapter (\<^verbatim>\<open>internal/policy/osprey\<close>: \<^verbatim>\<open>action_json.go\<close>, \<^verbatim>\<open>coordinator.go\<close>,
  \<^verbatim>\<open>grpc_client.go\<close>, \<^verbatim>\<open>evaluator.go\<close>). The remote procedure call is a parameter: a function of the time
  limit, the request and the world. The lemmas give the evaluation of a list of verdicts in closed
  form and show that the adapter fails closed: whatever the coordinator answers, the composed
  decision allows the action only if every verdict is a well-formed safety-review verdict.
\<close>

section \<open>Action facts (action\_json.go)\<close>

definition actionFactsVersion :: string where
  "actionFactsVersion = ''agent-action-control.osprey/v1''"

definition principalFacts :: "Principal \<Rightarrow> json" where
  "principalFacts p = JObj [(''type'', jstring (principal_typ p)), (''id'', jstring (principal_id p))]"

definition actorFacts :: "Actor \<Rightarrow> json" where
  "actorFacts a =
     JObj ([(''agentId'', jstring (agentID a)), (''runtimeId'', jstring (runtimeID a))] @
           omitempty ''sessionId'' (sessionID a))"

definition delegationFacts :: "Delegation \<Rightarrow> json" where
  "delegationFacts d =
     JObj [(''delegationId'', jstring (delegation_id d)), (''delegator'', principalFacts (delegator d))]"

definition targetFacts :: "Target \<Rightarrow> json" where
  "targetFacts t =
     JObj [(''resourceType'', jstring (resourceType t)), (''resourceId'', jstring (resourceID t))]"

text \<open>\<^verbatim>\<open>Classification()\<close> copies into a nil slice, so an empty classification is \<^verbatim>\<open>null\<close>.\<close>

definition payloadFacts :: "PayloadFacts \<Rightarrow> json" where
  "payloadFacts p =
     JObj ([(''digest'', jstring (payload_digest p)),
            (''classification'', jstrings_or_null (payload_classification p))] @
           (case payload_sizeBytes p of None \<Rightarrow> [] | Some n \<Rightarrow> [(''sizeBytes'', jint_pointer (Some n))]))"

definition authorizationScopeFacts :: "AuthorizationScope \<Rightarrow> json" where
  "authorizationScopeFacts s =
     JObj ((''actionType'', jstring (scope_actionType s)) #
           omitempty ''destinationScope'' (scope_destinationScope s) @
           omitempty ''requestedScope'' (scope_requestedScope s) @
           omitempty ''deleteMode'' (scope_deleteMode s))"

definition authorizationEvidenceFacts :: "AuthorizationEvidence \<Rightarrow> json" where
  "authorizationEvidenceFacts e =
     JObj [(''type'', jstring (evidence_typ e)), (''evidenceId'', jstring (evidence_id e)),
           (''issuedBy'', principalFacts (evidence_issuedBy e)),
           (''scope'', authorizationScopeFacts (evidence_scope e))]"

definition externalSendFacts :: "DestinationScope \<Rightarrow> string list \<Rightarrow> json" where
  "externalSendFacts destinationScope recipients =
     JObj [(''destinationScope'', jstring destinationScope), (''recipients'', jstrings_or_null recipients)]"

definition updateResourceAccessFacts :: "AccessScope \<Rightarrow> AccessScope \<Rightarrow> json list \<Rightarrow> json" where
  "updateResourceAccessFacts currentScope requestedScope targetPrincipals =
     JObj [(''currentScope'', jstring currentScope), (''requestedScope'', jstring requestedScope),
           (''targetPrincipals'', JArr targetPrincipals)]"

definition deleteFacts :: "DeleteMode \<Rightarrow> bool \<Rightarrow> json" where
  "deleteFacts deleteMode recoverable =
     JObj [(''deleteMode'', jstring deleteMode), (''recoverable'', JBool recoverable)]"

fun marshalParameters :: "ActionParameters option \<Rightarrow> json res" where
  "marshalParameters (Some (ExternalSend p)) = Inr (externalSendFacts (send_destinationScope p) (send_recipients p))"
| "marshalParameters (Some (UpdateResourceAccess p)) =
     Inr (updateResourceAccessFacts (access_currentScope p) (access_requestedScope p)
            (map principalFacts (access_targetPrincipals p)))"
| "marshalParameters (Some (Delete p)) = Inr (deleteFacts (delete_mode p) (delete_recoverable p))"
| "marshalParameters None = Inl []"

definition actionFacts :: "ProposedAction \<Rightarrow> json \<Rightarrow> json \<Rightarrow> json" where
  "actionFacts a requestedAt params =
     JObj [(''apiVersion'', jstring actionFactsVersion), (''type'', jstring (action_typ a)),
           (''requestedAt'', requestedAt), (''actor'', actorFacts (action_actor a)),
           (''delegation'', delegationFacts (action_delegation a)), (''target'', targetFacts (action_target a)),
           (''parameters'', params), (''payload'', payloadFacts (action_payload a)),
           (''authorizationEvidence'', JArr (map authorizationEvidenceFacts (action_evidence a)))]"

text \<open>Marshalling fails for unknown parameters and for times outside the years 0 to 9999.\<close>

definition marshalAction :: "ProposedAction \<Rightarrow> string res" where
  "marshalAction a =
     res_bind (marshalParameters (action_parameters a)) (\<lambda>params.
     res_bind (marshal_time (action_requestedAt a)) (\<lambda>requestedAt.
       Inr (json_print (actionFacts a requestedAt params))))"

section \<open>The coordinator (coordinator.go, grpc\_client.go)\<close>

record CoordinatorRequest =
  coord_ActionDataJSON :: string
  coord_Timestamp :: Time

text \<open>The generated messages; the identifier of the action and the timestamp of the verdicts are never read.\<close>

record ProcessActionRequest =
  rpc_ActionName :: string
  rpc_ActionDataJson :: string
  rpc_Timestamp :: Time

record Verdicts =
  verdicts_ActionName :: string
  verdicts_Verdicts :: "string list"

record ProcessActionResponse =
  response_Verdicts :: "Verdicts option"

type_synonym 'w rpc_client = "int \<Rightarrow> ProcessActionRequest \<Rightarrow> 'w \<Rightarrow> ProcessActionResponse option res \<times> 'w"

type_synonym 'w Coordinator = "int \<Rightarrow> CoordinatorRequest \<Rightarrow> 'w \<Rightarrow> string list res \<times> 'w"

definition ospreyActionName :: string where
  "ospreyActionName = ''agent_action_control.evaluate''"

type_synonym 'w GRPCCoordinator = "'w rpc_client option"

definition NewGRPCCoordinator :: "'w rpc_client option \<Rightarrow> 'w GRPCCoordinator res" where
  "NewGRPCCoordinator connection =
     (case connection of None \<Rightarrow> Inl [] | Some client \<Rightarrow> Inr (Some client))"

definition ProcessAction :: "'w GRPCCoordinator \<Rightarrow> 'w Coordinator" where
  "ProcessAction coordinator timeout request w =
     (case coordinator of
        None \<Rightarrow> (Inl [], w)
      | Some client \<Rightarrow>
          (case client timeout
             \<lparr>rpc_ActionName = ospreyActionName, rpc_ActionDataJson = coord_ActionDataJSON request,
              rpc_Timestamp = coord_Timestamp request\<rparr> w of
             (Inl e, w') \<Rightarrow> (Inl e, w')
           | (Inr response, w') \<Rightarrow>
               (case Option.bind response response_Verdicts of
                  None \<Rightarrow> (Inl [], w')
                | Some verdicts \<Rightarrow>
                    if verdicts_ActionName verdicts \<noteq> ospreyActionName then (Inl [], w')
                    else (Inr (verdicts_Verdicts verdicts), w'))))"

section \<open>Verdicts (evaluator.go)\<close>

definition terminalDenyPrefix :: string where "terminalDenyPrefix = ''deny.''"
definition approvalPrefix :: string where "approvalPrefix = ''require_delegator_approval.''"
definition safetyReviewPrefix :: string where "safetyReviewPrefix = ''create_safety_review.''"

definition key_start :: "char \<Rightarrow> bool" where
  "key_start c \<longleftrightarrow> 97 \<le> byte c \<and> byte c \<le> 122 \<or> 48 \<le> byte c \<and> byte c \<le> 57"

definition key_char :: "char \<Rightarrow> bool" where
  "key_char c \<longleftrightarrow> key_start c \<or> c = CHR ''_'' \<or> c = CHR ''-''"

text \<open>The pattern \<^verbatim>\<open>^[a-z0-9][a-z0-9_-]{0,127}$\<close>.\<close>

definition validPolicyKey :: "string \<Rightarrow> bool" where
  "validPolicyKey v =
     (case v of [] \<Rightarrow> False | c # cs \<Rightarrow> key_start c \<and> list_all key_char cs \<and> length cs \<le> 127)"

definition HasPrefix :: "string \<Rightarrow> string \<Rightarrow> bool" where
  "HasPrefix s p \<longleftrightarrow> take (length p) s = p"

definition TrimPrefix :: "string \<Rightarrow> string \<Rightarrow> string" where
  "TrimPrefix s p = (if HasPrefix s p then drop (length p) s else s)"

definition parseTerminalReason :: "string \<Rightarrow> ReasonCode res" where
  "parseTerminalReason v =
     (if \<not> validPolicyKey v then Inl []
      else case ParseReasonCode (ToUpper v) of
        Inl _ \<Rightarrow> Inl []
      | Inr reason \<Rightarrow>
          if reason = ReasonDelegatorApprovalRequired \<or> reason = ReasonPolicyUnavailable then Inl [] else Inr reason)"

definition newSafetyReviewEffect :: "PolicyEffect res" where
  "newSafetyReviewEffect =
     res_bind (NewSafetyReviewRequirement SafetyReviewHigh []) (\<lambda>requirement.
     res_bind (NewCreateSafetyReviewEffect requirement) (\<lambda>effect. Inr (CreateSafetyReviewEffect effect)))"

fun mapVerdictsLoop :: "string list \<Rightarrow> bool \<Rightarrow> string list \<Rightarrow> PolicyEvaluation \<Rightarrow> PolicyEvaluation res" where
  "mapVerdictsLoop seen created [] ev = Inr ev"
| "mapVerdictsLoop seen created (verdict # verdicts) ev =
     (let matched = (\<lambda>e. e\<lparr>MatchedRuleIDs := MatchedRuleIDs e @ [verdict]\<rparr>) in
      if verdict \<in> set seen then mapVerdictsLoop seen created verdicts ev
      else if HasPrefix verdict terminalDenyPrefix then
        res_bind (parseTerminalReason (TrimPrefix verdict terminalDenyPrefix)) (\<lambda>reason.
          mapVerdictsLoop (verdict # seen) created verdicts
            (matched (ev\<lparr>DenyReasonCodes := DenyReasonCodes ev @ [reason]\<rparr>)))
      else if HasPrefix verdict approvalPrefix then
        (if \<not> validPolicyKey (TrimPrefix verdict approvalPrefix) then Inl []
         else mapVerdictsLoop (verdict # seen) created verdicts
           (matched (ev\<lparr>DenyReasonCodes := DenyReasonCodes ev @ [ReasonDelegatorApprovalRequired]\<rparr>)))
      else if HasPrefix verdict safetyReviewPrefix then
        (if \<not> validPolicyKey (TrimPrefix verdict safetyReviewPrefix) then Inl []
         else if \<not> created then
           res_bind newSafetyReviewEffect (\<lambda>effect.
             mapVerdictsLoop (verdict # seen) True verdicts
               (matched (ev\<lparr>Effects := Effects ev @ [Some effect]\<rparr>)))
         else mapVerdictsLoop (verdict # seen) created verdicts (matched ev))
      else Inl [])"

record 'w OspreyEvaluator =
  osprey_coordinator :: "'w Coordinator"
  osprey_policyVersion :: string
  osprey_timeout :: int

definition NewOspreyEvaluator :: "'w Coordinator option \<Rightarrow> string \<Rightarrow> int \<Rightarrow> 'w OspreyEvaluator res" where
  "NewOspreyEvaluator coordinator version timeout =
     (let policyVersion = TrimSpace version in
      case coordinator of
        None \<Rightarrow> Inl []
      | Some c \<Rightarrow>
          if policyVersion = [] \<or> timeout \<le> 0 then Inl []
          else Inr \<lparr>osprey_coordinator = c, osprey_policyVersion = policyVersion, osprey_timeout = timeout\<rparr>)"

definition mapVerdicts :: "string \<Rightarrow> string list \<Rightarrow> PolicyEvaluation res" where
  "mapVerdicts version verdicts =
     mapVerdictsLoop [] False verdicts
       \<lparr>DenyReasonCodes = [], Effects = [], MatchedRuleIDs = [], PolicyVersion = version\<rparr>"

definition failClosed :: "string \<Rightarrow> PolicyEvaluation" where
  "failClosed version =
     \<lparr>DenyReasonCodes = [ReasonPolicyUnavailable], Effects = [], MatchedRuleIDs = [], PolicyVersion = version\<rparr>"

definition osprey_Evaluate :: "'w OspreyEvaluator \<Rightarrow> ProposedAction \<Rightarrow> 'w \<Rightarrow> PolicyEvaluation res \<times> 'w" where
  "osprey_Evaluate evaluator action w =
     (case marshalAction action of
        Inl e \<Rightarrow> (Inl e, w)
      | Inr actionJSON \<Rightarrow>
          (case osprey_coordinator evaluator (osprey_timeout evaluator)
             \<lparr>coord_ActionDataJSON = actionJSON, coord_Timestamp = action_requestedAt action\<rparr> w of
             (Inl _, w') \<Rightarrow> (Inr (failClosed (osprey_policyVersion evaluator)), w')
           | (Inr verdicts, w') \<Rightarrow>
               (case mapVerdicts (osprey_policyVersion evaluator) verdicts of
                  Inl _ \<Rightarrow> (Inr (failClosed (osprey_policyVersion evaluator)), w')
                | Inr evaluation \<Rightarrow> (Inr evaluation, w'))))"

section \<open>The evaluation in closed form\<close>

datatype verdict_kind = Denies ReasonCode | AsksApproval | AsksReview

definition verdict_kind :: "string \<Rightarrow> verdict_kind option" where
  "verdict_kind v =
     (if HasPrefix v terminalDenyPrefix then
        (case parseTerminalReason (TrimPrefix v terminalDenyPrefix) of Inl _ \<Rightarrow> None | Inr r \<Rightarrow> Some (Denies r))
      else if HasPrefix v approvalPrefix then
        (if validPolicyKey (TrimPrefix v approvalPrefix) then Some AsksApproval else None)
      else if HasPrefix v safetyReviewPrefix then
        (if validPolicyKey (TrimPrefix v safetyReviewPrefix) then Some AsksReview else None)
      else None)"

definition verdict_reasons :: "string \<Rightarrow> ReasonCode list" where
  "verdict_reasons v =
     (case verdict_kind v of
        Some (Denies r) \<Rightarrow> [r] | Some AsksApproval \<Rightarrow> [ReasonDelegatorApprovalRequired] | _ \<Rightarrow> [])"

definition review_effect :: PolicyEffect where
  "review_effect = CreateSafetyReviewEffect
     \<lparr>requirement = \<lparr>review_priority = SafetyReviewHigh, review_evidenceRefs = []\<rparr>\<rparr>"

lemma newSafetyReviewEffect_eq [simp]: "newSafetyReviewEffect = Inr review_effect"
  using safety_review_effect [of "[]"]
  by (auto simp: newSafetyReviewEffect_def review_effect_def res_bind_Inr_iff)

lemma parseTerminalReason_Inl: "parseTerminalReason v = Inl e \<Longrightarrow> e = []"
  by (auto simp: parseTerminalReason_def split: if_splits sum.splits)

lemma mapVerdictsLoop_step:
  assumes "v \<notin> set seen"
  shows "mapVerdictsLoop seen created (v # verdicts) ev =
    (case verdict_kind v of
       None \<Rightarrow> Inl []
     | Some k \<Rightarrow>
         mapVerdictsLoop (v # seen) (created \<or> k = AsksReview) verdicts
           (ev\<lparr>DenyReasonCodes := DenyReasonCodes ev @ verdict_reasons v,
               Effects := Effects ev @ (if k = AsksReview \<and> \<not> created then [Some review_effect] else []),
               MatchedRuleIDs := MatchedRuleIDs ev @ [v]\<rparr>))"
  using assms
  by (cases "parseTerminalReason (TrimPrefix v terminalDenyPrefix)"; cases ev)
    (auto simp: verdict_kind_def verdict_reasons_def dest: parseTerminalReason_Inl)

lemma mapVerdictsLoop_eq:
  "mapVerdictsLoop seen created verdicts ev =
     (let vs = filter (\<lambda>v. v \<notin> set seen) (first_seen verdicts) in
      if list_all (\<lambda>v. verdict_kind v \<noteq> None) vs then
        Inr (ev\<lparr>DenyReasonCodes := DenyReasonCodes ev @ concat (map verdict_reasons vs),
                Effects := Effects ev @
                  (if \<not> created \<and> (\<exists>v \<in> set vs. verdict_kind v = Some AsksReview) then [Some review_effect] else []),
                MatchedRuleIDs := MatchedRuleIDs ev @ vs\<rparr>)
      else Inl [])"
proof (induction verdicts arbitrary: seen created ev)
  case (Cons v verdicts)
  show ?case
  proof (cases "v \<in> set seen")
    case True
    then have "filter (\<lambda>x. x \<notin> set seen) (first_seen (v # verdicts)) = filter (\<lambda>x. x \<notin> set seen) (first_seen verdicts)"
      by (auto simp: filter_filter intro!: filter_cong)
    with True Cons.IH [of seen created ev] show ?thesis by simp
  next
    case False
    define vs where "vs = filter (\<lambda>x. x \<notin> set (v # seen)) (first_seen verdicts)"
    have eq: "filter (\<lambda>x. x \<notin> set seen) (first_seen (v # verdicts)) = v # vs"
      using False by (auto simp: vs_def filter_filter intro!: filter_cong)
    note IH = Cons.IH [of "v # seen", folded vs_def]
    show ?thesis
    proof (cases "verdict_kind v")
      case None
      then show ?thesis unfolding mapVerdictsLoop_step [OF False] eq Let_def by simp
    next
      case (Some k)
      show ?thesis unfolding mapVerdictsLoop_step [OF False] eq Let_def Some option.case IH
        by (cases "list_all (\<lambda>v. verdict_kind v \<noteq> None) vs"; cases "k = AsksReview") (simp_all add: Some)
    qed
  qed
qed simp

definition verdicts_evaluation :: "string \<Rightarrow> string list \<Rightarrow> PolicyEvaluation" where
  "verdicts_evaluation version vs =
     \<lparr>DenyReasonCodes = concat (map verdict_reasons vs),
      Effects = (if \<exists>v \<in> set vs. verdict_kind v = Some AsksReview then [Some review_effect] else []),
      MatchedRuleIDs = vs, PolicyVersion = version\<rparr>"

lemma mapVerdicts_eq:
  "mapVerdicts version verdicts =
     (if list_all (\<lambda>v. verdict_kind v \<noteq> None) verdicts then Inr (verdicts_evaluation version (first_seen verdicts))
      else Inl [])"
  by (auto simp: mapVerdicts_def mapVerdictsLoop_eq verdicts_evaluation_def list_all_iff Let_def)

section \<open>Failing closed\<close>

lemma parseTerminalReason_Inr:
  "parseTerminalReason v = Inr r \<Longrightarrow>
     ReasonCode_Valid r \<and> r \<noteq> ReasonDelegatorApprovalRequired \<and> r \<noteq> ReasonPolicyUnavailable"
  by (auto simp: parseTerminalReason_def ParseReasonCode_def split: if_splits sum.splits)

lemma verdict_reasons_valid: "list_all ReasonCode_Valid (verdict_reasons v)"
  using parseTerminalReason_Inr
  by (auto simp: verdict_reasons_def verdict_kind_def ReasonCode_Valid_def split: option.splits verdict_kind.splits
      if_splits sum.splits)

lemma verdicts_reasons_valid: "list_all ReasonCode_Valid (DenyReasonCodes (verdicts_evaluation version vs))"
  using verdict_reasons_valid by (auto simp: verdicts_evaluation_def list_all_iff)

lemma verdict_reasons_Nil_iff: "verdict_kind v \<noteq> None \<Longrightarrow> verdict_reasons v = [] \<longleftrightarrow> verdict_kind v = Some AsksReview"
  by (auto simp: verdict_reasons_def split: option.splits verdict_kind.splits)

text \<open>What the adapter makes of the answer of the coordinator.\<close>

definition osprey_outcome :: "string \<Rightarrow> string list res \<Rightarrow> PolicyEvaluation" where
  "osprey_outcome version answer =
     (case answer of
        Inr verdicts \<Rightarrow>
          if list_all (\<lambda>v. verdict_kind v \<noteq> None) verdicts then verdicts_evaluation version (first_seen verdicts)
          else failClosed version
      | Inl _ \<Rightarrow> failClosed version)"

lemma osprey_Evaluate_eq:
  "osprey_Evaluate evaluator a w =
     (case marshalAction a of
        Inl e \<Rightarrow> (Inl e, w)
      | Inr actionJSON \<Rightarrow>
          (case osprey_coordinator evaluator (osprey_timeout evaluator)
             \<lparr>coord_ActionDataJSON = actionJSON, coord_Timestamp = action_requestedAt a\<rparr> w of
             (answer, w') \<Rightarrow> (Inr (osprey_outcome (osprey_policyVersion evaluator) answer), w')))"
  by (simp add: osprey_Evaluate_def osprey_outcome_def mapVerdicts_eq split: sum.split prod.split)

lemma osprey_outcome_composes: "\<exists>d. Compose (osprey_outcome version answer) = Inr d"
  using verdicts_reasons_valid
  by (auto simp: osprey_outcome_def Compose_eq failClosed_def ReasonCode_Valid_def split: sum.splits)

lemma osprey_allows_iff:
  "Compose (osprey_outcome version answer) = Inr NewAllowDecision \<longleftrightarrow>
     (\<exists>verdicts. answer = Inr verdicts \<and> list_all (\<lambda>v. verdict_kind v = Some AsksReview) verdicts)"
proof -
  obtain d where d: "Compose (osprey_outcome version answer) = Inr d" using osprey_outcome_composes by blast
  have "d = NewAllowDecision \<longleftrightarrow> DenyReasonCodes (osprey_outcome version answer) = []"
    using d by (auto simp: Compose_eq compose_spec_def NewAllowDecision_def DecisionAllow_def DecisionDeny_def
        split: if_splits)
  also have "\<dots> \<longleftrightarrow> (\<exists>verdicts. answer = Inr verdicts \<and> list_all (\<lambda>v. verdict_kind v = Some AsksReview) verdicts)"
    using verdict_reasons_Nil_iff
    by (force simp: osprey_outcome_def failClosed_def verdicts_evaluation_def list_all_iff split: sum.splits)
  finally show ?thesis using d by simp
qed

lemma compose_failClosed:
  "Compose (failClosed version) =
     Inr \<lparr>decision_typ = DecisionDeny, reasonCodes = [ReasonPolicyUnavailable], requiredActions = []\<rparr>"
  by (auto simp: Compose_eq failClosed_def compose_spec_def blocking_reason_def ReasonCode_Valid_def reason_defs)

text \<open>Verdicts that are accepted are plain ASCII.\<close>

lemma key_char_ascii: "key_char c \<Longrightarrow> byte c < 128"
  by (auto simp: key_char_def key_start_def)

lemma validPolicyKey_ascii: "validPolicyKey v \<Longrightarrow> c \<in> set v \<Longrightarrow> byte c < 128"
  using key_char_ascii by (auto simp: validPolicyKey_def key_char_def list_all_iff split: list.splits)

lemma HasPrefix_split: "HasPrefix s p \<Longrightarrow> s = p @ TrimPrefix s p"
  by (metis HasPrefix_def TrimPrefix_def append_take_drop_id)

lemma prefixed_key_utf8:
  assumes "HasPrefix v p" "validPolicyKey (TrimPrefix v p)" "\<forall>c \<in> set p. byte c < 128"
  shows "valid_utf8 v"
proof (rule valid_utf8_ascii)
  have "set v = set p \<union> set (TrimPrefix v p)"
    using HasPrefix_split [OF assms(1)] by (metis set_append)
  then show "\<forall>c \<in> set v. byte c < 128" using assms(3) validPolicyKey_ascii [OF assms(2)] by auto
qed

lemma verdict_utf8: "verdict_kind v \<noteq> None \<Longrightarrow> valid_utf8 v"
  using prefixed_key_utf8 [of v terminalDenyPrefix] prefixed_key_utf8 [of v approvalPrefix]
    prefixed_key_utf8 [of v safetyReviewPrefix]
  by (auto simp: verdict_kind_def parseTerminalReason_def terminalDenyPrefix_def approvalPrefix_def
      safetyReviewPrefix_def split: if_splits)

lemma osprey_rules_utf8: "list_all valid_utf8 (MatchedRuleIDs (osprey_outcome version answer))"
  using verdict_utf8
  by (auto simp: osprey_outcome_def failClosed_def verdicts_evaluation_def list_all_iff split: sum.splits)

lemma verdict_nonblank: "verdict_kind v \<noteq> None \<Longrightarrow> TrimSpace v \<noteq> []"
proof -
  have key: "TrimSpace v \<noteq> []" if "HasPrefix v p" "validPolicyKey (TrimPrefix v p)" "p \<noteq> []" "byte (hd p) \<in> {33..<128}" for p
  proof -
    note prefixed = that
    obtain c cs where k: "TrimPrefix v p = c # cs" "key_char c" "list_all key_char cs"
      using prefixed(2) by (auto simp: validPolicyKey_def key_char_def split: list.splits)
    have v: "v = p @ c # cs" using HasPrefix_split [OF prefixed(1)] k(1) by simp
    have "key_char (last (c # cs))" using k(2,3) last_in_set [of "c # cs"] by (auto simp: list_all_iff)
    then have "32 < byte (last v)" "byte (last v) < 128" by (auto simp: v key_char_def key_start_def)
    then show ?thesis using prefixed(3,4) TrimSpace_ascii [of v] by (simp add: v)
  qed
  assume "verdict_kind v \<noteq> None"
  then show ?thesis
    using key [of terminalDenyPrefix] key [of approvalPrefix] key [of safetyReviewPrefix]
    by (auto simp: verdict_kind_def parseTerminalReason_def terminalDenyPrefix_def approvalPrefix_def
        safetyReviewPrefix_def split: if_splits)
qed

lemma marshalAction_total:
  assumes "wf_action a" "rfc3339_time (action_requestedAt a)"
  shows "\<exists>json. marshalAction a = Inr json"
proof -
  obtain p where p: "action_parameters a = Some p" using assms(1) by (auto simp: wf_action_def)
  obtain j where "marshal_time (action_requestedAt a) = Inr j"
    using assms(2) by (auto simp: marshal_time_def rfc3339_time_def utc_time_def)
  with p show ?thesis by (cases p) (simp_all add: marshalAction_def)
qed

end
