(* ===== verification/Process.thy ===== *)
theory Process
  imports HttpApi Osprey GoDuration
begin

text \<open>
  The process (\<^verbatim>\<open>cmd/action-control/main.go\<close>): the choice of the policy evaluator, the clock, the
  generator of identifiers and the wiring of the parts. The environment of the process, the
  gRPC dialler, the database opener and the database it returns are parameters; the clock readings, the random
  bytes and the answers of the coordinator to come are part of the world, as scripts. The two
  interpretations show that both configurations satisfy the contract of the decision service.
\<close>

section \<open>Resources and deferred calls\<close>

datatype resource = PolicyConnection | Database | SignalContext | ShutdownContext

datatype lifecycle_event =
    Acquire resource
  | Release resource
  | Listening string
  | ShuttingDown

type_synonym 'a traced = "'a res \<times> lifecycle_event list"

text \<open>A body that runs after \<open>before\<close>, with \<open>after\<close> deferred to its return, whatever it returns.\<close>

definition deferring :: "lifecycle_event list \<Rightarrow> lifecycle_event list \<Rightarrow> 'a traced \<Rightarrow> 'a traced" where
  "deferring before after body = (fst body, before @ snd body @ after)"

definition traced_bind :: "'a res \<Rightarrow> ('a \<Rightarrow> 'b traced) \<Rightarrow> 'b traced" where
  "traced_bind r f = (case r of Inl e \<Rightarrow> (Inl e, []) | Inr x \<Rightarrow> f x)"

section \<open>Configuration\<close>

datatype 'w policy_evaluator = EmbeddedEvaluator | OspreyAdapter "'w OspreyEvaluator"

fun policy_Evaluate :: "'w policy_evaluator \<Rightarrow> ProposedAction \<Rightarrow> 'w \<Rightarrow> PolicyEvaluation res \<times> 'w" where
  "policy_Evaluate EmbeddedEvaluator a w = (embedded_Evaluate a, w)"
| "policy_Evaluate (OspreyAdapter e) a w = osprey_Evaluate e a w"

text \<open>
  \<^verbatim>\<open>strings.ToLower\<close>, as far as the comparison with the mode names can tell: the runes beyond ASCII that
  lower to an ASCII letter are U+0130 and U+212A, for \<^verbatim>\<open>i\<close> and \<^verbatim>\<open>k\<close>, which the names do not contain.
\<close>

definition ToLower_ascii :: "string \<Rightarrow> string" where
  "ToLower_ascii s = map (\<lambda>c. if 65 \<le> byte c \<and> byte c \<le> 90 then char_of (byte c + 32) else c) s"

definition defaultOspreyTimeout :: int where
  "defaultOspreyTimeout = 2 * 10 ^ 9"

text \<open>
  \<^verbatim>\<open>configurePolicyEvaluator\<close> with the gRPC connection: the second component of a result is what its close
  function does. A connection that cannot be used is closed at once.
\<close>

definition connect_policy :: "'w rpc_client option \<Rightarrow> string \<Rightarrow> int \<Rightarrow> ('w policy_evaluator \<times> lifecycle_event list) traced" where
  "connect_policy connection policyVersion timeout =
     (case NewGRPCCoordinator connection of
        Inl e \<Rightarrow> (Inl e, [Acquire PolicyConnection, Release PolicyConnection])
      | Inr coordinator \<Rightarrow>
          (case NewOspreyEvaluator (Some (ProcessAction coordinator)) policyVersion timeout of
             Inl e \<Rightarrow> (Inl e, [Acquire PolicyConnection, Release PolicyConnection])
           | Inr evaluator \<Rightarrow>
               (Inr (OspreyAdapter evaluator, [Release PolicyConnection]), [Acquire PolicyConnection])))"

definition configure_policy ::
    "(string \<Rightarrow> string) \<Rightarrow> (string \<Rightarrow> 'w rpc_client option res) \<Rightarrow>
     ('w policy_evaluator \<times> lifecycle_event list) traced" where
  "configure_policy Getenv NewClient =
     (let mode = ToLower_ascii (TrimSpace (Getenv ''ACTION_CONTROL_POLICY_EVALUATOR'')) in
      if mode = [] \<or> mode = ''embedded'' then (Inr (EmbeddedEvaluator, []), [])
      else if mode \<noteq> ''osprey'' then (Inl [], [])
      else
        let address = TrimSpace (Getenv ''ACTION_CONTROL_OSPREY_ADDRESS'');
            policyVersion = TrimSpace (Getenv ''ACTION_CONTROL_OSPREY_POLICY_VERSION'') in
        if address = [] \<or> policyVersion = [] then (Inl [], [])
        else
          let configured = TrimSpace (Getenv ''ACTION_CONTROL_OSPREY_TIMEOUT'') in
          traced_bind
            (if configured = [] then Inr defaultOspreyTimeout
             else res_bind (res_replace [] (ParseDuration configured)) (\<lambda>parsed.
               if parsed \<le> 0 then Inl [] else Inr parsed)) (\<lambda>timeout.
          traced_bind (NewClient address) (\<lambda>connection. connect_policy connection policyVersion timeout)))"

text \<open>The evaluator alone, without the trace.\<close>

definition configurePolicyEvaluator ::
    "(string \<Rightarrow> string) \<Rightarrow> (string \<Rightarrow> 'w rpc_client option res) \<Rightarrow> 'w policy_evaluator res" where
  "configurePolicyEvaluator Getenv NewClient = map_sum id fst (fst (configure_policy Getenv NewClient))"

lemma fst_traced: "fst (traced_bind r f) = res_bind r (\<lambda>x. fst (f x))" "fst (deferring before after body) = fst body"
  by (cases r; simp add: traced_bind_def deferring_def) (simp add: deferring_def)

lemma configurePolicyEvaluator_eq:
  "configurePolicyEvaluator Getenv NewClient =
     (let mode = ToLower_ascii (TrimSpace (Getenv ''ACTION_CONTROL_POLICY_EVALUATOR'')) in
      if mode = [] \<or> mode = ''embedded'' then Inr EmbeddedEvaluator
      else if mode \<noteq> ''osprey'' then Inl []
      else
        let address = TrimSpace (Getenv ''ACTION_CONTROL_OSPREY_ADDRESS'');
            policyVersion = TrimSpace (Getenv ''ACTION_CONTROL_OSPREY_POLICY_VERSION'') in
        if address = [] \<or> policyVersion = [] then Inl []
        else
          let configured = TrimSpace (Getenv ''ACTION_CONTROL_OSPREY_TIMEOUT'') in
          res_bind
            (if configured = [] then Inr defaultOspreyTimeout
             else res_bind (res_replace [] (ParseDuration configured)) (\<lambda>parsed.
               if parsed \<le> 0 then Inl [] else Inr parsed)) (\<lambda>timeout.
          res_bind (NewClient address) (\<lambda>connection.
          res_bind (NewGRPCCoordinator connection) (\<lambda>coordinator.
          res_bind (NewOspreyEvaluator (Some (ProcessAction coordinator)) policyVersion timeout) (\<lambda>evaluator.
            Inr (OspreyAdapter evaluator))))))"
proof -
  have push: "map_sum id h (res_bind r f) = res_bind r (\<lambda>x. map_sum id h (f x))" for h :: "'b \<Rightarrow> 'c" and r :: "'d res" and f
    by (cases r) simp_all
  have "map_sum id fst (fst (connect_policy connection version timeout)) =
    res_bind (NewGRPCCoordinator connection) (\<lambda>coordinator.
      res_bind (NewOspreyEvaluator (Some (ProcessAction coordinator)) version timeout) (\<lambda>evaluator. Inr (OspreyAdapter evaluator)))"
    for connection :: "'a rpc_client option" and version timeout
    by (simp add: connect_policy_def res_bind_def split: sum.split)
  then show ?thesis
    by (simp add: configure_policy_def configurePolicyEvaluator_def Let_def fst_traced push)
qed

text \<open>\<^verbatim>\<open>randomIDGenerator.NewID\<close>, given the outcome of reading sixteen random bytes.\<close>

definition randomIDGenerator_NewID :: "nat list option \<Rightarrow> IDKind \<Rightarrow> string res" where
  "randomIDGenerator_NewID random kind =
     (case random of
        None \<Rightarrow> Inl []
      | Some bytes \<Rightarrow>
          if kind = IDDecision then Inr (''decision'' @ ''_'' @ hex_EncodeToString bytes)
          else if kind = IDPolicyEffect then Inr (''effect'' @ ''_'' @ hex_EncodeToString bytes)
          else Inl [])"

section \<open>The world of the process\<close>

text \<open>
  The database is a type parameter: its statements are the \<open>SqlOps\<close> that opening it returns, and
  everything that happens to it is in \<open>p_db\<close>.
\<close>

record 'db process_state =
  p_db :: 'db
  p_clock :: "Time list"
  p_random :: "nat list option list"
  p_rpc :: "ProcessActionResponse option res list"

definition on_db :: "('db \<Rightarrow> 'a \<times> 'db) \<Rightarrow> 'db process_state \<Rightarrow> 'a \<times> 'db process_state" where
  "on_db f w = (case f (p_db w) of (r, db) \<Rightarrow> (r, w\<lparr>p_db := db\<rparr>))"

text \<open>\<^verbatim>\<open>systemClock.Now\<close>; a script that has ended repeats the zero time, random bytes and calls then fail.\<close>

definition systemClock_Now :: "'db process_state \<Rightarrow> Time \<times> 'db process_state" where
  "systemClock_Now w =
     (case p_clock w of [] \<Rightarrow> (zero_time, w) | t # ts \<Rightarrow> (Time_UTC t, w\<lparr>p_clock := ts\<rparr>))"

definition process_NewID :: "IDKind \<Rightarrow> 'db process_state \<Rightarrow> string res \<times> 'db process_state" where
  "process_NewID kind w =
     (case p_random w of
        [] \<Rightarrow> (randomIDGenerator_NewID None kind, w)
      | r # rs \<Rightarrow> (randomIDGenerator_NewID r kind, w\<lparr>p_random := rs\<rparr>))"

definition process_rpc :: "'db process_state rpc_client" where
  "process_rpc timeout request w =
     (case p_rpc w of [] \<Rightarrow> (Inl [], w) | r # rs \<Rightarrow> (r, w\<lparr>p_rpc := rs\<rparr>))"

text \<open>The ports of the service on a ledger, which is the pointer \<^verbatim>\<open>NewDecisionLedger\<close> returns.\<close>

definition port_of_Get ::
    "'db DecisionLedger \<Rightarrow> string \<Rightarrow> string \<Rightarrow> 'db process_state \<Rightarrow> StoredEvaluation option res \<times> 'db process_state" where
  "port_of_Get ledger r q = on_db (\<lambda>db. case GetEvaluationByRequestID ledger r q db of
     (Inl e, db') \<Rightarrow> (Inl e, db') | (Inr ev, db') \<Rightarrow> (Inr (Some ev), db'))"

definition port_of_Commit ::
    "'db DecisionLedger \<Rightarrow> EvaluationCommit \<Rightarrow> 'db process_state \<Rightarrow> DecisionRecord res \<times> 'db process_state" where
  "port_of_Commit ledger c = on_db (CommitEvaluation ledger c)"

definition ports_on :: "'db DecisionLedger \<Rightarrow> 'db process_state policy_evaluator \<Rightarrow> 'db process_state Ports" where
  "ports_on ledger evaluator =
     \<lparr>port_Evaluate = policy_Evaluate evaluator, port_Get = port_of_Get ledger, port_Commit = port_of_Commit ledger,
      port_Now = systemClock_Now, port_NewID = process_NewID\<rparr>"

section \<open>The construction of the process\<close>

text \<open>
  \<^verbatim>\<open>run\<close> from its start to the handler, with its deferred calls; \<open>serve\<close> is the rest of it, from the
  server on. Parameters are the environment, the dialler, \<open>MkdirAll\<close>, which creates the directory of a
  database path (\<^verbatim>\<open>os.MkdirAll(filepath.Dir(path), 0o700)\<close>), and \<open>OpenDatabase\<close>, which is \<^verbatim>\<open>sqlite.Open\<close>
  and closes the database itself when it fails.
\<close>

type_synonym 'db routes =
  "(string \<times> (HttpRequest \<Rightarrow> 'db process_state \<Rightarrow> HttpResponse \<times> 'db process_state)) list"

definition construct_process ::
    "(string \<Rightarrow> string) \<Rightarrow> (string \<Rightarrow> 'db process_state rpc_client option res) \<Rightarrow> (string \<Rightarrow> unit res) \<Rightarrow>
     (string \<Rightarrow> 'db SqlOps res) \<Rightarrow> (string \<Rightarrow> 'db routes \<Rightarrow> 'a traced) \<Rightarrow> 'a traced" where
  "construct_process Getenv NewClient MkdirAll OpenDatabase serve =
     (let addr = (if Getenv ''ACTION_CONTROL_ADDR'' = [] then '':8080'' else Getenv ''ACTION_CONTROL_ADDR'') in
      traced_bind (NewStaticRuntimeAuthenticator
        [(Getenv ''ACTION_CONTROL_RUNTIME_TOKEN'', Getenv ''ACTION_CONTROL_RUNTIME_ID'')]) (\<lambda>authenticator.
      case configure_policy Getenv NewClient of
        (Inl e, events) \<Rightarrow> (Inl e, events)
      | (Inr (policyEvaluator, closePolicyEvaluator), events) \<Rightarrow>
          deferring events closePolicyEvaluator
            (let databasePath = (if Getenv ''ACTION_CONTROL_DB_PATH'' = [] then ''data/action-control.db''
                                 else Getenv ''ACTION_CONTROL_DB_PATH'') in
             traced_bind (MkdirAll databasePath) (\<lambda>_.
             traced_bind (OpenDatabase databasePath) (\<lambda>database.
             deferring [Acquire Database] [Release Database]
               (traced_bind (NewDecisionLedger (Some database)) (\<lambda>ledger.
                traced_bind (NewDecisionService (Some (policy_Evaluate policyEvaluator))
                  (Some (port_of_Get ledger, port_of_Commit ledger)) (Some systemClock_Now) (Some process_NewID)) (\<lambda>service.
                traced_bind (NewHandler (Some (Authenticate (Some authenticator))) (Some (Evaluate (Some service)))) (\<lambda>handler.
                  serve addr handler)))))))))"

text \<open>What a construction that succeeds hands to the server.\<close>

definition run_configure ::
    "(string \<Rightarrow> string) \<Rightarrow> (string \<Rightarrow> 'db process_state rpc_client option res) \<Rightarrow> (string \<Rightarrow> unit res) \<Rightarrow>
     (string \<Rightarrow> 'db SqlOps res) \<Rightarrow> (string \<times> 'db routes) res" where
  "run_configure Getenv NewClient MkdirAll OpenDatabase =
     fst (construct_process Getenv NewClient MkdirAll OpenDatabase (\<lambda>addr handler. (Inr (addr, handler), [])))"

lemma construct_process_result:
  "fst (construct_process Getenv NewClient MkdirAll OpenDatabase serve) =
     (let addr = (if Getenv ''ACTION_CONTROL_ADDR'' = [] then '':8080'' else Getenv ''ACTION_CONTROL_ADDR'') in
      res_bind (NewStaticRuntimeAuthenticator
        [(Getenv ''ACTION_CONTROL_RUNTIME_TOKEN'', Getenv ''ACTION_CONTROL_RUNTIME_ID'')]) (\<lambda>authenticator.
      res_bind (configurePolicyEvaluator Getenv NewClient) (\<lambda>policyEvaluator.
      let databasePath = (if Getenv ''ACTION_CONTROL_DB_PATH'' = [] then ''data/action-control.db''
                          else Getenv ''ACTION_CONTROL_DB_PATH'') in
      res_bind (MkdirAll databasePath) (\<lambda>_.
      res_bind (OpenDatabase databasePath) (\<lambda>database.
      res_bind (NewDecisionLedger (Some database)) (\<lambda>ledger.
      res_bind (NewDecisionService (Some (policy_Evaluate policyEvaluator))
        (Some (port_of_Get ledger, port_of_Commit ledger)) (Some systemClock_Now) (Some process_NewID)) (\<lambda>service.
      res_bind (NewHandler (Some (Authenticate (Some authenticator))) (Some (Evaluate (Some service)))) (\<lambda>handler.
        fst (serve addr handler)))))))))"
proof -
  obtain r events where policy: "configure_policy Getenv NewClient = (r, events)" by (rule prod.exhaust)
  then have evaluator: "configurePolicyEvaluator Getenv NewClient = map_sum id fst r"
    by (simp add: configurePolicyEvaluator_def)
  show ?thesis
  proof (cases r)
    case (Inl e)
    then show ?thesis by (simp add: construct_process_def Let_def policy evaluator fst_traced)
  next
    case (Inr p)
    then show ?thesis by (cases p) (simp add: construct_process_def Let_def policy evaluator fst_traced)
  qed
qed

text \<open>The process on the tables of \<open>TableStore\<close>.\<close>

type_synonym process = "sqlite_world process_state"

abbreviation ledger_Get :: "string \<Rightarrow> string \<Rightarrow> process \<Rightarrow> StoredEvaluation option res \<times> process" where
  "ledger_Get \<equiv> port_of_Get (Some table_ops)"

abbreviation ledger_Commit :: "EvaluationCommit \<Rightarrow> process \<Rightarrow> DecisionRecord res \<times> process" where
  "ledger_Commit \<equiv> port_of_Commit (Some table_ops)"

abbreviation process_ports :: "process policy_evaluator \<Rightarrow> process Ports" where
  "process_ports \<equiv> ports_on (Some table_ops)"

lemmas process_ports_def = ports_on_def [of "Some table_ops"]
  and ledger_Get_def = port_of_Get_def [of "Some table_ops"]
  and ledger_Commit_def = port_of_Commit_def [of "Some table_ops"]

section \<open>The process satisfies the contract of the service\<close>

definition state_invar :: "('db \<Rightarrow> bool) \<Rightarrow> 'db process_state \<Rightarrow> bool" where
  "state_invar invar w \<longleftrightarrow> invar (p_db w) \<and> list_all (\<lambda>t. rfc3339_time (Time_UTC t)) (p_clock w)"

definition state_binding :: "('db \<Rightarrow> tables) \<Rightarrow> 'db process_state \<Rightarrow> string \<Rightarrow> string \<Rightarrow> DecisionRecord \<Rightarrow> bool" where
  "state_binding committed w r q rec \<longleftrightarrow> bound (committed (p_db w)) r q rec"

abbreviation process_invar :: "process \<Rightarrow> bool" where
  "process_invar \<equiv> state_invar table_invar"

abbreviation process_binding :: "process \<Rightarrow> string \<Rightarrow> string \<Rightarrow> DecisionRecord \<Rightarrow> bool" where
  "process_binding \<equiv> state_binding db_committed"

lemmas process_invar_def = state_invar_def [of table_invar]
  and process_binding_def = state_binding_def [of db_committed]

text \<open>What a policy evaluator owes: it leaves ledger and clock alone and names its rules in UTF-8.\<close>

definition evaluator_contract :: "'db process_state policy_evaluator \<Rightarrow> bool" where
  "evaluator_contract evaluator \<longleftrightarrow>
     (\<forall>a w res w'. policy_Evaluate evaluator a w = (res, w') \<longrightarrow>
        p_db w' = p_db w \<and> p_clock w' = p_clock w \<and>
        (\<forall>ev. res = Inr ev \<longrightarrow> list_all valid_utf8 (MatchedRuleIDs ev)))"

lemma keeps_same_db:
  "state_invar invar w \<Longrightarrow> p_db w' = p_db w \<Longrightarrow> set (p_clock w') \<subseteq> set (p_clock w) \<Longrightarrow>
     keeps (state_invar invar) (state_binding committed) w w'"
  by (auto simp: keeps_def state_invar_def state_binding_def list_all_iff)

context sql_store
begin

abbreviation state_keeps :: "'w process_state \<Rightarrow> 'w process_state \<Rightarrow> bool" where
  "state_keeps \<equiv> keeps (state_invar invar) (state_binding committed)"

lemma keeps_on_db:
  assumes "state_invar invar w" "evolves invar committed (p_db w) db"
  shows "state_keeps w (w\<lparr>p_db := db\<rparr>)"
  using assms bound_stable [OF invar_unique [of "p_db w"] invar_unique [of db]]
  by (auto simp: keeps_def state_invar_def state_binding_def evolves_def)

lemma ports_contract:
  assumes "evaluator_contract evaluator"
  shows "decision_ports (ports_on (Some ops) evaluator) (state_invar invar) (state_binding committed)"
proof
  fix w r q rec1 rec2
  assume "state_binding committed w r q rec1" "state_binding committed w r q rec2"
  then show "rec1 = rec2" using bound_unique by (auto simp: state_binding_def)
next
  fix w a res w'
  assume "state_invar invar w" "port_Evaluate (ports_on (Some ops) evaluator) a w = (res, w')"
  then show "state_keeps w w' \<and> (\<forall>ev. res = Inr ev \<longrightarrow> list_all valid_utf8 (MatchedRuleIDs ev))"
    using assms keeps_same_db [of invar w w'] by (auto simp: ports_on_def evaluator_contract_def)
next
  fix w r q found w'
  assume inv: "state_invar invar w" and get: "port_Get (ports_on (Some ops) evaluator) r q w = (found, w')"
  obtain x db where x: "GetEvaluationByRequestID (Some ops) r q (p_db w) = (x, db)" by (rule prod.exhaust)
  have tinv: "invar (p_db w)" using inv by (simp add: state_invar_def)
  have w': "w' = w\<lparr>p_db := db\<rparr>" and found: "found = map_sum id Some x"
    using get x by (auto simp: ports_on_def port_of_Get_def on_db_def split: sum.splits)
  then show "state_keeps w w' \<and>
      (\<forall>s. found = Inr (Some s) \<longrightarrow> state_binding committed w' (TrimSpace r) (TrimSpace q) (stored_Decision s))"
    using keeps_on_db [OF inv get_evolves [OF tinv x]] get_bound [OF tinv, of r q _ db] x
    by (cases x) (auto simp: state_binding_def)
next
  fix w c outcome w'
  assume inv: "state_invar invar w" and wf: "wf_commit c"
    and com: "port_Commit (ports_on (Some ops) evaluator) c w = (outcome, w')"
  have tinv: "invar (p_db w)" using inv by (simp add: state_invar_def)
  show "state_keeps w w' \<and>
      (\<forall>rec. outcome = Inr rec \<longrightarrow> state_binding committed w' (commit_RuntimeID c) (commit_RequestID c) rec)"
    using commit_answers [OF tinv wf] com keeps_on_db [OF inv]
    by (auto simp: ports_on_def port_of_Commit_def on_db_def answers_def state_binding_def split: prod.splits)
next
  fix w t w'
  assume inv: "state_invar invar w" and "port_Now (ports_on (Some ops) evaluator) w = (t, w')"
  then have "p_db w' = p_db w" "set (p_clock w') \<subseteq> set (p_clock w)" "rfc3339_time (Time_UTC t)"
    using zero_time_range
    by (cases "p_clock w"; auto simp: ports_on_def systemClock_Now_def state_invar_def zero_time_def Time_UTC_def)+
  then show "state_keeps w w' \<and> rfc3339_time (Time_UTC t)" using keeps_same_db [OF inv] by blast
next
  fix w kind newid w'
  assume inv: "state_invar invar w" and "port_NewID (ports_on (Some ops) evaluator) kind w = (newid, w')"
  then show "state_keeps w w'"
    using keeps_same_db [OF inv, of w'] by (auto simp: ports_on_def process_NewID_def split: list.splits)
qed

end

lemmas process_ports_contract = table.ports_contract

text \<open>The rules of the embedded policy.\<close>

definition embedded_rules :: "string list" where
  "embedded_rules = [rulePermissionMismatch, ruleExternalSend, ruleVisibilityExpand, ruleDestructiveDelete, ruleSecretReview]"

lemma embedded_rules_ascii: "r \<in> set embedded_rules \<Longrightarrow> valid_utf8 r"
  by (rule valid_utf8_ascii)
    (auto simp: embedded_rules_def rulePermissionMismatch_def ruleExternalSend_def ruleVisibilityExpand_def
      ruleDestructiveDelete_def ruleSecretReview_def)

lemma embedded_matched: "embedded_Evaluate a = Inr ev \<Longrightarrow> set (MatchedRuleIDs ev) \<subseteq> set embedded_rules"
  by (auto simp: embedded_Evaluate_def Let_def evaluateActionRules_def add_rule_def res_simps embedded_rules_def
      split: if_splits option.splits ActionParameters.splits)

lemma embedded_contract: "evaluator_contract EmbeddedEvaluator"
  using embedded_matched embedded_rules_ascii by (auto simp: evaluator_contract_def list_all_iff)

definition process_osprey :: "string \<Rightarrow> int \<Rightarrow> 'db process_state OspreyEvaluator" where
  "process_osprey version timeout =
     \<lparr>osprey_coordinator = ProcessAction (Some process_rpc), osprey_policyVersion = version, osprey_timeout = timeout\<rparr>"

lemma process_rpc_frame:
  "ProcessAction (Some process_rpc) timeout request w = (answer, w') \<Longrightarrow> p_db w' = p_db w \<and> p_clock w' = p_clock w"
  by (auto simp: ProcessAction_def process_rpc_def split: list.splits sum.splits option.splits if_splits)

lemma osprey_contract: "evaluator_contract (OspreyAdapter (process_osprey version timeout))"
  unfolding evaluator_contract_def
proof (intro allI impI)
  fix a w res w'
  assume ev: "policy_Evaluate (OspreyAdapter (process_osprey version timeout)) a w = (res, w')"
  show "p_db w' = p_db w \<and> p_clock w' = p_clock w \<and>
    (\<forall>ev. res = Inr ev \<longrightarrow> list_all valid_utf8 (MatchedRuleIDs ev))"
  proof (cases "marshalAction a")
    case (Inl e)
    then show ?thesis using ev by (auto simp: osprey_Evaluate_eq)
  next
    case (Inr json)
    let ?request = "\<lparr>coord_ActionDataJSON = json, coord_Timestamp = action_requestedAt a\<rparr>"
    obtain answer w1 where call: "ProcessAction (Some process_rpc) timeout ?request w = (answer, w1)"
      by (rule prod.exhaust)
    have "res = Inr (osprey_outcome version answer)" "w' = w1"
      using ev Inr call by (simp_all add: osprey_Evaluate_eq process_osprey_def)
    then show ?thesis using process_rpc_frame [OF call] osprey_rules_utf8 by simp
  qed
qed

interpretation embedded: decision_ports "process_ports EmbeddedEvaluator" process_invar process_binding
  by (rule process_ports_contract [OF embedded_contract])

interpretation osprey: decision_ports "process_ports (OspreyAdapter (process_osprey version timeout))"
    process_invar process_binding for version timeout
  by (rule process_ports_contract [OF osprey_contract])

end
