(* ===== verification/LedgerSpec.thy ===== *)
theory LedgerSpec
  imports TableStore
begin

text \<open>
  The abstract ledger: a map from requests to decision records. Looking up reads the map, committing
  is put-if-absent with a conflict check. On a store that no one else writes to and where nothing
  fails, the ledger over the tables refines it, call by call.
\<close>

section \<open>The abstract ledger\<close>

type_synonym ledger_map = "string \<times> string \<rightharpoonup> DecisionRecord"

definition lookup_spec :: "string \<Rightarrow> string \<Rightarrow> ledger_map \<Rightarrow> DecisionRecord res" where
  "lookup_spec r q M =
     (if TrimSpace r = [] \<or> TrimSpace q = [] then Inl [Application ErrInvalidInput]
      else case M (TrimSpace r, TrimSpace q) of None \<Rightarrow> Inl [Application ErrEvaluationNotFound] | Some rec \<Rightarrow> Inr rec)"

definition commit_spec :: "EvaluationCommit \<Rightarrow> ledger_map \<Rightarrow> DecisionRecord res \<times> ledger_map" where
  "commit_spec c M =
     (let key = (commit_RuntimeID c, commit_RequestID c) in
      case M key of
        Some rec \<Rightarrow>
          (if record_ActionDigest rec = commit_ActionDigest c then Inr rec else Inl [Application ErrRequestIDConflict], M)
      | None \<Rightarrow> (Inr (decisionRecordFromCommit c), M(key \<mapsto> decisionRecordFromCommit c)))"

text \<open>The map a set of tables stands for; tables are readable when every stored evaluation can be decoded.\<close>

definition ledger_of :: "tables \<Rightarrow> ledger_map" where
  "ledger_of T = (\<lambda>(r, q).
     case select_evaluation T r q of
       None \<Rightarrow> None
     | Some row \<Rightarrow> (case reconstruct r q row of Inl _ \<Rightarrow> None | Inr ev \<Rightarrow> Some (stored_Decision ev)))"

definition readable :: "tables \<Rightarrow> bool" where
  "readable T \<longleftrightarrow> (\<forall>r q row. select_evaluation T r q = Some row \<longrightarrow> is_ok (reconstruct r q row))"

section \<open>Calls on a store at rest\<close>

definition at_rest :: "sqlite_world \<Rightarrow> bool" where
  "at_rest w \<longleftrightarrow> db_script w = [] \<and> db_staged w = no_rows"

lemma rest_get:
  "db_script w = [] \<Longrightarrow> TrimSpace r \<noteq> [] \<Longrightarrow> TrimSpace q \<noteq> [] \<Longrightarrow>
     GetEvaluationByRequestID (Some table_ops) r q w =
       (case select_evaluation (db_committed w) (TrimSpace r) (TrimSpace q) of
          None \<Rightarrow> Inl [Application ErrEvaluationNotFound]
        | Some row \<Rightarrow> reconstruct (TrimSpace r) (TrimSpace q) row, w)"
  using quiet_get [of 0 w r q] by (cases w) simp

lemma rest_commit:
  assumes "storable c" "encodeEvaluation c = Inr e" "admissible w c e" "at_rest w"
  shows "CommitEvaluation (Some table_ops) c w =
    (Inr (decisionRecordFromCommit c), w\<lparr>db_committed := add_rows (db_committed w) (commit_rows c e)\<rparr>)"
  using quiet_commit [OF assms(1-3)] assms(4) by (cases w) (simp add: at_rest_def)

section \<open>Refinement\<close>

lemma commit_rows_keys:
  "t_actions (add_rows T (commit_rows c e)) = commit_action_row c e # t_actions T"
  "t_decisions (add_rows T (commit_rows c e)) = commit_decision_row c e # t_decisions T"
  "action_key (commit_action_row c e) = (commit_RuntimeID c, commit_RequestID c)"
  "decision_key (commit_decision_row c e) = (commit_RuntimeID c, commit_RequestID c)"
  by (simp_all add: add_rows_def commit_rows_def action_key_def decision_key_def commit_action_row_def
      commit_decision_row_def)

lemma select_other_key:
  assumes "(r, q) \<noteq> (commit_RuntimeID c, commit_RequestID c)"
  shows "select_evaluation (add_rows T (commit_rows c e)) r q = select_evaluation T r q"
proof -
  have "action_key (commit_action_row c e) \<noteq> (r, q)" "decision_key (commit_decision_row c e) \<noteq> (r, q)"
    using assms by (auto simp: commit_rows_keys)
  then show ?thesis by (simp add: select_evaluation_def commit_rows_keys(1,2) split: option.split)
qed

lemma ledger_of_commit:
  assumes "wf_commit c" "encodeEvaluation c = Inr e" "admissible w c e"
  shows "ledger_of (add_rows (db_committed w) (commit_rows c e)) =
    (ledger_of (db_committed w))((commit_RuntimeID c, commit_RequestID c) \<mapsto> decisionRecordFromCommit c)"
proof (rule ext, clarify)
  fix r q
  show "ledger_of (add_rows (db_committed w) (commit_rows c e)) (r, q) =
    ((ledger_of (db_committed w))((commit_RuntimeID c, commit_RequestID c) \<mapsto> decisionRecordFromCommit c)) (r, q)"
  proof (cases "(r, q) = (commit_RuntimeID c, commit_RequestID c)")
    case True
    then show ?thesis
      using select_committed_rows [OF assms(3)] reconstruct_committed_row [OF assms(1,2)] by (simp add: ledger_of_def)
  next
    case False
    then show ?thesis using select_other_key [OF False] by (auto simp: ledger_of_def)
  qed
qed

lemma get_refines:
  assumes "at_rest w" "readable (db_committed w)"
  shows "\<exists>found. GetEvaluationByRequestID (Some table_ops) r q w = (found, w) \<and>
    lookup_spec r q (ledger_of (db_committed w)) = (case found of Inl e \<Rightarrow> Inl e | Inr ev \<Rightarrow> Inr (stored_Decision ev))"
proof (cases "TrimSpace r = [] \<or> TrimSpace q = []")
  case True
  then show ?thesis by (auto simp: GetEvaluationByRequestID_def lookup_spec_def Let_def)
next
  case False
  show ?thesis
  proof (cases "select_evaluation (db_committed w) (TrimSpace r) (TrimSpace q)")
    case None
    with False assms(1) show ?thesis by (simp add: rest_get at_rest_def lookup_spec_def ledger_of_def)
  next
    case (Some row)
    then obtain ev where "reconstruct (TrimSpace r) (TrimSpace q) row = Inr ev"
      using assms(2) unfolding readable_def is_ok_iff by blast
    with Some False assms(1) show ?thesis by (simp add: rest_get at_rest_def lookup_spec_def ledger_of_def)
  qed
qed

lemma commit_refines:
  assumes wf: "wf_commit c" and enc: "encodeEvaluation c = Inr e" and rest: "at_rest w"
    and read: "readable (db_committed w)"
    and adm: "ledger_of (db_committed w) (commit_RuntimeID c, commit_RequestID c) = None \<Longrightarrow> admissible w c e"
  shows "\<exists>w'. CommitEvaluation (Some table_ops) c w = (fst (commit_spec c (ledger_of (db_committed w))), w') \<and>
    ledger_of (db_committed w') = snd (commit_spec c (ledger_of (db_committed w))) \<and> at_rest w'"
proof (cases "ledger_of (db_committed w) (commit_RuntimeID c, commit_RequestID c)")
  case None
  with rest_commit [OF wf_commit_storable [OF wf] enc adm [OF None] rest] ledger_of_commit [OF wf enc adm [OF None]] rest
  show ?thesis by (simp add: commit_spec_def at_rest_def)
next
  case (Some rec)
  note trim = encode_trim [OF enc wf_commit_storable [OF wf]]
  obtain row ev where row: "select_evaluation (db_committed w) (commit_RuntimeID c) (commit_RequestID c) = Some row"
      "reconstruct (commit_RuntimeID c) (commit_RequestID c) row = Inr ev" "stored_Decision ev = rec"
    using Some by (auto simp: ledger_of_def split: option.splits sum.splits)
  then have "GetEvaluationByRequestID (Some table_ops) (commit_RuntimeID c) (commit_RequestID c) w = (Inr ev, w)"
    using rest_get [of w "commit_RuntimeID c" "commit_RequestID c"] rest trim by (simp add: at_rest_def)
  then show ?thesis
    using Some row(3) enc rest by (simp add: CommitEvaluation_def resolveExisting_def commit_spec_def)
qed

text \<open>Records read from the tables carry well-formed decisions.\<close>

lemma decodeDecision_wf: "decodeDecision typ rs ras = Inr d \<Longrightarrow> wf_decision d"
  by (auto simp: decodeDecision_def res_simps Let_def wf_NewDenyDecision split: if_splits)

lemma bound_wf:
  assumes "bound T r q rec"
  shows "wf_decision (record_Decision rec)"
  using assms decodeDecision_wf
  by (fastforce simp: bound_def reconstruct_def Let_def res_simps split: if_splits)

end
