(* ===== verification/Liveness.thy ===== *)
theory Liveness
  imports Process LedgerSpec
begin

text \<open>
  The service gets somewhere: on a process at rest, whose clock and random source answer, every
  well-formed new request is decided by the embedded policy, stored and answered. The theory follows
  the request through the ports of the process; the lemmas on the store are those of \<open>LedgerSpec\<close>.
\<close>

section \<open>A process that can decide\<close>

definition decision_id :: "nat list \<Rightarrow> string" where
  "decision_id bytes = ''decision'' @ ''_'' @ hex_EncodeToString bytes"

definition effect_id :: "nat list \<Rightarrow> string" where
  "effect_id bytes = ''effect'' @ ''_'' @ hex_EncodeToString bytes"

text \<open>No stored row shares a key with the request, the new identifiers or the idempotency key of its effect.\<close>

definition fresh_in :: "tables \<Rightarrow> string \<Rightarrow> string \<Rightarrow> nat list \<Rightarrow> nat list \<Rightarrow> bool" where
  "fresh_in T rid qid b1 b2 \<longleftrightarrow>
     (rid, qid) \<notin> action_key ` set (t_actions T) \<and> decision_id b1 \<notin> dr_decision_id ` set (t_decisions T) \<and>
     effect_id b2 \<notin> er_effect_id ` set (t_effects T) \<and>
     policyEffectIdempotencyKey rid qid PolicyEffectCreateSafetyReview \<notin> er_idempotency_key ` set (t_effects T)"

fun fresh_ids :: "tables \<Rightarrow> string \<Rightarrow> string \<Rightarrow> nat list option list \<Rightarrow> bool" where
  "fresh_ids T rid qid (Some b1 # Some b2 # _) \<longleftrightarrow>
     list_all (\<lambda>b. b < 256) b1 \<and> list_all (\<lambda>b. b < 256) b2 \<and> fresh_in T rid qid b1 b2"
| "fresh_ids T rid qid _ \<longleftrightarrow> False"

definition ready :: "process \<Rightarrow> string \<Rightarrow> string \<Rightarrow> bool" where
  "ready w rid qid \<longleftrightarrow>
     at_rest (p_db w) \<and> store_ok (db_committed (p_db w)) \<and> complete (db_committed (p_db w)) \<and>
     fresh_ids (db_committed (p_db w)) rid qid (p_random w) \<and>
     (case p_clock w of t # _ \<Rightarrow> \<not> Time_IsZero (Time_UTC t) \<and> rfc3339_time (Time_UTC t) | [] \<Rightarrow> False)"

lemma hex_plain:
  assumes "list_all (\<lambda>b. b < 256) bs" "c \<in> set (hex_EncodeToString bs)"
  shows "32 < byte c \<and> byte c < 128"
  using hex_runes [of bs c] assms by (auto simp: lower_hex_rune_def list_all_iff)

lemma generated_id:
  assumes "list_all (\<lambda>b. b < 256) bs" "\<forall>c \<in> set p. 32 < byte c \<and> byte c < 128" "p \<noteq> []"
  shows "TrimSpace (p @ hex_EncodeToString bs) = p @ hex_EncodeToString bs" "CHR 0x00 \<notin> set (p @ hex_EncodeToString bs)"
proof -
  let ?s = "p @ hex_EncodeToString bs"
  have s: "?s \<noteq> []" and all: "\<forall>c \<in> set ?s. 32 < byte c \<and> byte c < 128" using assms hex_plain by auto
  have "hd ?s \<in> set ?s" "last ?s \<in> set ?s" by (rule hd_in_set [OF s], rule last_in_set [OF s])
  then show "TrimSpace ?s = ?s" using all s by (intro TrimSpace_ascii) auto
  show "CHR 0x00 \<notin> set ?s" using all by force
qed

lemma generated_ids [simp]:
  assumes "list_all (\<lambda>b. b < 256) bs"
  shows "TrimSpace (decision_id bs) = decision_id bs" "CHR 0x00 \<notin> set (decision_id bs)" "decision_id bs \<noteq> []"
    "TrimSpace (effect_id bs) = effect_id bs" "CHR 0x00 \<notin> set (effect_id bs)" "effect_id bs \<noteq> []"
  using generated_id [OF assms, of "''decision_''"] generated_id [OF assms, of "''effect_''"]
  by (simp_all add: decision_id_def effect_id_def)

section \<open>The commit of a new request\<close>

text \<open>
  An evaluation the service can commit: it passes the validation of the service, it composes to a
  decision, its texts can be stored and it asks for at most one safety review.
\<close>

definition review_effects :: "SafetyReviewRequirement option \<Rightarrow> PolicyEffect option list" where
  "review_effects review = (case review of None \<Rightarrow> [] | Some r \<Rightarrow> [Some (CreateSafetyReviewEffect \<lparr>requirement = r\<rparr>)])"

definition utf8_review :: "SafetyReviewRequirement \<Rightarrow> bool" where
  "utf8_review r \<longleftrightarrow> valid_utf8 (review_priority r) \<and> list_all valid_utf8 (review_evidenceRefs r)"

definition usable :: "PolicyEvaluation \<Rightarrow> Decision \<Rightarrow> SafetyReviewRequirement option \<Rightarrow> bool" where
  "usable ev dec review \<longleftrightarrow>
     validatePolicyEvaluation ev = Inr () \<and> Compose ev = Inr dec \<and> CHR 0x00 \<notin> set (PolicyVersion ev) \<and>
     list_all valid_utf8 (MatchedRuleIDs ev) \<and> Effects ev = review_effects review \<and> pred_option utf8_review review"

text \<open>The facts about a new request that decide its commit.\<close>

definition decidable :: "string \<Rightarrow> string \<Rightarrow> ProposedAction \<Rightarrow> string \<Rightarrow> bool" where
  "decidable rid qid a d \<longleftrightarrow>
     wf_action a \<and> utf8_action a \<and> rfc3339_time (action_requestedAt a) \<and> runtimeID (action_actor a) = rid \<and>
     ComputeActionDigest a = Inr d \<and> TrimSpace rid = rid \<and> rid \<noteq> [] \<and> TrimSpace qid = qid \<and> qid \<noteq> [] \<and>
     CHR 0x00 \<notin> set rid \<and> CHR 0x00 \<notin> set qid"

definition new_commit ::
    "string \<Rightarrow> string \<Rightarrow> ProposedAction \<Rightarrow> string \<Rightarrow> PolicyEvaluation \<Rightarrow> Decision \<Rightarrow> nat list \<Rightarrow> nat list \<Rightarrow> Time \<Rightarrow> EvaluationCommit" where
  "new_commit rid qid a d ev dec b1 b2 t =
     \<lparr>commit_RuntimeID = rid, commit_RequestID = qid, commit_Action = a, commit_ActionDigest = d,
      commit_DecisionID = decision_id b1, commit_Decision = dec, commit_PolicyVersion = TrimSpace (PolicyVersion ev),
      commit_MatchedRuleIDs = MatchedRuleIDs ev,
      commit_Effects = map (\<lambda>f. \<lparr>EffectID = effect_id b2, Effect = f\<rparr>) (Effects ev), commit_EvaluatedAt = Time_UTC t\<rparr>"

definition encoded_review :: "string \<Rightarrow> string \<Rightarrow> SafetyReviewRequirement option \<Rightarrow> nat list \<Rightarrow> encodedPolicyEffect list" where
  "encoded_review rid qid review b2 =
     (case review of
        None \<Rightarrow> []
      | Some r \<Rightarrow>
          [\<lparr>enc_effectID = effect_id b2, enc_typ = PolicyEffectCreateSafetyReview,
            enc_contextJSON = json_print (safetyReviewContext r),
            enc_idempotencyKey = policyEffectIdempotencyKey rid qid PolicyEffectCreateSafetyReview\<rparr>])"

lemma usable_wf: "usable ev dec review \<Longrightarrow> wf_decision dec"
  by (auto simp: usable_def intro: wf_Compose)

lemma new_commit_encodes:
  assumes req: "decidable rid qid a d" and ev: "usable ev dec review"
    and t: "\<not> Time_IsZero (Time_UTC t)" and ids: "list_all (\<lambda>b. b < 256) b1" "list_all (\<lambda>b. b < 256) b2"
  obtains e where "encodeEvaluation (new_commit rid qid a d ev dec b1 b2 t) = Inr e"
    "enc_effects e = encoded_review rid qid review b2"
proof -
  obtain bytes where bytes: "CanonicalActionBytes a = Inr bytes"
    using CanonicalActionBytes_wf [of a] req by (auto simp: decidable_def)
  let ?e = "\<lparr>enc_actionJSON = bytes, enc_reasonCodesJSON = json_print (jstrings (reasonCodes dec)),
    enc_requiredActionsJSON = json_print (jstrings (map required_typ (requiredActions dec))),
    enc_matchedRuleIDsJSON = json_print (jstrings (MatchedRuleIDs ev)), enc_effects = encoded_review rid qid review b2\<rparr>"
  have effects: "encodeEffects (new_commit rid qid a d ev dec b1 b2 t) = Inr (encoded_review rid qid review b2)"
    using ev ids by (simp add: encodeEffects_def new_commit_def usable_def encoded_review_def review_effects_def
        Let_def PolicyEffectType_Valid_def split: option.split)
  have valid: "TrimSpace (PolicyVersion ev) \<noteq> []" "list_all (\<lambda>r. TrimSpace r \<noteq> []) (MatchedRuleIDs ev)"
    using ev by (auto simp: usable_def validatePolicyEvaluation_def Let_def split: if_splits)
  have "DecisionType_Valid (decision_typ dec)" "list_all ReasonCode_Valid (reasonCodes dec)"
    "list_all (\<lambda>a. RequiredActionType_Valid (required_typ a)) (requiredActions dec)"
    using usable_wf [OF ev]
    by (auto simp: wf_decision_def DecisionType_Valid_def RequiredActionType_Valid_def NewRequireApprovalAction_def)
  then have "encodeEvaluation (new_commit rid qid a d ev dec b1 b2 t) = Inr ?e"
    unfolding encodeEvaluation_Inr_iff using bytes req valid t ids effects
    by (auto simp: new_commit_def decidable_def list_all_iff TrimSpace_id)
  then show thesis by (rule that) simp
qed

lemma new_commit_wf:
  assumes "decidable rid qid a d" "usable ev dec review" "rfc3339_time (Time_UTC t)"
  shows "wf_commit (new_commit rid qid a d ev dec b1 b2 t)"
  using assms usable_wf by (auto simp: wf_commit_def new_commit_def decidable_def usable_def list_all_iff)

lemma new_commit_texts:
  assumes "decidable rid qid a d" "usable ev dec review" "list_all (\<lambda>b. b < 256) b1" "list_all (\<lambda>b. b < 256) b2"
  shows "nul_free (new_commit rid qid a d ev dec b1 b2 t)"
    and "list_all utf8_effect (commit_Effects (new_commit rid qid a d ev dec b1 b2 t))"
proof -
  obtain xs ys where "PolicyVersion ev = xs @ TrimSpace (PolicyVersion ev) @ ys"
    using TrimSpace_infix [of "PolicyVersion ev"] by (elim exE)
  then have "set (TrimSpace (PolicyVersion ev)) \<subseteq> set (PolicyVersion ev)" by (metis Un_iff set_append subsetI)
  then show "nul_free (new_commit rid qid a d ev dec b1 b2 t)"
    using assms by (auto simp: nul_free_def new_commit_def decidable_def usable_def list_all_iff)
  show "list_all utf8_effect (commit_Effects (new_commit rid qid a d ev dec b1 b2 t))"
    using assms(2) by (auto simp: new_commit_def usable_def review_effects_def utf8_effect_def utf8_review_def split: option.splits)
qed

lemma new_commit_admissible:
  assumes req: "decidable rid qid a d" and ev: "usable ev dec review"
    and t: "\<not> Time_IsZero (Time_UTC t)" "rfc3339_time (Time_UTC t)"
    and ids: "list_all (\<lambda>b. b < 256) b1" "list_all (\<lambda>b. b < 256) b2"
    and db: "store_ok (db_committed w)" "complete (db_committed w)" "fresh_in (db_committed w) rid qid b1 b2"
  obtains e where "encodeEvaluation (new_commit rid qid a d ev dec b1 b2 t) = Inr e"
    "admissible w (new_commit rid qid a d ev dec b1 b2 t) e"
proof -
  let ?c = "new_commit rid qid a d ev dec b1 b2 t"
  obtain e where e: "encodeEvaluation ?c = Inr e" "enc_effects e = encoded_review rid qid review b2"
    using new_commit_encodes [OF req ev t(1) ids] by blast
  note st = wf_commit_storable [OF new_commit_wf [OF req ev t(2), of b1 b2]]
  note texts = new_commit_texts [OF req ev ids, of t]
  have "list_all (\<lambda>i. CHR 0x00 \<notin> set (EffectID i)) (commit_Effects ?c)" using texts(1) by (simp add: nul_free_def list_all_iff)
  then have "list_all (\<lambda>f. effect_checks (effect_row ?c f)) (enc_effects e)"
    using effect_row_checks [OF _ texts(2)] e(1) unfolding list_all_iff encodeEvaluation_Inr_iff encodeEffects_def by blast
  moreover have "store_ok (add_rows (db_committed w) (commit_rows ?c e))"
  proof -
    have "(rid, qid) \<notin> decision_key ` set (t_decisions (db_committed w))"
      using db(2,3) unfolding complete_def fresh_in_def by metis
    moreover have "action_key (commit_action_row ?c e) = (rid, qid)" "decision_key (commit_decision_row ?c e) = (rid, qid)"
      "dr_decision_id (commit_decision_row ?c e) = decision_id b1"
      by (simp_all add: commit_rows_keys) (simp_all add: new_commit_def commit_decision_row_def)
    ultimately show ?thesis using db(1,3)
      by (auto simp: store_ok_def unique_keys_def add_rows_def commit_rows_def effect_row_def Let_def e(2)
          encoded_review_def fresh_in_def split: option.split)
  qed
  ultimately have "admissible w ?c e"
    using db(2) action_row_checks [OF st e(1) texts(1)] decision_row_checks [OF st e(1) texts(1)] by (simp add: admissible_def)
  with e(1) show thesis by (rule that)
qed

lemma process_new_id:
  assumes "p_random w = Some bs # rs" "list_all (\<lambda>b. b < 256) bs"
  shows "newRequiredID (process_ports E) IDDecision w = (Inr (decision_id bs), w\<lparr>p_random := rs\<rparr>)"
    and "newRequiredID (process_ports E) IDPolicyEffect w = (Inr (effect_id bs), w\<lparr>p_random := rs\<rparr>)"
proof -
  have "randomIDGenerator_NewID (Some bs) IDDecision = Inr (decision_id bs)"
    "randomIDGenerator_NewID (Some bs) IDPolicyEffect = Inr (effect_id bs)"
    by (simp_all add: randomIDGenerator_NewID_def decision_id_def effect_id_def IDDecision_def IDPolicyEffect_def)
  with assms show "newRequiredID (process_ports E) IDDecision w = (Inr (decision_id bs), w\<lparr>p_random := rs\<rparr>)"
    "newRequiredID (process_ports E) IDPolicyEffect w = (Inr (effect_id bs), w\<lparr>p_random := rs\<rparr>)"
    by (simp_all add: newRequiredID_def process_ports_def process_NewID_def)
qed

lemma process_review:
  assumes "Effects ev = review_effects review" "p_random w = Some b2 # rs" "list_all (\<lambda>b. b < 256) b2"
  shows "\<exists>rs'. preparePolicyEffects (process_ports E) (Effects ev) w =
    (Inr (map (\<lambda>f. \<lparr>EffectID = effect_id b2, Effect = f\<rparr>) (Effects ev)), w\<lparr>p_random := rs'\<rparr>)"
proof (cases review)
  case None
  then show ?thesis using assms(1) by (intro exI [of _ "p_random w"]) (simp add: review_effects_def)
next
  case (Some r)
  then show ?thesis using assms process_new_id(2) [OF assms(2,3)]
    by (auto simp: review_effects_def validPolicyEffect_def PolicyEffectType_Valid_def)
qed

section \<open>Evaluators that decide\<close>

text \<open>
  The contract of an evaluator that decides the actions it is able to decide: the evaluation is usable
  and only the answers of the coordinator to come are consumed.
\<close>

locale deciding_evaluator =
  fixes evaluator :: "process policy_evaluator"
    and able :: "ProposedAction \<Rightarrow> bool"
  assumes decides: "able a \<Longrightarrow> wf_action a \<Longrightarrow> utf8_action a \<Longrightarrow> rfc3339_time (action_requestedAt a) \<Longrightarrow>
    \<exists>ev dec review rpc. policy_Evaluate evaluator a w = (Inr ev, w\<lparr>p_rpc := rpc\<rparr>) \<and> usable ev dec review"
begin

lemma new_request_committed:
  assumes req: "decidable rid qid a d" and able: "able a" and ready: "ready w rid qid"
  shows "\<exists>ev w1 rec w'. policy_Evaluate evaluator a w = (Inr ev, w1) \<and>
    decideAndCommit (process_ports evaluator) rid qid a d w = (Inr rec, w') \<and>
    Compose ev = Inr (record_Decision rec) \<and> record_ActionDigest rec = d \<and> at_rest (p_db w') \<and>
    ledger_of (db_committed (p_db w')) = (ledger_of (db_committed (p_db w)))((rid, qid) \<mapsto> rec)"
proof -
  obtain b1 b2 rs where random: "p_random w = Some b1 # Some b2 # rs"
      "list_all (\<lambda>b. b < 256) b1" "list_all (\<lambda>b. b < 256) b2" "fresh_in (db_committed (p_db w)) rid qid b1 b2"
    using ready by (auto simp: ready_def elim: fresh_ids.elims(2))
  obtain t ts where clock: "p_clock w = t # ts" "\<not> Time_IsZero (Time_UTC t)" "rfc3339_time (Time_UTC t)"
    using ready by (auto simp: ready_def split: list.splits)
  have db: "at_rest (p_db w)" "store_ok (db_committed (p_db w))" "complete (db_committed (p_db w))"
    using ready by (simp_all add: ready_def)
  obtain ev dec review rpc where eval: "policy_Evaluate evaluator a w = (Inr ev, w\<lparr>p_rpc := rpc\<rparr>)"
      and ev: "usable ev dec review"
    using decides [OF able, of w] req by (auto simp: decidable_def)
  let ?c = "new_commit rid qid a d ev dec b1 b2 (Time_UTC t)"
  have utc: "Time_UTC (Time_UTC t) = Time_UTC t" by (simp add: Time_UTC_def)
  obtain e where e: "encodeEvaluation ?c = Inr e" "admissible (p_db w) ?c e"
    using new_commit_admissible [OF req ev _ _ random(2,3) db(2,3) random(4), of "Time_UTC t"] clock(2,3)
    by (auto simp: utc)
  note cwf = new_commit_wf [OF req ev, of "Time_UTC t" b1 b2, unfolded utc, OF clock(3)]
  note commit = rest_commit [OF wf_commit_storable [OF cwf] e db(1)]
  obtain rs' where effects: "preparePolicyEffects (process_ports evaluator) (Effects ev) (w\<lparr>p_rpc := rpc, p_random := Some b2 # rs\<rparr>) =
      (Inr (commit_Effects ?c), w\<lparr>p_rpc := rpc, p_random := rs'\<rparr>)"
    using process_review [of ev review "w\<lparr>p_rpc := rpc, p_random := Some b2 # rs\<rparr>"] ev random(3)
    by (auto simp: usable_def new_commit_def)
  let ?rec = "decisionRecordFromCommit ?c"
  let ?w2 = "w\<lparr>p_rpc := rpc, p_random := rs', p_clock := ts\<rparr>"
  let ?w3 = "?w2\<lparr>p_db := (p_db w)\<lparr>db_committed := add_rows (db_committed (p_db w)) (commit_rows ?c e)\<rparr>\<rparr>"
  have "port_Commit (process_ports evaluator) ?c ?w2 = (Inr ?rec, ?w3)"
    using commit by (simp add: process_ports_def ledger_Commit_def on_db_def)
  moreover have "validateAuthoritativeDecision ?rec d = Inr ()"
    using e(1) unfolding encodeEvaluation_Inr_iff
    by (simp add: validateAuthoritativeDecision_Inr_iff decisionRecordFromCommit_def new_commit_def)
  ultimately have "decideAndCommit (process_ports evaluator) rid qid a d w = (Inr ?rec, ?w3)"
    using eval ev process_new_id(1) [of "w\<lparr>p_rpc := rpc\<rparr>" b1 "Some b2 # rs"] random(1,2) effects clock(1,2)
    by (simp add: decideAndCommit_def process_ports_def systemClock_Now_def new_commit_def utc usable_def)
  moreover have "record_Decision ?rec = dec" "record_ActionDigest ?rec = d"
    by (simp_all add: decisionRecordFromCommit_def new_commit_def)
  ultimately show ?thesis
    using eval ev ledger_of_commit [OF cwf e] db(1) by (auto simp: at_rest_def new_commit_def usable_def)
qed

lemma new_request_evaluated:
  assumes wf: "wf_request runtime command" and a: "Normalize runtime (command_ProposedAction command) = Inr a"
    and qid: "normalizeDecisionRequestID (command_RequestID command) = Inr qid"
    and nul: "CHR 0x00 \<notin> set (authenticated_runtimeID runtime)" "CHR 0x00 \<notin> set qid"
    and able: "able a" and ready: "ready w (authenticated_runtimeID runtime) qid"
  shows "\<exists>ev w1 rec w'. policy_Evaluate evaluator a w = (Inr ev, w1) \<and>
    Evaluate (Some (process_ports evaluator)) runtime command w = (Inr rec, w') \<and>
    Compose ev = Inr (record_Decision rec) \<and> at_rest (p_db w') \<and>
    ledger_of (db_committed (p_db w')) =
      (ledger_of (db_committed (p_db w)))((authenticated_runtimeID runtime, qid) \<mapsto> rec)"
proof -
  let ?rid = "authenticated_runtimeID runtime"
  note wfa = wf_request_action [OF wf a]
  obtain d where d: "ComputeActionDigest a = Inr d" using ComputeActionDigest_wf [OF wfa(1)] by blast
  have q: "TrimSpace qid = qid" "qid \<noteq> []"
    using qid by (auto simp: normalizeDecisionRequestID_def Let_def TrimSpace_id split: if_splits)
  have rid: "?rid \<noteq> []" using wf by (auto simp: wf_request_def wf_runtime_def wf_identifier_def)
  have "runtimeID (action_actor a) = ?rid"
    using normalizeAction_wf(2) [of runtime "command_ProposedAction command" a] a wfa(4) by simp
  then have req: "decidable ?rid qid a d" using wfa d q rid nul by (simp add: decidable_def)
  have rest: "db_script (p_db w) = []" "(?rid, qid) \<notin> action_key ` set (t_actions (db_committed (p_db w)))"
    using ready by (auto simp: ready_def at_rest_def fresh_in_def elim: fresh_ids.elims(2))
  have "find (\<lambda>x. action_key x = (?rid, qid)) (t_actions (db_committed (p_db w))) = None"
    unfolding find_None_iff using rest(2) by (metis image_eqI)
  then have "select_evaluation (db_committed (p_db w)) ?rid qid = None" by (simp add: select_evaluation_def)
  then have "port_Get (process_ports evaluator) ?rid qid w = (Inl [Application ErrEvaluationNotFound], w)"
    using rest_get [OF rest(1), of ?rid qid] wfa(4) q rid by (simp add: process_ports_def ledger_Get_def on_db_def)
  then have "Evaluate (Some (process_ports evaluator)) runtime command w =
      decideAndCommit (process_ports evaluator) ?rid qid a d w"
    using qid a d by (simp del: Normalize_Inr add: Evaluate_def errors_Is_def)
  then show ?thesis using new_request_committed [OF req able ready] by auto
qed

end

section \<open>Both evaluators decide\<close>

definition embedded_able :: "ProposedAction \<Rightarrow> bool" where
  "embedded_able a \<longleftrightarrow> (secret_payload a \<longrightarrow> distinct (map evidence_id (action_evidence a)))"

definition storable_version :: "string \<Rightarrow> bool" where
  "storable_version version \<longleftrightarrow> TrimSpace version \<noteq> [] \<and> CHR 0x00 \<notin> set version"

lemma embedded_usable:
  assumes "wf_action a" "utf8_action a" "embedded_able a"
  obtains ev dec review where "embedded_Evaluate a = Inr ev" "usable ev dec review"
proof -
  let ?r = "\<lparr>review_priority = SafetyReviewHigh, review_evidenceRefs = map evidence_id (action_evidence a)\<rparr>"
  let ?review = "if secret_payload a then Some ?r else None"
  obtain ev where ev: "embedded_Evaluate a = Inr ev" "DenyReasonCodes ev = embedded_reasons a"
      "PolicyVersion ev = embedded_Version" "Effects ev = review_effects ?review"
    using embedded_Evaluate_ok [OF assms(1)] assms(3) by (auto simp: embedded_able_def review_effects_def)
  have "r \<in> set embedded_rules \<Longrightarrow> TrimSpace r \<noteq> []" for r
    by (auto simp: embedded_rules_def rulePermissionMismatch_def ruleExternalSend_def ruleVisibilityExpand_def
        ruleDestructiveDelete_def ruleSecretReview_def TrimSpace_ascii)
  then have matched: "list_all (\<lambda>r. TrimSpace r \<noteq> [] \<and> valid_utf8 r) (MatchedRuleIDs ev)"
    using embedded_matched [OF ev(1)] embedded_rules_ascii by (auto simp: list_all_iff)
  have version: "TrimSpace embedded_Version \<noteq> []" "CHR 0x00 \<notin> set embedded_Version"
    by (simp_all add: embedded_Version_def TrimSpace_ascii)
  have "validatePolicyEvaluation ev = Inr ()" using matched version
    by (auto simp: validatePolicyEvaluation_def ev list_all_iff guard_res_def validPolicyEffect_def review_effects_def
        PolicyEffectType_Valid_def)
  moreover have "pred_option utf8_review ?review"
    using assms(2) valid_utf8_ascii [of SafetyReviewHigh]
    by (auto simp: utf8_review_def utf8_action_def utf8_evidence_def list_all_iff SafetyReviewHigh_def)
  ultimately have "usable ev (compose_spec (embedded_reasons a)) ?review"
    using ev(3,4) version matched embedded_compose [OF ev(2)] by (simp add: usable_def list_all_iff)
  with ev(1) show thesis by (rule that)
qed

interpretation deciding_embedded: deciding_evaluator EmbeddedEvaluator embedded_able
proof
  fix a :: ProposedAction and w :: process
  assume "embedded_able a" "wf_action a" "utf8_action a"
  then obtain ev dec review where "embedded_Evaluate a = Inr ev" "usable ev dec review" using embedded_usable by blast
  then have "policy_Evaluate EmbeddedEvaluator a w = (Inr ev, w\<lparr>p_rpc := p_rpc w\<rparr>) \<and> usable ev dec review" by simp
  then show "\<exists>ev dec review rpc. policy_Evaluate EmbeddedEvaluator a w = (Inr ev, w\<lparr>p_rpc := rpc\<rparr>) \<and> usable ev dec review"
    by blast
qed

lemma osprey_usable:
  assumes "storable_version version"
  shows "\<exists>dec review. usable (osprey_outcome version answer) dec review"
proof -
  obtain dec where dec: "Compose (osprey_outcome version answer) = Inr dec" using osprey_outcome_composes by blast
  let ?r = "\<lparr>review_priority = SafetyReviewHigh, review_evidenceRefs = []\<rparr>"
  obtain review where review: "Effects (osprey_outcome version answer) = review_effects review" "review \<in> {None, Some ?r}"
  proof -
    have "Effects (osprey_outcome version answer) \<in> {[], [Some review_effect]}"
      by (auto simp: osprey_outcome_def failClosed_def verdicts_evaluation_def split: sum.split)
    then show thesis using that [of None] that [of "Some ?r"] by (auto simp: review_effects_def review_effect_def)
  qed
  have "PolicyVersion (osprey_outcome version answer) = version"
    by (simp add: osprey_outcome_def failClosed_def verdicts_evaluation_def split: sum.split)
  moreover have "list_all (\<lambda>r. TrimSpace r \<noteq> []) (MatchedRuleIDs (osprey_outcome version answer))"
    using verdict_nonblank
    by (auto simp: osprey_outcome_def failClosed_def verdicts_evaluation_def list_all_iff split: sum.splits)
  moreover have "pred_option utf8_review review"
    using review(2) valid_utf8_ascii [of SafetyReviewHigh] by (auto simp: utf8_review_def SafetyReviewHigh_def)
  ultimately have "usable (osprey_outcome version answer) dec review"
    using assms dec review(1) osprey_rules_utf8
    by (auto simp: usable_def storable_version_def validatePolicyEvaluation_def Let_def review_effects_def
        validPolicyEffect_def PolicyEffectType_Valid_def split: option.split)
  then show ?thesis by blast
qed

lemma coordinator_frame:
  "\<exists>answer rpc. ProcessAction (Some process_rpc) timeout request w = (answer, w\<lparr>p_rpc := rpc\<rparr>)"
proof -
  obtain answer w' where "ProcessAction (Some process_rpc) timeout request w = (answer, w')" by (rule prod.exhaust)
  moreover from this have "w' = w\<lparr>p_rpc := p_rpc w'\<rparr>"
    by (cases w) (auto simp: ProcessAction_def process_rpc_def split: list.splits sum.splits option.splits if_splits)
  ultimately show ?thesis by metis
qed

interpretation deciding_osprey: deciding_evaluator "OspreyAdapter (process_osprey version timeout)"
    "\<lambda>_. storable_version version" for version timeout
proof
  fix a :: ProposedAction and w :: process
  assume version: "storable_version version" and a: "wf_action a" "rfc3339_time (action_requestedAt a)"
  obtain json where json: "marshalAction a = Inr json" using marshalAction_total [OF a] by blast
  obtain answer rpc where "ProcessAction (Some process_rpc) timeout
      \<lparr>coord_ActionDataJSON = json, coord_Timestamp = action_requestedAt a\<rparr> w = (answer, w\<lparr>p_rpc := rpc\<rparr>)"
    using coordinator_frame by blast
  with json have "policy_Evaluate (OspreyAdapter (process_osprey version timeout)) a w =
      (Inr (osprey_outcome version answer), w\<lparr>p_rpc := rpc\<rparr>)"
    by (simp add: osprey_Evaluate_eq process_osprey_def)
  with osprey_usable [OF version, of answer]
  show "\<exists>ev dec review rpc. policy_Evaluate (OspreyAdapter (process_osprey version timeout)) a w =
      (Inr ev, w\<lparr>p_rpc := rpc\<rparr>) \<and> usable ev dec review"
    by blast
qed

end
