(* ===== verification/Scenario.thy ===== *)
theory Scenario
  imports Process LedgerSpec
begin

text \<open>
  One concrete run of the system, from the HTTP request to the stored decision and its replay: an
  agent asks to move a document to the bin. The digest is kept as the value of \<^verbatim>\<open>ComputeActionDigest\<close>;
  everything else is a literal. The witnesses of the properties are taken from this run.
\<close>

section \<open>The action\<close>

definition sc_time :: Time where
  "sc_time = \<lparr>instant = 63902919845 * 10 ^ 9, zone_offset = 0\<rparr>"

definition sc_runtime :: AuthenticatedRuntime where
  "sc_runtime = \<lparr>authenticated_runtimeID = ''runtime-1''\<rparr>"

definition sc_action :: ProposedAction where
  "sc_action =
     \<lparr>action_typ = ''DELETE'', action_requestedAt = sc_time,
      action_actor = \<lparr>agentID = ''agent-1'', runtimeID = ''runtime-1'', sessionID = []\<rparr>,
      action_delegation = \<lparr>delegation_id = ''delegation-1'', delegator = \<lparr>principal_typ = ''USER'', principal_id = ''user-1''\<rparr>\<rparr>,
      action_target = \<lparr>resourceType = ''document'', resourceID = ''document-1''\<rparr>,
      action_parameters = Some (Delete \<lparr>delete_mode = ''SOFT'', delete_recoverable = True\<rparr>),
      action_payload = \<lparr>payload_digest = sha256_text [], payload_classification = [], payload_sizeBytes = Some 7\<rparr>,
      action_evidence = []\<rparr>"

definition sc_digest :: string where
  "sc_digest = (case ComputeActionDigest sc_action of Inr d \<Rightarrow> d | Inl _ \<Rightarrow> [])"

lemma sc_identifiers [simp]:
  "wf_identifier ''agent-1''" "wf_identifier ''runtime-1''" "wf_identifier ''delegation-1''" "wf_identifier ''user-1''"
  "wf_identifier ''document-1''" "wf_identifier ''request-1''" "wf_identifier ''embedded-mvp-v1''" "trimmed ''document''"
  by (simp_all add: wf_identifier_def trimmed_ascii)

lemma PayloadDigest_Valid_sha256_text: "PayloadDigest_Valid (sha256_text s)"
  using ActionDigest_Valid_sha256_text [of s] by (simp add: PayloadDigest_Valid_def ActionDigest_Valid_def
    ParsePayloadDigest_def ParseActionDigest_def is_ok_res_bind)

lemma sc_time_facts: "rfc3339_time sc_time" "utc_time sc_time" "\<not> Time_IsZero sc_time" "Time_UTC sc_time = sc_time"
proof -
  show "rfc3339_time sc_time" by code_simp
  then show "utc_time sc_time" by (simp add: rfc3339_time_def)
qed (simp_all add: sc_time_def Time_IsZero_def Time_UTC_def)

lemma sc_action_wf: "wf_action sc_action"
  using sc_time_facts PayloadDigest_Valid_sha256_text
  by (simp add: sc_action_def wf_action_def ActionType_Valid_def action_type_defs wf_actor_def wf_delegation_def
      wf_principal_def PrincipalType_Valid_def PrincipalUser_def wf_target_def wf_delete_mode_def DeleteSoft_def
      wf_payload_def wf_strings_def wf_evidence_list_def unique_by_key_Nil_iff)

lemma sc_action_utf8: "utf8_action sc_action"
proof -
  have "valid_utf8 (sha256_text [])"
    using digest_chars [OF PayloadDigest_Valid_sha256_text] by (simp add: valid_utf8_ascii)
  then show ?thesis
    by (simp add: sc_action_def utf8_action_def utf8_principal_def utf8_payload_def valid_utf8_ascii)
qed

lemma sc_normalize: "Normalize sc_runtime (action_input sc_action) = Inr sc_action"
  unfolding Normalize_Inr by (rule normalizeAction_idem) (simp_all add: sc_action_wf, simp add: sc_runtime_def sc_action_def)

lemma sc_digest: "ComputeActionDigest sc_action = Inr sc_digest"
  using ComputeActionDigest_wf [OF sc_action_wf] by (auto simp: sc_digest_def)

lemma sc_evaluation:
  "embedded_Evaluate sc_action =
     Inr \<lparr>DenyReasonCodes = [], Effects = [], MatchedRuleIDs = [], PolicyVersion = embedded_Version\<rparr>"
  by (simp add: embedded_Evaluate_def sc_action_def evaluateActionRules_def DeleteHard_def)

section \<open>The commit\<close>

definition sc_decisionID :: string where
  "sc_decisionID = ''decision'' @ ''_'' @ hex_EncodeToString (replicate 16 0)"

definition sc_commit :: EvaluationCommit where
  "sc_commit =
     \<lparr>commit_RuntimeID = ''runtime-1'', commit_RequestID = ''request-1'', commit_Action = sc_action,
      commit_ActionDigest = sc_digest, commit_DecisionID = sc_decisionID, commit_Decision = NewAllowDecision,
      commit_PolicyVersion = embedded_Version, commit_MatchedRuleIDs = [], commit_Effects = [],
      commit_EvaluatedAt = sc_time\<rparr>"

definition sc_encoded :: encodedEvaluation where
  "sc_encoded = (case encodeEvaluation sc_commit of Inr e \<Rightarrow> e | Inl _ \<Rightarrow>
     \<lparr>enc_actionJSON = [], enc_reasonCodesJSON = [], enc_requiredActionsJSON = [], enc_matchedRuleIDsJSON = [], enc_effects = []\<rparr>)"

definition sc_db :: sqlite_world where
  "sc_db = \<lparr>db_committed = no_rows, db_staged = no_rows, db_script = []\<rparr>"

definition sc_stored :: sqlite_world where
  "sc_stored = sc_db\<lparr>db_committed := add_rows no_rows (commit_rows sc_commit sc_encoded)\<rparr>"

definition sc_record :: DecisionRecord where
  "sc_record = decisionRecordFromCommit sc_commit"

lemma sc_decisionID_facts:
  "sc_decisionID = ''decision_00000000000000000000000000000000''" "TrimSpace sc_decisionID = sc_decisionID" "sc_decisionID \<noteq> []"
proof -
  show eq: "sc_decisionID = ''decision_00000000000000000000000000000000''"
    by code_simp
  show "TrimSpace sc_decisionID = sc_decisionID" "sc_decisionID \<noteq> []"
    unfolding eq by (simp_all add: TrimSpace_ascii)
qed

lemma sc_wf_commit: "wf_commit sc_commit"
  using sc_action_wf sc_action_utf8 sc_time_facts
  by (simp add: wf_commit_def sc_commit_def wf_identifier_TrimSpace wf_NewAllowDecision)
    (simp add: sc_action_def sc_time_facts)

lemmas sc_storable = wf_commit_storable [OF sc_wf_commit]

lemma sc_encode: "encodeEvaluation sc_commit = Inr sc_encoded" "enc_effects sc_encoded = []"
proof -
  obtain bytes where bytes: "CanonicalActionBytes sc_action = Inr bytes"
    using CanonicalActionBytes_wf [OF sc_action_wf] by blast
  have id: "TrimSpace sc_decisionID \<noteq> []" using sc_decisionID_facts by simp
  have "\<exists>e. encodeEvaluation sc_commit = Inr e \<and> enc_effects e = []"
  proof (intro exI conjI)
    show "encodeEvaluation sc_commit = Inr \<lparr>enc_actionJSON = bytes, enc_reasonCodesJSON = json_print (jstrings []),
        enc_requiredActionsJSON = json_print (jstrings []), enc_matchedRuleIDsJSON = json_print (jstrings []), enc_effects = []\<rparr>"
      unfolding encodeEvaluation_Inr_iff using bytes sc_digest sc_time_facts id
      by (simp add: sc_commit_def embedded_Version_def wf_identifier_TrimSpace NewAllowDecision_def
          DecisionType_Valid_def encodeEffects_def) (simp add: sc_action_def)
  qed simp
  then show "encodeEvaluation sc_commit = Inr sc_encoded" "enc_effects sc_encoded = []"
    by (auto simp: sc_encoded_def)
qed

lemma sc_nul_free: "nul_free sc_commit"
  by (simp add: nul_free_def sc_commit_def sc_decisionID_facts embedded_Version_def)

lemma sc_admissible: "admissible sc_db sc_commit sc_encoded"
  using action_row_checks [OF sc_storable sc_encode(1) sc_nul_free]
    decision_row_checks [OF sc_storable sc_encode(1) sc_nul_free] sc_encode(2)
  by (simp add: admissible_def sc_db_def complete_def no_rows_def store_ok_def unique_keys_def add_rows_def commit_rows_def)

lemma sc_at_rest: "at_rest sc_db" "at_rest sc_stored" "table_invar sc_db" "readable (db_committed sc_db)"
  by (simp_all add: at_rest_def sc_db_def sc_stored_def table_invar_def store_ok_def unique_keys_def add_rows_def no_rows_def
      readable_def select_evaluation_def)

lemma sc_commits: "CommitEvaluation (Some table_ops) sc_commit sc_db = (Inr sc_record, sc_stored)"
  using rest_commit [OF sc_storable sc_encode(1) sc_admissible sc_at_rest(1)]
  by (simp add: sc_record_def sc_stored_def sc_db_def)

lemma sc_select:
  "select_evaluation (db_committed sc_stored) ''runtime-1'' ''request-1'' = Some (committed_row sc_commit sc_encoded)"
  using select_committed_rows [OF sc_admissible] by (simp add: sc_stored_def sc_db_def sc_commit_def)

definition sc_stored_evaluation :: StoredEvaluation where
  "sc_stored_evaluation =
     \<lparr>stored_RuntimeID = ''runtime-1'', stored_RequestID = ''request-1'', stored_Action = sc_action, stored_Decision = sc_record\<rparr>"

lemma sc_reads:
  "GetEvaluationByRequestID (Some table_ops) ''runtime-1'' ''request-1'' sc_stored = (Inr sc_stored_evaluation, sc_stored)"
  "GetEvaluationByRequestID (Some table_ops) ''runtime-1'' ''request-1'' sc_db = (Inl [Application ErrEvaluationNotFound], sc_db)"
  using rest_get [of sc_stored "''runtime-1''" "''request-1''"] rest_get [of sc_db "''runtime-1''" "''request-1''"]
    sc_at_rest sc_select reconstruct_committed_row [OF sc_wf_commit sc_encode(1)]
  by (simp_all add: wf_identifier_TrimSpace at_rest_def sc_stored_evaluation_def sc_record_def)
    (simp_all add: sc_commit_def sc_db_def no_rows_def select_evaluation_def)

lemma sc_bound: "bound (db_committed sc_stored) ''runtime-1'' ''request-1'' sc_record"
  using table.get_bound [OF _ sc_reads(1)] sc_select reconstruct_committed_row [OF sc_wf_commit sc_encode(1)]
  by (auto simp: bound_def sc_record_def sc_commit_def)

section \<open>The service\<close>

definition sc_command :: EvaluateActionCommand where
  "sc_command = \<lparr>command_RequestID = ''request-1'', command_ProposedAction = action_input sc_action\<rparr>"

definition sc_start :: process where
  "sc_start = \<lparr>p_db = sc_db, p_clock = [sc_time], p_random = [Some (replicate 16 0)], p_rpc = []\<rparr>"

definition sc_done :: process where
  "sc_done = \<lparr>p_db = sc_stored, p_clock = [], p_random = [], p_rpc = []\<rparr>"

lemma sc_process_invar: "process_invar sc_start"
  using sc_at_rest sc_time_facts by (simp add: process_invar_def sc_start_def)

lemma sc_wf_request: "wf_request sc_runtime sc_command"
  using sc_time_facts sc_action_utf8
  by (simp add: wf_request_def sc_runtime_def wf_runtime_def valid_utf8_ascii sc_command_def action_input_def
      sc_action_def utf8_input_def utf8_principal_def utf8_payload_def utf8_action_def)

lemma sc_validated: "validateAuthoritativeDecision sc_record sc_digest = Inr ()"
  using sc_decisionID_facts sc_time_facts
  by (simp add: validateAuthoritativeDecision_Inr_iff sc_record_def decisionRecordFromCommit_def sc_commit_def
      embedded_Version_def wf_identifier_TrimSpace NewAllowDecision_def DecisionType_Valid_def)

lemma sc_first: "Evaluate (Some (process_ports EmbeddedEvaluator)) sc_runtime sc_command sc_start = (Inr sc_record, sc_done)"
proof -
  have "normalizeDecisionRequestID ''request-1'' = Inr ''request-1''"
    by (simp add: normalizeDecisionRequestID_def wf_identifier_TrimSpace)
  moreover have "ledger_Get ''runtime-1'' ''request-1'' sc_start = (Inl [Application ErrEvaluationNotFound], sc_start)"
    using sc_reads(2) by (simp add: ledger_Get_def on_db_def sc_start_def)
  moreover have "decideAndCommit (process_ports EmbeddedEvaluator) ''runtime-1'' ''request-1'' sc_action sc_digest sc_start =
      (Inr sc_record, sc_done)"
  proof -
    let ?ev = "\<lparr>DenyReasonCodes = [], Effects = [], MatchedRuleIDs = [], PolicyVersion = embedded_Version\<rparr>"
    let ?w = "sc_start\<lparr>p_random := []\<rparr>"
    have 1: "port_Evaluate (process_ports EmbeddedEvaluator) sc_action sc_start = (Inr ?ev, sc_start)"
      using sc_evaluation by (simp add: process_ports_def)
    have trim: "TrimSpace embedded_Version = embedded_Version" "embedded_Version \<noteq> []"
      by (simp_all add: embedded_Version_def wf_identifier_TrimSpace)
    then have 2: "validatePolicyEvaluation ?ev = Inr ()" by (simp add: validatePolicyEvaluation_def)
    have 3: "Compose ?ev = Inr NewAllowDecision" by (simp add: Compose_def)
    have "process_NewID IDDecision sc_start = (Inr sc_decisionID, ?w)"
      by (simp add: process_NewID_def sc_start_def randomIDGenerator_NewID_def sc_decisionID_def)
    then have 4: "newRequiredID (process_ports EmbeddedEvaluator) IDDecision sc_start = (Inr sc_decisionID, ?w)"
      using sc_decisionID_facts(2,3) by (simp add: newRequiredID_def process_ports_def)
    have 5: "port_Now (process_ports EmbeddedEvaluator) ?w = (sc_time, ?w\<lparr>p_clock := []\<rparr>)"
      using sc_time_facts by (simp add: process_ports_def systemClock_Now_def sc_start_def)
    have "ledger_Commit sc_commit (?w\<lparr>p_clock := []\<rparr>) = (Inr sc_record, sc_done)"
      using sc_commits by (simp add: ledger_Commit_def on_db_def sc_start_def sc_done_def)
    then have 6: "port_Commit (process_ports EmbeddedEvaluator) sc_commit (?w\<lparr>p_clock := []\<rparr>) = (Inr sc_record, sc_done)"
      by (simp add: process_ports_def)
    show ?thesis
      using 1 2 3 4 5 6 [unfolded sc_commit_def] trim sc_validated sc_time_facts by (simp add: decideAndCommit_def)
  qed
  ultimately show ?thesis
    using sc_normalize sc_digest
    by (simp del: Normalize_Inr add: Evaluate_def sc_command_def sc_runtime_def process_ports_def errors_Is_def)
qed

end
