(* ===== verification/ScenarioHttp.thy ===== *)
theory ScenarioHttp
  imports Scenario
begin

text \<open>The same run as \<open>Scenario\<close>, seen from the HTTP interface: the request is sent twice.\<close>

definition sc_body :: json where
  "sc_body =
     JObj [(''apiVersion'', jstring ''v1''), (''requestId'', jstring ''request-1''),
       (''proposedAction'',
        JObj [(''type'', jstring ''DELETE''), (''requestedAt'', jstring ''2026-01-02T03:04:05Z''),
          (''actor'', canonicalActor (action_actor sc_action)),
          (''delegation'', JObj [(''delegationId'', jstring ''delegation-1''),
             (''delegator'', canonicalPrincipalValue (delegator (action_delegation sc_action)))]),
          (''target'', canonicalTarget (action_target sc_action)),
          (''parameters'', JObj [(''deleteMode'', jstring ''SOFT''), (''recoverable'', JBool True)]),
          (''payload'', canonicalPayload (action_payload sc_action))])]"

definition sc_http_request :: HttpRequest where
  "sc_http_request = \<lparr>req_Authorization = ''Bearer token-1'', req_Body = json_print sc_body\<rparr>"

definition sc_tokens :: StaticRuntimeAuthenticator where
  "sc_tokens = [''token-1'' \<mapsto> ''runtime-1'']"

definition sc_decoded :: EvaluateActionRequest where
  "sc_decoded =
     \<lparr>request_APIVersion = ''v1'', request_RequestID = ''request-1'',
      request_ProposedAction =
        \<lparr>dto_Type = ''DELETE'', dto_RequestedAt = sc_time, dto_Actor = action_actor sc_action,
         dto_Delegation = action_delegation sc_action, dto_Target = action_target sc_action,
         dto_Parameters = Some (JObj [(''deleteMode'', jstring ''SOFT''), (''recoverable'', JBool True)]),
         dto_Payload = action_payload sc_action, dto_Evidence = []\<rparr>\<rparr>"

lemma sc_utf8_digest [simp]: "valid_utf8 (sha256_text [])"
  using digest_chars [OF PayloadDigest_Valid_sha256_text] by (simp add: valid_utf8_ascii)

lemma sc_body_ok: "json_ok sc_body" "json_depth sc_body \<le> max_nesting"
  by (simp_all add: sc_body_def sc_action_def canonicalActor_def canonicalTarget_def canonicalPayload_def
      canonicalPrincipalValue_def valid_utf8_ascii max_nesting_def)

lemma sc_requested_at: "time_Parse ''2026-01-02T03:04:05Z'' = Inr sc_time"
proof -
  have "format_rfc3339nano sc_time = ''2026-01-02T03:04:05Z''" by code_simp
  then show ?thesis using parse_format_rfc3339nano [OF sc_time_facts(1)] by (simp add: time_Parse_def)
qed

lemma digest_plain: "list_all plain_char (sha256_text s)"
  using hex_runes [of "sha256_bytes (map byte s)"] sha256_bytes_range
  by (fastforce simp: list_all_iff sha256_text_def digest_prefix_def plain_char_def lower_hex_rune_def)

lemma length_json_quote: "list_all plain_char s \<Longrightarrow> length (json_quote s) = length s + 2"
  by (simp add: json_quote_def json_escape_plain)

lemma length_jstring: "list_all plain_char s \<Longrightarrow> length (json_print (jstring s)) = length s + 2"
  by (simp add: jstring_def json_escape_plain)

lemma sc_body_length: "length (json_print sc_body) \<le> maximumDecisionRequestBytes"
proof -
  have "length (json_print (jint_pointer (Some 7))) = 1"
    by (simp add: jint_pointer_def jint_def int_dec_def nat_dec.simps [of 7])
  moreover have "length (sha256_text []) = 71" by (simp add: sha256_text_def digest_prefix_def)
  ultimately show ?thesis
    by (simp add: sc_body_def sc_action_def canonicalActor_def canonicalTarget_def canonicalPayload_def jstrings_def
        canonicalPrincipalValue_def length_json_quote length_jstring digest_plain maximumDecisionRequestBytes_def)
      (simp add: plain_char_def length_json_quote length_jstring)
qed

lemma sc_part_decodes:
  "unmarshal_time (jstring ''2026-01-02T03:04:05Z'') old1 = Inr sc_time"
  "dec_actor True (canonicalActor (action_actor sc_action)) old2 = Inr (action_actor sc_action)"
  "dec_delegation ''delegationId'' True (JObj [(''delegationId'', jstring ''delegation-1''),
     (''delegator'', canonicalPrincipalValue (delegator (action_delegation sc_action)))]) old3 = Inr (action_delegation sc_action)"
  "dec_target True (canonicalTarget (action_target sc_action)) old4 = Inr (action_target sc_action)"
  "dec_payload True (canonicalPayload (action_payload sc_action)) zero_payload = Inr (action_payload sc_action)"
proof -
  have "list_all plain_char ''2026-01-02T03:04:05Z''" by (simp add: plain_char_def)
  then show "unmarshal_time (jstring ''2026-01-02T03:04:05Z'') old1 = Inr sc_time"
    using sc_requested_at by (simp add: unmarshal_time_def jstring_def json_escape_plain)
  show "dec_actor True (canonicalActor (action_actor sc_action)) old2 = Inr (action_actor sc_action)"
    using sc_action_utf8 by (simp add: utf8_action_def)
  show "dec_delegation ''delegationId'' True (JObj [(''delegationId'', jstring ''delegation-1''),
     (''delegator'', canonicalPrincipalValue (delegator (action_delegation sc_action)))]) old3 = Inr (action_delegation sc_action)"
    by (simp add: dec_delegation_def dec_struct_defs sc_action_def utf8_principal_def valid_utf8_ascii)
  show "dec_target True (canonicalTarget (action_target sc_action)) old4 = Inr (action_target sc_action)"
    using sc_action_utf8 by (simp add: utf8_action_def)
  show "dec_payload True (canonicalPayload (action_payload sc_action)) zero_payload = Inr (action_payload sc_action)"
    using sc_action_utf8 by (simp add: utf8_action_def)
qed

lemma sc_decodes: "DecodeEvaluateActionRequest (json_print sc_body) = Inr sc_decoded"
proof -
  have "dec_request sc_body zero_request = Inr sc_decoded"
    using sc_part_decodes
    by (simp add: sc_body_def dec_request_def dec_actionDTO_def dto_decoder_defs dec_struct_defs valid_utf8_ascii
        zero_request_def zero_actionDTO_def dec_raw_def sc_decoded_def)
  moreover have "ValidateParameters (request_ProposedAction sc_decoded) = Inr ()"
    by (simp add: ValidateParameters_def sc_decoded_def action_type_defs decodeStrict_raw_def unmarshal_raw_def
        dto_decoder_defs dec_delete_def dec_struct_defs valid_utf8_ascii dec_bool_def)
  ultimately show ?thesis
    using sc_body_length
    by (simp add: DecodeEvaluateActionRequest_def decodeStrict_def json_unmarshal_print [OF sc_body_ok])
      (simp add: sc_decoded_def APIVersionV1_def)
qed

lemma sc_maps: "toEvaluateActionCommand sc_decoded = Inr sc_command"
  by (simp add: toEvaluateActionCommand_def sc_decoded_def ParseActionType_def ActionType_Valid_def action_type_defs
      toActionParameters_def decodeStrict_raw_def unmarshal_raw_def dto_decoder_defs dec_delete_def dec_struct_defs
      valid_utf8_ascii dec_bool_def toPrincipalInput_def ParsePrincipalType_def PrincipalType_Valid_def PrincipalUser_def
      sc_action_def sc_command_def action_input_def zero_delete_def)

lemma sc_admitted: "admit (Authenticate (Some sc_tokens)) sc_http_request = Inr (sc_runtime, sc_decoded, sc_command)"
proof -
  have "strings_Fields ''Bearer token-1'' = [''Bearer'', ''token-1'']"
    by (simp add: strings_Fields_def runes_ascii space_runes_def)
  then have "bearerCredential ''Bearer token-1'' = Inr ''token-1''"
    by (simp add: bearerCredential_def EqualFold_ascii_def)
  moreover have "Authenticate (Some sc_tokens) ''token-1'' = Inr sc_runtime"
  proof -
    have "wf_identifier ''token-1''" by (simp add: wf_identifier_def trimmed_ascii)
    then show ?thesis
      by (simp add: Authenticate_def sc_tokens_def NewAuthenticatedRuntime_eq wf_identifier_TrimSpace sc_runtime_def)
  qed
  ultimately show ?thesis using sc_decodes sc_maps by (simp add: admit_def sc_http_request_def)
qed

lemma sc_sound: "sound_request (Authenticate (Some sc_tokens)) sc_http_request"
  using sc_wf_request sc_time_facts by (simp add: sound_request_def sc_admitted wf_request_def) (simp add: sc_decoded_def)

definition sc_response :: HttpResponse where
  "sc_response = decision_answer ''request-1'' (Inr sc_record)"

lemma sc_response_ok: "resp_status sc_response = 200"
proof -
  have "wf_decision (record_Decision sc_record)"
    by (simp add: sc_record_def decisionRecordFromCommit_def sc_commit_def)
  then show ?thesis using Validate_wf [of sc_record] by (simp add: sc_response_def decision_answer_def)
qed

abbreviation sc_handler :: "process handler" where
  "sc_handler \<equiv> service_handler (process_ports EmbeddedEvaluator) (Authenticate (Some sc_tokens))"

end
