(* ===== verification/ApiContract.thy ===== *)
theory ApiContract
  imports ScenarioHttp
begin

text \<open>
  The published contract of a decision: the schema \<^verbatim>\<open>DecisionResponse\<close> of \<^verbatim>\<open>api/openapi.yaml\<close> as a predicate
  on JSON documents, and that the transport writes documents of this schema.
\<close>

section \<open>The schema\<close>

definition api_text :: "json option \<Rightarrow> string option" where
  "api_text j = (case j of Some (JStr raw) \<Rightarrow> Some (json_unquote raw) | _ \<Rightarrow> None)"

definition api_member :: "json \<Rightarrow> string \<Rightarrow> json option" where
  "api_member j k = (case j of JObj ms \<Rightarrow> map_of ms k | _ \<Rightarrow> None)"

text \<open>An object with the given members, all required, and no others.\<close>

definition api_object :: "string list \<Rightarrow> json \<Rightarrow> bool" where
  "api_object names j = (case j of JObj ms \<Rightarrow> distinct (map fst ms) \<and> set (map fst ms) = set names | _ \<Rightarrow> False)"

text \<open>\<^verbatim>\<open>minLength: 1, maxLength: 256\<close> count characters.\<close>

definition api_identifier :: "string \<Rightarrow> bool" where
  "api_identifier s \<longleftrightarrow> s \<noteq> [] \<and> length (runes s) \<le> 256"

definition api_digest :: "string \<Rightarrow> bool" where
  "api_digest s \<longleftrightarrow> length s = 71 \<and> take 7 s = ''sha256:'' \<and> 
     list_all (\<lambda>c. 97 \<le> byte c \<and> byte c \<le> 102 \<or> 48 \<le> byte c \<and> byte c \<le> 57) (drop 7 s)"

definition api_reasons :: "string list" where
  "api_reasons =
     [''DELEGATOR_APPROVAL_REQUIRED'', ''EXTERNAL_DESTINATION'', ''VISIBILITY_EXPANSION'', ''DESTRUCTIVE_OPERATION'',
      ''ACTOR_NOT_AUTHORIZED'', ''POLICY_UNAVAILABLE'']"

definition api_list :: "json option \<Rightarrow> json list option" where
  "api_list j = (case j of Some (JArr xs) \<Rightarrow> Some xs | _ \<Rightarrow> None)"

text \<open>\<^verbatim>\<open>DecisionResponse\<close>, with the rule on \<^verbatim>\<open>REQUIRE_APPROVAL\<close> that its description states.\<close>

definition api_decision :: "string \<Rightarrow> string option list \<Rightarrow> string option list \<Rightarrow> bool" where
  "api_decision decision reasons actions \<longleftrightarrow>
     distinct reasons \<and> set reasons \<subseteq> Some ` set api_reasons \<and>
     (decision = ''ALLOW'' \<and> reasons = [] \<and> actions = [] \<or>
      decision = ''DENY'' \<and> reasons \<noteq> [] \<and>
        actions = (if Some ''DELEGATOR_APPROVAL_REQUIRED'' \<in> set reasons then [Some ''REQUIRE_APPROVAL''] else []))"

definition api_DecisionResponse :: "json \<Rightarrow> bool" where
  "api_DecisionResponse j \<longleftrightarrow>
     api_object [''apiVersion'', ''requestId'', ''decisionId'', ''actionDigest'', ''decision'', ''reasonCodes'',
       ''requiredActions'', ''policy'', ''evaluatedAt''] j \<and>
     api_text (api_member j ''apiVersion'') = Some ''v1'' \<and>
     pred_option api_identifier (api_text (api_member j ''requestId'')) \<and> api_text (api_member j ''requestId'') \<noteq> None \<and>
     pred_option api_identifier (api_text (api_member j ''decisionId'')) \<and> api_text (api_member j ''decisionId'') \<noteq> None \<and>
     pred_option api_digest (api_text (api_member j ''actionDigest'')) \<and> api_text (api_member j ''actionDigest'') \<noteq> None \<and>
     (case (api_text (api_member j ''decision''), api_list (api_member j ''reasonCodes''), api_list (api_member j ''requiredActions'')) of
        (Some decision, Some reasons, Some actions) \<Rightarrow>
          list_all (api_object [''type'']) actions \<and>
          api_decision decision (map (\<lambda>r. api_text (Some r)) reasons) (map (\<lambda>a. api_text (api_member a ''type'')) actions)
      | _ \<Rightarrow> False) \<and>
     (case api_member j ''policy'' of
        Some p \<Rightarrow> api_object [''version''] p \<and> pred_option api_identifier (api_text (api_member p ''version'')) \<and>
          api_text (api_member p ''version'') \<noteq> None
      | None \<Rightarrow> False) \<and>
     (case api_text (api_member j ''evaluatedAt'') of Some s \<Rightarrow> is_ok (time_Parse s) | None \<Rightarrow> False)"

section \<open>The response satisfies it\<close>

lemma length_runes: "length (runes s) \<le> length s"
proof (induction s rule: rune_chunks.induct)
  case (1 s)
  show ?case
  proof (cases "s = []")
    case False
    obtain r n where d: "DecodeRune s = (r, n)" by (rule prod.exhaust)
    have "length (runes s) = Suc (length (runes (drop n s)))"
      using False d by (subst (1) runes_def, subst rune_chunks.simps) (simp add: runes_def)
    moreover have "1 \<le> n" using DecodeRune_width [of s] False d by (metis snd_conv)
    ultimately show ?thesis using 1 [OF False] d False by (cases s) auto
  qed (simp add: runes_def rune_chunks.simps)
qed

lemma api_reasons_valid: "ReasonCode_Valid r \<longleftrightarrow> r \<in> set api_reasons"
  by (auto simp: ReasonCode_Valid_def reason_defs api_reasons_def)

lemma api_decision_wf:
  assumes "wf_decision d"
  shows "api_decision (decision_typ d) (map Some (reasonCodes d)) (map Some (map required_typ (requiredActions d)))"
  using assms
  by (auto simp: wf_decision_def api_decision_def DecisionAllow_def DecisionDeny_def ReasonDelegatorApprovalRequired_def
      api_reasons_valid list_all_iff NewRequireApprovalAction_def RequiredActionRequireApproval_def distinct_map split: if_splits)

lemma api_digest_computed: "ComputeActionDigest a = Inr d \<Longrightarrow> api_digest d"
proof -
  assume "ComputeActionDigest a = Inr d"
  then have "sql_digest_check d" by (rule sql_digest_check_valid)
  then show ?thesis
    by (auto simp: sql_digest_check_def api_digest_def prefix_def list_all_iff lower_hex_rune_def)
qed

lemma time_plain: "list_all plain_char (format_rfc3339nano t)"
proof -
  have digit: "plain_char c" if "is_digit c" for c using that by (simp add: is_digit_def plain_char_def)
  have pad: "plain_char c" if "c \<in> set (pad_nat w n)" for c w n
    using that nat_dec_digits digit by (auto simp: pad_nat_def plain_char_def)
  then have int: "plain_char c" if "c \<in> set (appendInt x w)" for c x w
    using that by (auto simp: appendInt_def plain_char_def split: if_splits)
  have "plain_char c" if "c \<in> set (format_fraction x)" for c x
    using that int by (auto simp: format_fraction_def strip_zeros_def plain_char_def dest: set_dropWhileD split: if_splits)
  moreover have "plain_char c" if "c \<in> set (format_zone x)" for c x
    using that int by (auto simp: format_zone_def plain_char_def Let_def split: if_splits)
  moreover have "plain_char c" if "c \<in> set (format_seconds v)" for c v
    using that int pad by (auto simp: format_seconds_def plain_char_def)
  ultimately show ?thesis by (auto simp: format_rfc3339nano_def Let_def list_all_iff)
qed

lemma marshalled_time:
  assumes "rfc3339_time t"
  shows "marshal_time t = Inr (jstring (format_rfc3339nano t))" "valid_utf8 (format_rfc3339nano t)"
    "is_ok (time_Parse (format_rfc3339nano t))"
proof -
  show "marshal_time t = Inr (jstring (format_rfc3339nano t))"
    using assms by (simp add: marshal_time_def rfc3339_time_def utc_time_def jstring_def json_escape_plain [OF time_plain])
  show "valid_utf8 (format_rfc3339nano t)"
    using time_plain [of t] by (intro valid_utf8_ascii) (auto simp: list_all_iff plain_char_def)
  show "is_ok (time_Parse (format_rfc3339nano t))"
    using parse_format_rfc3339nano [OF assms] by (simp add: time_Parse_def is_ok_def)
qed

definition response_conforms :: "string \<Rightarrow> DecisionRecord \<Rightarrow> ProposedAction \<Rightarrow> bool" where
  "response_conforms q rec a \<longleftrightarrow>
     wf_decision (record_Decision rec) \<and> ComputeActionDigest a = Inr (record_ActionDigest rec) \<and>
     rfc3339_time (record_EvaluatedAt rec) \<and>
     list_all (\<lambda>s. valid_utf8 s \<and> api_identifier s) [q, record_DecisionID rec, record_PolicyVersion rec]"

lemma api_text_jstring [simp]: "valid_utf8 s \<Longrightarrow> api_text (Some (jstring s)) = Some s"
  by (simp add: api_text_def jstring_def)

lemma api_member_simps [simp]:
  "api_member (JObj []) k = None" "api_member (JObj ((k', v) # ms)) k = (if k = k' then Some v else api_member (JObj ms) k)"
  by (simp_all add: api_member_def)

lemma api_texts: "list_all valid_utf8 xs \<Longrightarrow> map (\<lambda>r. api_text (Some r)) (map jstring xs) = map Some xs"
  by (induction xs) simp_all

lemma api_types:
  "list_all valid_utf8 xs \<Longrightarrow> map (\<lambda>a. api_text (api_member a ''type'')) (map (\<lambda>t. JObj [(''type'', jstring t)]) xs) = map Some xs"
  by (induction xs) simp_all

lemma api_type_objects: "list_all (api_object [''type'']) (map (\<lambda>t. JObj [(''type'', jstring t)]) xs)"
  by (induction xs) (simp_all add: api_object_def)

definition response_document :: "string \<Rightarrow> DecisionRecord \<Rightarrow> json" where
  "response_document q rec =
     JObj [(''apiVersion'', jstring APIVersionV1), (''requestId'', jstring q),
       (''decisionId'', jstring (record_DecisionID rec)), (''actionDigest'', jstring (record_ActionDigest rec)),
       (''decision'', jstring (decision_typ (record_Decision rec))), (''reasonCodes'', jstrings (reasonCodes (record_Decision rec))),
       (''requiredActions'', JArr (map (\<lambda>t. JObj [(''type'', jstring t)]) (map required_typ (requiredActions (record_Decision rec))))),
       (''policy'', JObj [(''version'', jstring (record_PolicyVersion rec))]),
       (''evaluatedAt'', jstring (format_rfc3339nano (record_EvaluatedAt rec)))]"

lemma response_texts:
  assumes "response_conforms q rec a"
  shows "valid_utf8 q" "valid_utf8 (record_DecisionID rec)" "valid_utf8 (record_PolicyVersion rec)"
    "valid_utf8 (record_ActionDigest rec)" "valid_utf8 (decision_typ (record_Decision rec))"
    "list_all valid_utf8 (reasonCodes (record_Decision rec))"
    "list_all valid_utf8 (map required_typ (requiredActions (record_Decision rec)))"
proof -
  show "valid_utf8 q" "valid_utf8 (record_DecisionID rec)" "valid_utf8 (record_PolicyVersion rec)"
    using assms by (simp_all add: response_conforms_def)
  obtain b where "sha256_text b = record_ActionDigest rec"
    using assms by (auto simp: response_conforms_def ComputeActionDigest_def res_simps)
  then show "valid_utf8 (record_ActionDigest rec)"
    using digest_plain [of b] by (intro valid_utf8_ascii) (auto simp: list_all_iff plain_char_def)
  have wf: "wf_decision (record_Decision rec)" using assms by (simp add: response_conforms_def)
  show "valid_utf8 (decision_typ (record_Decision rec))"
    using wf by (intro valid_utf8_ascii) (auto simp: wf_decision_def DecisionAllow_def DecisionDeny_def)
  show "list_all valid_utf8 (reasonCodes (record_Decision rec))"
    using wf valid_utf8_reason by (auto simp: wf_decision_def list_all_iff)
  have "valid_utf8 (required_typ NewRequireApprovalAction)"
    by (intro valid_utf8_ascii) (auto simp: NewRequireApprovalAction_def RequiredActionRequireApproval_def)
  then show "list_all valid_utf8 (map required_typ (requiredActions (record_Decision rec)))"
    using wf by (auto simp: wf_decision_def)
qed

lemma response_document_written:
  assumes "response_conforms q rec a"
  shows "decision_response_json (toDecisionResponse q rec) = Inr (response_document q rec)"
  using assms marshalled_time(1) [of "record_EvaluatedAt rec"]
  by (simp add: response_conforms_def decision_response_json_def toDecisionResponse_def response_document_def)

lemma response_document_read:
  assumes "response_conforms q rec a"
  shows "json_parse (json_print (response_document q rec) @ [CHR 0x0A]) = Inr (response_document q rec)"
proof (rule json_parse_line)
  have "valid_utf8 APIVersionV1" by (intro valid_utf8_ascii) (auto simp: APIVersionV1_def)
  moreover have "valid_utf8 (format_rfc3339nano (record_EvaluatedAt rec))"
    using assms marshalled_time(2) by (simp add: response_conforms_def)
  ultimately show "json_ok (response_document q rec)"
    using response_texts [OF assms] by (simp add: response_document_def list_all_iff)
  show "json_depth (response_document q rec) \<le> max_nesting"
    by (simp add: response_document_def max_nesting_def list_all_iff)
qed

lemma response_document_conforms:
  assumes "response_conforms q rec a"
  shows "api_DecisionResponse (response_document q rec)"
proof -
  have "valid_utf8 APIVersionV1" by (intro valid_utf8_ascii) (auto simp: APIVersionV1_def)
  moreover have "api_object [''apiVersion'', ''requestId'', ''decisionId'', ''actionDigest'', ''decision'', ''reasonCodes'',
      ''requiredActions'', ''policy'', ''evaluatedAt''] (response_document q rec)"
    by (simp add: response_document_def api_object_def)
  moreover have "api_object [''version''] (JObj [(''version'', jstring (record_PolicyVersion rec))])"
    by (simp add: api_object_def)
  moreover have "api_decision (decision_typ (record_Decision rec)) (map Some (reasonCodes (record_Decision rec)))
      (map Some (map required_typ (requiredActions (record_Decision rec))))"
    using assms api_decision_wf by (simp add: response_conforms_def)
  moreover have "api_digest (record_ActionDigest rec)" using assms api_digest_computed by (auto simp: response_conforms_def)
  moreover have "valid_utf8 (format_rfc3339nano (record_EvaluatedAt rec))" "is_ok (time_Parse (format_rfc3339nano (record_EvaluatedAt rec)))"
    using assms marshalled_time(2,3) by (simp_all add: response_conforms_def)
  moreover have "api_identifier q" "api_identifier (record_DecisionID rec)" "api_identifier (record_PolicyVersion rec)"
    using assms by (simp_all add: response_conforms_def)
  ultimately show ?thesis
    using response_texts [OF assms] api_texts [OF response_texts(6) [OF assms]] api_types [OF response_texts(7) [OF assms]]
      api_type_objects [of "map required_typ (requiredActions (record_Decision rec))"]
    by (simp add: api_DecisionResponse_def response_document_def api_list_def jstrings_def del: map_map)
      (simp add: APIVersionV1_def)
qed

end
