(* ===== verification/Immutability.thy ===== *)
theory Immutability
  imports DomainAction "HOL-Library.Sublist"
begin

text \<open>
  The domain values are immutable although Go slices and pointers are shared. Everywhere else in this
  development slices are lists; here they are references into a memory of arrays. Constructors copy
  what they are given and accessors copy what they return (\<^verbatim>\<open>append([]T(nil), values...)\<close>, \<^verbatim>\<open>clone\<close>,
  \<^verbatim>\<open>cloneInt64\<close>), so that no client can write to the arrays of a constructed value. An array has as many
  cells as its slice is long: spare capacity is not visible through any other slice.
\<close>

section \<open>Memory\<close>

datatype cell =
    Text string
  | PrincipalCell Principal
  | EvidenceCell AuthorizationEvidence
  | RequiredActionCell RequiredAction
  | Int64Cell "64 word"

type_synonym memory = "cell list list"

text \<open>A slice, or a pointer to one cell; \<open>None\<close> is nil.\<close>

type_synonym slice = "nat option"

definition block :: "memory \<Rightarrow> nat \<Rightarrow> cell list" where
  "block m a = (if a < length m then m ! a else [])"

definition elements :: "memory \<Rightarrow> slice \<Rightarrow> cell list" where
  "elements m s = (case s of None \<Rightarrow> [] | Some a \<Rightarrow> block m a)"

definition make_slice :: "cell list \<Rightarrow> memory \<Rightarrow> slice \<times> memory" where
  "make_slice cs m = (Some (length m), m @ [cs])"

text \<open>\<^verbatim>\<open>append([]T(nil), values...)\<close>: nil for no values, otherwise a new array.\<close>

definition append_nil :: "slice \<Rightarrow> memory \<Rightarrow> slice \<times> memory" where
  "append_nil s m = (if elements m s = [] then (None, m) else make_slice (elements m s) m)"

text \<open>The assignment \<^verbatim>\<open>values[i] = c\<close>.\<close>

definition store :: "nat \<Rightarrow> nat \<Rightarrow> cell \<Rightarrow> memory \<Rightarrow> memory" where
  "store a i c m = m[a := (block m a)[i := c]]"

definition texts :: "cell list \<Rightarrow> string list" where
  "texts = List.map_filter (\<lambda>c. case c of Text s \<Rightarrow> Some s | _ \<Rightarrow> None)"

definition principals :: "cell list \<Rightarrow> Principal list" where
  "principals = List.map_filter (\<lambda>c. case c of PrincipalCell p \<Rightarrow> Some p | _ \<Rightarrow> None)"

definition evidences :: "cell list \<Rightarrow> AuthorizationEvidence list" where
  "evidences = List.map_filter (\<lambda>c. case c of EvidenceCell e \<Rightarrow> Some e | _ \<Rightarrow> None)"

definition required_actions :: "cell list \<Rightarrow> RequiredAction list" where
  "required_actions = List.map_filter (\<lambda>c. case c of RequiredActionCell r \<Rightarrow> Some r | _ \<Rightarrow> None)"

definition int64_at :: "cell list \<Rightarrow> 64 word option" where
  "int64_at cs = (case cs of [Int64Cell n] \<Rightarrow> Some n | _ \<Rightarrow> None)"

section \<open>Values with references\<close>

record send_ref =
  ref_destinationScope :: DestinationScope
  ref_recipients :: slice

record access_ref =
  ref_currentScope :: AccessScope
  ref_requestedScope :: AccessScope
  ref_targetPrincipals :: slice

datatype parameters_ref = SendRef send_ref | AccessRef access_ref | DeleteRef DeleteParameters

record payload_ref =
  ref_digest :: string
  ref_classification :: slice
  ref_sizeBytes :: slice

record action_ref =
  ref_typ :: ActionType
  ref_requestedAt :: Time
  ref_actor :: Actor
  ref_delegation :: Delegation
  ref_target :: Target
  ref_parameters :: "parameters_ref option"
  ref_payload :: payload_ref
  ref_evidence :: slice

record decision_ref =
  ref_decision_typ :: DecisionType
  ref_reasonCodes :: slice
  ref_requiredActions :: slice

record requirement_ref =
  ref_priority :: SafetyReviewPriority
  ref_evidenceRefs :: slice

text \<open>What a value with references stands for in a memory.\<close>

fun parameters_view :: "memory \<Rightarrow> parameters_ref \<Rightarrow> ActionParameters" where
  "parameters_view m (SendRef p) = ExternalSend
     \<lparr>send_destinationScope = ref_destinationScope p, send_recipients = texts (elements m (ref_recipients p))\<rparr>"
| "parameters_view m (AccessRef p) = UpdateResourceAccess
     \<lparr>access_currentScope = ref_currentScope p, access_requestedScope = ref_requestedScope p,
      access_targetPrincipals = principals (elements m (ref_targetPrincipals p))\<rparr>"
| "parameters_view m (DeleteRef p) = Delete p"

definition payload_view :: "memory \<Rightarrow> payload_ref \<Rightarrow> PayloadFacts" where
  "payload_view m p =
     \<lparr>payload_digest = ref_digest p, payload_classification = texts (elements m (ref_classification p)),
      payload_sizeBytes = int64_at (elements m (ref_sizeBytes p))\<rparr>"

definition action_view :: "memory \<Rightarrow> action_ref \<Rightarrow> ProposedAction" where
  "action_view m a =
     \<lparr>action_typ = ref_typ a, action_requestedAt = ref_requestedAt a, action_actor = ref_actor a,
      action_delegation = ref_delegation a, action_target = ref_target a,
      action_parameters = map_option (parameters_view m) (ref_parameters a),
      action_payload = payload_view m (ref_payload a), action_evidence = evidences (elements m (ref_evidence a))\<rparr>"

definition decision_view :: "memory \<Rightarrow> decision_ref \<Rightarrow> Decision" where
  "decision_view m d =
     \<lparr>decision_typ = ref_decision_typ d, reasonCodes = texts (elements m (ref_reasonCodes d)),
      requiredActions = required_actions (elements m (ref_requiredActions d))\<rparr>"

definition requirement_view :: "memory \<Rightarrow> requirement_ref \<Rightarrow> SafetyReviewRequirement" where
  "requirement_view m r =
     \<lparr>review_priority = ref_priority r, review_evidenceRefs = texts (elements m (ref_evidenceRefs r))\<rparr>"

section \<open>Copies\<close>

definition cloneInt64 :: "slice \<Rightarrow> memory \<Rightarrow> slice \<times> memory" where
  "cloneInt64 value m = (case value of None \<Rightarrow> (None, m) | Some _ \<Rightarrow> make_slice (elements m value) m)"

definition send_clone :: "send_ref \<Rightarrow> memory \<Rightarrow> send_ref \<times> memory" where
  "send_clone p m = (case append_nil (ref_recipients p) m of (s, m') \<Rightarrow> (p\<lparr>ref_recipients := s\<rparr>, m'))"

definition access_clone :: "access_ref \<Rightarrow> memory \<Rightarrow> access_ref \<times> memory" where
  "access_clone p m = (case append_nil (ref_targetPrincipals p) m of (s, m') \<Rightarrow> (p\<lparr>ref_targetPrincipals := s\<rparr>, m'))"

fun parameters_clone :: "parameters_ref \<Rightarrow> memory \<Rightarrow> parameters_ref \<times> memory" where
  "parameters_clone (SendRef p) m = (case send_clone p m of (q, m') \<Rightarrow> (SendRef q, m'))"
| "parameters_clone (AccessRef p) m = (case access_clone p m of (q, m') \<Rightarrow> (AccessRef q, m'))"
| "parameters_clone (DeleteRef p) m = (DeleteRef p, m)"

definition payload_clone :: "payload_ref \<Rightarrow> memory \<Rightarrow> payload_ref \<times> memory" where
  "payload_clone p m =
     (case append_nil (ref_classification p) m of (classification, m1) \<Rightarrow>
      case cloneInt64 (ref_sizeBytes p) m1 of (sizeBytes, m2) \<Rightarrow>
        (p\<lparr>ref_classification := classification, ref_sizeBytes := sizeBytes\<rparr>, m2))"

definition cloneAuthorizationEvidence :: "slice \<Rightarrow> memory \<Rightarrow> slice \<times> memory" where
  "cloneAuthorizationEvidence values m = append_nil values m"

section \<open>Constructors\<close>

text \<open>
  The checks of a constructor read the current contents of its arguments; what it keeps is new. The
  normalising helpers build their results with \<^verbatim>\<open>make\<close>.
\<close>

definition NewExternalSendParameters_at :: "DestinationScope \<Rightarrow> slice \<Rightarrow> memory \<Rightarrow> send_ref res \<times> memory" where
  "NewExternalSendParameters_at scope recipients m =
     (case NewExternalSendParameters scope (texts (elements m recipients)) of
        Inl e \<Rightarrow> (Inl e, m)
      | Inr p \<Rightarrow>
          (case make_slice (map Text (send_recipients p)) m of (s, m') \<Rightarrow>
             (Inr \<lparr>ref_destinationScope = send_destinationScope p, ref_recipients = s\<rparr>, m')))"

definition NewUpdateResourceAccessParameters_at ::
    "AccessScope \<Rightarrow> AccessScope \<Rightarrow> slice \<Rightarrow> memory \<Rightarrow> access_ref res \<times> memory" where
  "NewUpdateResourceAccessParameters_at currentScope requestedScope targetPrincipals m =
     (case NewUpdateResourceAccessParameters currentScope requestedScope (principals (elements m targetPrincipals)) of
        Inl e \<Rightarrow> (Inl e, m)
      | Inr p \<Rightarrow>
          (case make_slice (map PrincipalCell (access_targetPrincipals p)) m of (s, m') \<Rightarrow>
             (Inr \<lparr>ref_currentScope = access_currentScope p, ref_requestedScope = access_requestedScope p,
                   ref_targetPrincipals = s\<rparr>, m')))"

definition NewPayloadFacts_at :: "string \<Rightarrow> slice \<Rightarrow> slice \<Rightarrow> memory \<Rightarrow> payload_ref res \<times> memory" where
  "NewPayloadFacts_at digest classification sizeBytes m =
     (case NewPayloadFacts digest (texts (elements m classification)) (int64_at (elements m sizeBytes)) of
        Inl e \<Rightarrow> (Inl e, m)
      | Inr p \<Rightarrow>
          (case make_slice (map Text (payload_classification p)) m of (labels, m1) \<Rightarrow>
           case cloneInt64 sizeBytes m1 of (copy, m2) \<Rightarrow>
             (Inr \<lparr>ref_digest = digest, ref_classification = labels, ref_sizeBytes = copy\<rparr>, m2)))"

definition NewProposedAction_at ::
    "ActionType \<Rightarrow> Time \<Rightarrow> Actor \<Rightarrow> Delegation \<Rightarrow> Target \<Rightarrow> parameters_ref option \<Rightarrow> payload_ref \<Rightarrow> slice \<Rightarrow>
     memory \<Rightarrow> action_ref res \<times> memory" where
  "NewProposedAction_at typ requestedAt actor delegation target parameters payload evidence m =
     (case NewProposedAction typ requestedAt actor delegation target (map_option (parameters_view m) parameters)
             (payload_view m payload) (evidences (elements m evidence)) of
        Inl e \<Rightarrow> (Inl e, m)
      | Inr a \<Rightarrow>
          (case make_slice (map EvidenceCell (action_evidence a)) m of (normalizedEvidence, m1) \<Rightarrow>
           case parameters_clone (the parameters) m1 of (params, m2) \<Rightarrow>
           case payload_clone payload m2 of (facts, m3) \<Rightarrow>
             (Inr \<lparr>ref_typ = typ, ref_requestedAt = Time_UTC requestedAt, ref_actor = actor,
                   ref_delegation = delegation, ref_target = target, ref_parameters = Some params,
                   ref_payload = facts, ref_evidence = normalizedEvidence\<rparr>, m3)))"

definition NewDenyDecision_at :: "slice \<Rightarrow> slice \<Rightarrow> memory \<Rightarrow> decision_ref res \<times> memory" where
  "NewDenyDecision_at codes actions m =
     (case NewDenyDecision (texts (elements m codes)) (required_actions (elements m actions)) of
        Inl e \<Rightarrow> (Inl e, m)
      | Inr d \<Rightarrow>
          (case make_slice (map Text (reasonCodes d)) m of (normalizedReasons, m1) \<Rightarrow>
           case make_slice (map RequiredActionCell (requiredActions d)) m1 of (normalizedActions, m2) \<Rightarrow>
             (Inr \<lparr>ref_decision_typ = DecisionDeny, ref_reasonCodes = normalizedReasons,
                   ref_requiredActions = normalizedActions\<rparr>, m2)))"

definition NewSafetyReviewRequirement_at ::
    "SafetyReviewPriority \<Rightarrow> slice \<Rightarrow> memory \<Rightarrow> requirement_ref res \<times> memory" where
  "NewSafetyReviewRequirement_at priority evidenceRefs m =
     (case NewSafetyReviewRequirement priority (texts (elements m evidenceRefs)) of
        Inl e \<Rightarrow> (Inl e, m)
      | Inr _ \<Rightarrow>
          (case append_nil evidenceRefs m of (s, m') \<Rightarrow> (Inr \<lparr>ref_priority = priority, ref_evidenceRefs = s\<rparr>, m')))"

section \<open>Accessors\<close>

definition Recipients_at :: "send_ref \<Rightarrow> memory \<Rightarrow> slice \<times> memory" where
  "Recipients_at p = append_nil (ref_recipients p)"

definition TargetPrincipals_at :: "access_ref \<Rightarrow> memory \<Rightarrow> slice \<times> memory" where
  "TargetPrincipals_at p = append_nil (ref_targetPrincipals p)"

definition Classification_at :: "payload_ref \<Rightarrow> memory \<Rightarrow> slice \<times> memory" where
  "Classification_at p = append_nil (ref_classification p)"

definition SizeBytes_at :: "payload_ref \<Rightarrow> memory \<Rightarrow> slice \<times> memory" where
  "SizeBytes_at p = cloneInt64 (ref_sizeBytes p)"

definition Parameters_at :: "action_ref \<Rightarrow> memory \<Rightarrow> parameters_ref option \<times> memory" where
  "Parameters_at a m =
     (case ref_parameters a of
        None \<Rightarrow> (None, m)
      | Some p \<Rightarrow> (case parameters_clone p m of (q, m') \<Rightarrow> (Some q, m')))"

definition Payload_at :: "action_ref \<Rightarrow> memory \<Rightarrow> payload_ref \<times> memory" where
  "Payload_at a = payload_clone (ref_payload a)"

definition AuthorizationEvidence_at :: "action_ref \<Rightarrow> memory \<Rightarrow> slice \<times> memory" where
  "AuthorizationEvidence_at a = cloneAuthorizationEvidence (ref_evidence a)"

definition ReasonCodes_at :: "decision_ref \<Rightarrow> memory \<Rightarrow> slice \<times> memory" where
  "ReasonCodes_at d = append_nil (ref_reasonCodes d)"

definition RequiredActions_at :: "decision_ref \<Rightarrow> memory \<Rightarrow> slice \<times> memory" where
  "RequiredActions_at d = append_nil (ref_requiredActions d)"

definition EvidenceRefs_at :: "requirement_ref \<Rightarrow> memory \<Rightarrow> slice \<times> memory" where
  "EvidenceRefs_at r = append_nil (ref_evidenceRefs r)"

section \<open>Clients\<close>

datatype object =
    ParametersObject parameters_ref
  | PayloadObject payload_ref
  | ActionObject action_ref
  | DecisionObject decision_ref
  | RequirementObject requirement_ref

datatype object_value =
    ParametersValue ActionParameters
  | PayloadValue PayloadFacts
  | ActionValue ProposedAction
  | DecisionValue Decision
  | RequirementValue SafetyReviewRequirement

fun view :: "memory \<Rightarrow> object \<Rightarrow> object_value" where
  "view m (ParametersObject p) = ParametersValue (parameters_view m p)"
| "view m (PayloadObject p) = PayloadValue (payload_view m p)"
| "view m (ActionObject a) = ActionValue (action_view m a)"
| "view m (DecisionObject d) = DecisionValue (decision_view m d)"
| "view m (RequirementObject r) = RequirementValue (requirement_view m r)"

text \<open>The arrays a value refers to.\<close>

fun parameters_footprint :: "parameters_ref \<Rightarrow> nat set" where
  "parameters_footprint (SendRef p) = set_option (ref_recipients p)"
| "parameters_footprint (AccessRef p) = set_option (ref_targetPrincipals p)"
| "parameters_footprint (DeleteRef p) = {}"

definition payload_footprint :: "payload_ref \<Rightarrow> nat set" where
  "payload_footprint p = set_option (ref_classification p) \<union> set_option (ref_sizeBytes p)"

fun footprint :: "object \<Rightarrow> nat set" where
  "footprint (ParametersObject p) = parameters_footprint p"
| "footprint (PayloadObject p) = payload_footprint p"
| "footprint (ActionObject a) =
     (case ref_parameters a of None \<Rightarrow> {} | Some p \<Rightarrow> parameters_footprint p) \<union>
     payload_footprint (ref_payload a) \<union> set_option (ref_evidence a)"
| "footprint (DecisionObject d) = set_option (ref_reasonCodes d) \<union> set_option (ref_requiredActions d)"
| "footprint (RequirementObject r) = set_option (ref_evidenceRefs r)"

text \<open>The calls of a client that make a value, from slices and from other values.\<close>

datatype call =
    CallSend DestinationScope slice
  | CallAccess AccessScope AccessScope slice
  | CallDelete DeleteMode bool
  | CallPayload string slice slice
  | CallAction ActionType Time Actor Delegation Target "parameters_ref option" payload_ref slice
  | CallDeny slice slice
  | CallRequirement SafetyReviewPriority slice

abbreviation wrap :: "('a \<Rightarrow> object) \<Rightarrow> 'a res \<times> memory \<Rightarrow> object res \<times> memory" where
  "wrap f \<equiv> map_prod (map_sum id f) id"

fun construct :: "call \<Rightarrow> memory \<Rightarrow> object res \<times> memory" where
  "construct (CallSend scope rs) m = wrap (ParametersObject \<circ> SendRef) (NewExternalSendParameters_at scope rs m)"
| "construct (CallAccess cur req ps) m =
     wrap (ParametersObject \<circ> AccessRef) (NewUpdateResourceAccessParameters_at cur req ps m)"
| "construct (CallDelete mode recoverable) m =
     wrap (ParametersObject \<circ> DeleteRef) (NewDeleteParameters mode recoverable, m)"
| "construct (CallPayload digest labels sizeBytes) m = wrap PayloadObject (NewPayloadFacts_at digest labels sizeBytes m)"
| "construct (CallAction typ t actor delegation target ps payload evidence) m =
     wrap ActionObject (NewProposedAction_at typ t actor delegation target ps payload evidence m)"
| "construct (CallDeny codes actions) m = wrap DecisionObject (NewDenyDecision_at codes actions m)"
| "construct (CallRequirement priority refs) m = wrap RequirementObject (NewSafetyReviewRequirement_at priority refs m)"

text \<open>The same call on values.\<close>

fun construct_value :: "memory \<Rightarrow> call \<Rightarrow> object_value res" where
  "construct_value m (CallSend scope rs) =
     map_sum id (ParametersValue \<circ> ExternalSend) (NewExternalSendParameters scope (texts (elements m rs)))"
| "construct_value m (CallAccess cur req ps) =
     map_sum id (ParametersValue \<circ> UpdateResourceAccess)
       (NewUpdateResourceAccessParameters cur req (principals (elements m ps)))"
| "construct_value m (CallDelete mode recoverable) =
     map_sum id (ParametersValue \<circ> Delete) (NewDeleteParameters mode recoverable)"
| "construct_value m (CallPayload digest labels sizeBytes) =
     map_sum id PayloadValue (NewPayloadFacts digest (texts (elements m labels)) (int64_at (elements m sizeBytes)))"
| "construct_value m (CallAction typ t actor delegation target ps payload evidence) =
     map_sum id ActionValue (NewProposedAction typ t actor delegation target (map_option (parameters_view m) ps)
       (payload_view m payload) (evidences (elements m evidence)))"
| "construct_value m (CallDeny codes actions) =
     map_sum id DecisionValue (NewDenyDecision (texts (elements m codes)) (required_actions (elements m actions)))"
| "construct_value m (CallRequirement priority refs) =
     map_sum id RequirementValue (NewSafetyReviewRequirement priority (texts (elements m refs)))"

text \<open>The calls that read a value: slices, and copies of its parts.\<close>

datatype accessor =
    GetRecipients send_ref
  | GetTargetPrincipals access_ref
  | GetClassification payload_ref
  | GetSizeBytes payload_ref
  | GetEvidence action_ref
  | GetReasonCodes decision_ref
  | GetRequiredActions decision_ref
  | GetEvidenceRefs requirement_ref

fun access :: "accessor \<Rightarrow> memory \<Rightarrow> slice \<times> memory" where
  "access (GetRecipients p) m = Recipients_at p m"
| "access (GetTargetPrincipals p) m = TargetPrincipals_at p m"
| "access (GetClassification p) m = Classification_at p m"
| "access (GetSizeBytes p) m = SizeBytes_at p m"
| "access (GetEvidence a) m = AuthorizationEvidence_at a m"
| "access (GetReasonCodes d) m = ReasonCodes_at d m"
| "access (GetRequiredActions d) m = RequiredActions_at d m"
| "access (GetEvidenceRefs r) m = EvidenceRefs_at r m"

text \<open>
  A client holds the arrays it can write to, those it made and those accessors gave it, and the
  values it has constructed or read.
\<close>

record client =
  client_memory :: memory
  client_arrays :: "nat set"
  client_objects :: "object set"

inductive client_step :: "client \<Rightarrow> client \<Rightarrow> bool" where
  Make: "client_step s (s\<lparr>client_memory := client_memory s @ [cs],
      client_arrays := insert (length (client_memory s)) (client_arrays s)\<rparr>)"
| Store: "a \<in> client_arrays s \<Longrightarrow> client_step s (s\<lparr>client_memory := store a i c (client_memory s)\<rparr>)"
| Construct: "construct call (client_memory s) = (Inr x, m) \<Longrightarrow>
    client_step s (s\<lparr>client_memory := m, client_objects := insert x (client_objects s)\<rparr>)"
| Access: "access acc (client_memory s) = (sl, m) \<Longrightarrow>
    client_step s (s\<lparr>client_memory := m, client_arrays := client_arrays s \<union> set_option sl\<rparr>)"
| Parameters: "Parameters_at a (client_memory s) = (Some p, m) \<Longrightarrow>
    client_step s (s\<lparr>client_memory := m, client_objects := insert (ParametersObject p) (client_objects s)\<rparr>)"
| Payload: "Payload_at a (client_memory s) = (p, m) \<Longrightarrow>
    client_step s (s\<lparr>client_memory := m, client_objects := insert (PayloadObject p) (client_objects s)\<rparr>)"

definition no_client :: client where
  "no_client = \<lparr>client_memory = [], client_arrays = {}, client_objects = {}\<rparr>"

section \<open>Reading and writing\<close>

lemma block_simps:
  "a < length m \<Longrightarrow> block (m @ m') a = block m a" "block (m @ [cs]) (length m) = cs"
  "a \<noteq> b \<Longrightarrow> block (store a i c m) b = block m b"
  by (simp_all add: block_def store_def nth_append)

lemma length_store [simp]: "length (store a i c m) = length m"
  by (simp add: store_def)

lemma cells [simp]:
  "texts (map Text xs) = xs" "principals (map PrincipalCell ps) = ps" "evidences (map EvidenceCell es) = es"
  "required_actions (map RequiredActionCell rs) = rs"
  by (simp_all add: texts_def principals_def evidences_def required_actions_def map_filter_map_filter
      List.map_filter_def comp_def)

text \<open>Something that only reads the arrays of its footprint is not changed by other writes.\<close>

locale memory_object =
  fixes view_of :: "memory \<Rightarrow> 'o \<Rightarrow> 'v" and footprint_of :: "'o \<Rightarrow> nat set"
  assumes view_local: "(\<And>a. a \<in> footprint_of x \<Longrightarrow> block m a = block m' a) \<Longrightarrow> view_of m x = view_of m' x"
begin

lemma view_grow: "prefix m m' \<Longrightarrow> footprint_of x \<subseteq> {..<length m} \<Longrightarrow> view_of m' x = view_of m x"
  by (rule view_local) (auto simp: prefix_def block_simps)

lemma view_store: "a \<notin> footprint_of x \<Longrightarrow> view_of (store a i c m) x = view_of m x"
  by (rule view_local) (metis block_simps(3))

end

interpretation slice: memory_object elements set_option
  by unfold_locales (auto simp: elements_def split: option.split)

interpretation params: memory_object parameters_view parameters_footprint
proof
  fix x m m'
  assume "\<And>a. a \<in> parameters_footprint x \<Longrightarrow> block m a = block m' a"
  then show "parameters_view m x = parameters_view m' x"
    by (cases x) (auto simp: elements_def split: option.splits)
qed

interpretation payload: memory_object payload_view payload_footprint
  by unfold_locales (auto simp: payload_view_def payload_footprint_def elements_def split: option.split)

interpretation object: memory_object view footprint
proof
  fix x m m'
  assume same: "\<And>a. a \<in> footprint x \<Longrightarrow> block m a = block m' a"
  show "view m x = view m' x"
  proof (cases x)
    case (ActionObject a)
    then show ?thesis
      using same params.view_local [of _ m m'] payload.view_local [of "ref_payload a" m m']
        slice.view_local [of "ref_evidence a" m m']
      by (cases "ref_parameters a") (auto simp: action_view_def)
  next
    case (ParametersObject p)
    then show ?thesis using same params.view_local [of p m m'] by simp
  next
    case (PayloadObject p)
    then show ?thesis using same payload.view_local [of p m m'] by simp
  next
    case (DecisionObject d)
    then show ?thesis
      using same slice.view_local [of "ref_reasonCodes d" m m'] slice.view_local [of "ref_requiredActions d" m m']
      by (simp add: decision_view_def)
  next
    case (RequirementObject r)
    then show ?thesis using same slice.view_local [of "ref_evidenceRefs r" m m'] by (simp add: requirement_view_def)
  qed
qed

section \<open>Copies are new\<close>

definition fresh :: "memory \<Rightarrow> memory \<Rightarrow> nat set \<Rightarrow> bool" where
  "fresh m m' A \<longleftrightarrow> prefix m m' \<and> A \<subseteq> {length m..<length m'}"

lemma fresh_refl [simp]: "fresh m m {}"
  by (simp add: fresh_def)

lemma fresh_trans: "fresh m m1 A \<Longrightarrow> fresh m1 m2 B \<Longrightarrow> fresh m m2 (A \<union> B)"
  using prefix_length_le [of m m1] prefix_length_le [of m1 m2] prefix_order.trans [of m m1 m2] by (auto simp: fresh_def)

lemma fresh_below: "fresh m m' A \<Longrightarrow> A \<subseteq> {..<length m'}"
  by (auto simp: fresh_def)

lemma make_slice_spec: "make_slice cs m = (s, m') \<Longrightarrow> fresh m m' (set_option s) \<and> elements m' s = cs"
  by (auto simp: make_slice_def fresh_def elements_def block_simps)

lemma append_nil_spec: "append_nil s m = (s', m') \<Longrightarrow> fresh m m' (set_option s') \<and> elements m' s' = elements m s"
  using make_slice_spec [of "elements m s" m s' m']
  by (cases "elements m s = []") (auto simp: append_nil_def elements_def)

lemma cloneInt64_spec: "cloneInt64 s m = (s', m') \<Longrightarrow> fresh m m' (set_option s') \<and> elements m' s' = elements m s"
  using make_slice_spec [of "elements m s" m s' m']
  by (cases s) (auto simp: cloneInt64_def elements_def)

lemma parameters_clone_spec:
  assumes "parameters_clone p m = (q, m')"
  shows "fresh m m' (parameters_footprint q) \<and> parameters_view m' q = parameters_view m p"
  using assms
  by (cases p) (auto simp: send_clone_def access_clone_def dest!: append_nil_spec split: prod.splits)

lemma payload_clone_spec:
  assumes "payload_clone p m = (q, m')"
  shows "fresh m m' (payload_footprint q)" "payload_footprint p \<subseteq> {..<length m} \<Longrightarrow> payload_view m' q = payload_view m p"
proof -
  obtain c m1 n where c: "append_nil (ref_classification p) m = (c, m1)" and n: "cloneInt64 (ref_sizeBytes p) m1 = (n, m')"
    and q: "q = p\<lparr>ref_classification := c, ref_sizeBytes := n\<rparr>"
    using assms by (auto simp: payload_clone_def split: prod.splits)
  note copies = append_nil_spec [OF c] cloneInt64_spec [OF n]
  show "fresh m m' (payload_footprint q)"
    using fresh_trans [of m m1 _ m'] copies by (auto simp: q payload_footprint_def)
  assume "payload_footprint p \<subseteq> {..<length m}"
  then show "payload_view m' q = payload_view m p"
    using copies slice.view_grow [of m1 m' c] slice.view_grow [of m m1 "ref_sizeBytes p"] fresh_below [of m m1 "set_option c"]
    by (auto simp: q payload_view_def payload_footprint_def fresh_def)
qed

text \<open>The arguments of a call refer to existing arrays.\<close>

fun call_in :: "memory \<Rightarrow> call \<Rightarrow> bool" where
  "call_in m (CallPayload digest labels sizeBytes) \<longleftrightarrow> set_option sizeBytes \<subseteq> {..<length m}"
| "call_in m (CallAction typ t actor delegation target ps payload evidence) \<longleftrightarrow>
     (\<forall>p. ps = Some p \<longrightarrow> parameters_footprint p \<subseteq> {..<length m}) \<and> payload_footprint payload \<subseteq> {..<length m}"
| "call_in m _ \<longleftrightarrow> True"

definition built :: "memory \<Rightarrow> call \<Rightarrow> object res \<times> memory \<Rightarrow> bool" where
  "built m call result \<longleftrightarrow>
     prefix m (snd result) \<and> (\<forall>x. fst result = Inr x \<longrightarrow> fresh m (snd result) (footprint x)) \<and>
     (call_in m call \<longrightarrow> map_sum id (view (snd result)) (fst result) = construct_value m call)"

lemma built_failed: "construct_value m call = Inl e \<Longrightarrow> built m call (Inl e, m)"
  by (simp add: built_def)

lemma built_new:
  "fresh m m' (footprint x) \<Longrightarrow> (call_in m call \<Longrightarrow> construct_value m call = Inr (view m' x)) \<Longrightarrow> built m call (Inr x, m')"
  by (auto simp: built_def fresh_def)

lemma built_send: "built m (CallSend scope rs) (construct (CallSend scope rs) m)"
proof (cases "NewExternalSendParameters scope (texts (elements m rs))")
  case (Inr p)
  obtain s m' where new: "make_slice (map Text (send_recipients p)) m = (s, m')" by (rule prod.exhaust)
  then have "construct (CallSend scope rs) m =
      (Inr (ParametersObject (SendRef \<lparr>ref_destinationScope = send_destinationScope p, ref_recipients = s\<rparr>)), m')"
    by (simp add: NewExternalSendParameters_at_def Inr)
  then show ?thesis using make_slice_spec [OF new] by (simp add: built_new Inr)
qed (simp add: NewExternalSendParameters_at_def built_failed)

lemma built_access: "built m (CallAccess cur req ps) (construct (CallAccess cur req ps) m)"
proof (cases "NewUpdateResourceAccessParameters cur req (principals (elements m ps))")
  case (Inr p)
  obtain s m' where new: "make_slice (map PrincipalCell (access_targetPrincipals p)) m = (s, m')" by (rule prod.exhaust)
  then have "construct (CallAccess cur req ps) m =
      (Inr (ParametersObject (AccessRef \<lparr>ref_currentScope = access_currentScope p,
         ref_requestedScope = access_requestedScope p, ref_targetPrincipals = s\<rparr>)), m')"
    by (simp add: NewUpdateResourceAccessParameters_at_def Inr)
  then show ?thesis using make_slice_spec [OF new] by (simp add: built_new Inr)
qed (simp add: NewUpdateResourceAccessParameters_at_def built_failed)

lemma built_delete: "built m (CallDelete mode recoverable) (construct (CallDelete mode recoverable) m)"
  by (cases "NewDeleteParameters mode recoverable") (simp_all add: built_new built_failed)

lemma built_payload: "built m (CallPayload digest labels n) (construct (CallPayload digest labels n) m)"
proof (cases "NewPayloadFacts digest (texts (elements m labels)) (int64_at (elements m n))")
  case (Inr p)
  obtain s m1 where new: "make_slice (map Text (payload_classification p)) m = (s, m1)" by (rule prod.exhaust)
  obtain n' m2 where copy: "cloneInt64 n m1 = (n', m2)" by (rule prod.exhaust)
  note specs = make_slice_spec [OF new] cloneInt64_spec [OF copy]
  have p: "payload_digest p = digest" "payload_sizeBytes p = int64_at (elements m n)"
    using Inr by (auto simp: NewPayloadFacts_def split: if_splits sum.splits)
  have result: "construct (CallPayload digest labels n) m =
      (Inr (PayloadObject \<lparr>ref_digest = digest, ref_classification = s, ref_sizeBytes = n'\<rparr>), m2)"
    using new copy by (simp add: NewPayloadFacts_at_def Inr)
  have "elements m2 s = map Text (payload_classification p)"
    using specs slice.view_grow [of m1 m2 s] fresh_below [of m m1 "set_option s"] by (simp add: fresh_def)
  moreover have "set_option n \<subseteq> {..<length m} \<Longrightarrow> elements m2 n' = elements m n"
    using specs slice.view_grow [of m m1 n] by (simp add: fresh_def)
  ultimately show ?thesis
    unfolding result using specs p fresh_trans [of m m1 "set_option s" m2 "set_option n'"]
    by (intro built_new) (simp_all add: Inr payload_footprint_def payload_view_def)
qed (simp add: NewPayloadFacts_at_def built_failed)

lemma built_deny: "built m (CallDeny codes actions) (construct (CallDeny codes actions) m)"
proof (cases "NewDenyDecision (texts (elements m codes)) (required_actions (elements m actions))")
  case (Inr d)
  obtain s m1 where reasons: "make_slice (map Text (reasonCodes d)) m = (s, m1)" by (rule prod.exhaust)
  obtain t m2 where new: "make_slice (map RequiredActionCell (requiredActions d)) m1 = (t, m2)" by (rule prod.exhaust)
  note specs = make_slice_spec [OF reasons] make_slice_spec [OF new]
  have d: "decision_typ d = DecisionDeny"
    using Inr by (auto simp: NewDenyDecision_def res_simps Let_def split: if_splits)
  have result: "construct (CallDeny codes actions) m = (Inr (DecisionObject
      \<lparr>ref_decision_typ = DecisionDeny, ref_reasonCodes = s, ref_requiredActions = t\<rparr>), m2)"
    using reasons new by (simp add: NewDenyDecision_at_def Inr)
  have "elements m2 s = map Text (reasonCodes d)"
    using specs slice.view_grow [of m1 m2 s] fresh_below [of m m1 "set_option s"] by (simp add: fresh_def)
  then show ?thesis
    unfolding result using specs d fresh_trans [of m m1 "set_option s" m2 "set_option t"]
    by (intro built_new) (simp_all add: Inr decision_view_def)
qed (simp add: NewDenyDecision_at_def built_failed)

lemma built_requirement: "built m (CallRequirement priority refs) (construct (CallRequirement priority refs) m)"
proof (cases "NewSafetyReviewRequirement priority (texts (elements m refs))")
  case (Inr r)
  obtain s m' where copy: "append_nil refs m = (s, m')" by (rule prod.exhaust)
  have "r = \<lparr>review_priority = priority, review_evidenceRefs = texts (elements m refs)\<rparr>"
    using Inr by (auto simp: NewSafetyReviewRequirement_def res_simps split: if_splits)
  then show ?thesis
    using append_nil_spec [OF copy] copy
    by (simp add: NewSafetyReviewRequirement_at_def Inr requirement_view_def built_new)
qed (simp add: NewSafetyReviewRequirement_at_def built_failed)

lemma NewProposedAction_keeps:
  assumes "NewProposedAction typ t actor delegation target ps payload evidence = Inr a"
  shows "ps \<noteq> None" "a = \<lparr>action_typ = typ, action_requestedAt = Time_UTC t, action_actor = actor,
    action_delegation = delegation, action_target = target, action_parameters = ps, action_payload = payload,
    action_evidence = action_evidence a\<rparr>"
  using assms by (auto simp: NewProposedAction_def res_simps split: if_splits option.splits)

lemma built_action:
  assumes call: "call = CallAction typ t actor delegation target ps payload evidence"
  shows "built m call (construct call m)"
proof (cases "NewProposedAction typ t actor delegation target (map_option (parameters_view m) ps)
    (payload_view m payload) (evidences (elements m evidence))")
  case (Inr a)
  note kept = NewProposedAction_keeps [OF Inr]
  obtain p where p: "ps = Some p" using kept(1) by auto
  obtain e m1 where e: "make_slice (map EvidenceCell (action_evidence a)) m = (e, m1)" by (rule prod.exhaust)
  obtain q m2 where q: "parameters_clone p m1 = (q, m2)" by (rule prod.exhaust)
  obtain f m3 where f: "payload_clone payload m2 = (f, m3)" by (rule prod.exhaust)
  note es = make_slice_spec [OF e] and qs = parameters_clone_spec [OF q] and fs = payload_clone_spec [OF f]
  have grow: "prefix m m1" "prefix m1 m2" "prefix m2 m3" using es qs fs(1) by (simp_all add: fresh_def)
  then have le: "length m \<le> length m1" "length m1 \<le> length m2" "length m2 \<le> length m3" by (simp_all add: prefix_length_le)
  let ?x = "\<lparr>ref_typ = typ, ref_requestedAt = Time_UTC t, ref_actor = actor, ref_delegation = delegation,
    ref_target = target, ref_parameters = Some q, ref_payload = f, ref_evidence = e\<rparr>"
  have result: "construct call m = (Inr (ActionObject ?x), m3)"
    using Inr by (simp add: call NewProposedAction_at_def p e q f)
  show ?thesis
    unfolding result
  proof (rule built_new)
    have "fresh m m3 (set_option e \<union> parameters_footprint q \<union> payload_footprint f)"
      using es qs fs(1) fresh_trans by blast
    then show "fresh m m3 (footprint (ActionObject ?x))" by (simp add: Un_ac)
  next
    assume "call_in m call"
    then have args: "parameters_footprint p \<subseteq> {..<length m}" "payload_footprint payload \<subseteq> {..<length m}"
      by (simp_all add: call p)
    have "elements m3 e = map EvidenceCell (action_evidence a)"
      using es slice.view_grow [of m1 m3 e] fresh_below [of m m1 "set_option e"] grow by auto
    moreover have "parameters_view m3 q = parameters_view m p"
      using qs params.view_grow [of m m1 p] params.view_grow [of m2 m3 q] fresh_below [of m1 m2] args grow by simp
    moreover have "payload_view m3 f = payload_view m payload"
    proof -
      have "payload_footprint payload \<subseteq> {..<length m2}" using args(2) le by fastforce
      then show ?thesis using fs(2) payload.view_grow [OF prefix_order.trans [OF grow(1,2)] args(2)] by simp
    qed
    ultimately show "construct_value m call = Inr (view m3 (ActionObject ?x))"
      using kept(2) Inr by (simp add: call p action_view_def)
  qed
qed (simp add: NewProposedAction_at_def built_failed call)

lemma construct_built: "built m call (construct call m)"
  using built_action [OF refl]
  by (cases call) (simp_all only: built_send built_access built_delete built_payload built_deny built_requirement)

lemma access_fresh: "access acc m = (s, m') \<Longrightarrow> fresh m m' (set_option s)"
  by (cases acc)
    (simp_all add: Recipients_at_def TargetPrincipals_at_def Classification_at_def SizeBytes_at_def
      AuthorizationEvidence_at_def cloneAuthorizationEvidence_def ReasonCodes_at_def RequiredActions_at_def
      EvidenceRefs_at_def append_nil_spec cloneInt64_spec)

lemma Parameters_at_spec:
  "Parameters_at a m = (Some q, m') \<Longrightarrow>
     fresh m m' (parameters_footprint q) \<and> ref_parameters a \<noteq> None \<and> parameters_view m' q = parameters_view m (the (ref_parameters a))"
  by (auto simp: Parameters_at_def dest!: parameters_clone_spec split: option.splits prod.splits)

section \<open>No client can change a value\<close>

text \<open>The arrays of the values exist and none of them is within the reach of the client.\<close>

definition secluded :: "client \<Rightarrow> bool" where
  "secluded s \<longleftrightarrow> client_arrays s \<subseteq> {..<length (client_memory s)} \<and>
     (\<forall>x \<in> client_objects s. footprint x \<subseteq> {..<length (client_memory s)} - client_arrays s)"

text \<open>What a step may do: the client keeps its values, and they keep their contents.\<close>

definition stable :: "client \<Rightarrow> client \<Rightarrow> bool" where
  "stable s s' \<longleftrightarrow> client_objects s \<subseteq> client_objects s' \<and>
     (\<forall>x \<in> client_objects s. view (client_memory s') x = view (client_memory s) x)"

lemma outside_new:
  "F \<subseteq> B \<Longrightarrow> B \<subseteq> N \<Longrightarrow> A \<inter> B = {} \<Longrightarrow> C \<subseteq> D \<Longrightarrow> B \<inter> D = {} \<Longrightarrow> F \<subseteq> N - (C \<union> A)"
  "F \<subseteq> D - C \<Longrightarrow> D \<subseteq> N \<Longrightarrow> A \<inter> D = {} \<Longrightarrow> F \<subseteq> N - (C \<union> A)"
  by blast+

lemma secluded_grow:
  assumes "secluded s" "fresh (client_memory s) m (A \<union> B)" "A \<inter> B = {}" "\<forall>x \<in> X. footprint x \<subseteq> B"
  shows "secluded (s\<lparr>client_memory := m, client_arrays := client_arrays s \<union> A, client_objects := client_objects s \<union> X\<rparr>)"
    and "stable s (s\<lparr>client_memory := m, client_arrays := client_arrays s \<union> A, client_objects := client_objects s \<union> X\<rparr>)"
proof -
  let ?old = "{..<length (client_memory s)}"
  have m: "prefix (client_memory s) m" "length (client_memory s) \<le> length m"
    using assms(2) prefix_length_le [of "client_memory s" m] by (simp_all add: fresh_def)
  have old: "client_arrays s \<subseteq> ?old" "x \<in> client_objects s \<Longrightarrow> footprint x \<subseteq> ?old - client_arrays s" for x
    using assms(1) by (auto simp: secluded_def)
  have new: "A \<subseteq> {..<length m}" "B \<subseteq> {..<length m}" "A \<inter> ?old = {}" "B \<inter> ?old = {}"
    using assms(2) by (auto simp: fresh_def)
  have grown: "?old \<subseteq> {..<length m}" using m(2) by simp
  have objects: "footprint x \<subseteq> {..<length m} - (client_arrays s \<union> A)" if "x \<in> client_objects s \<union> X" for x
  proof (cases "x \<in> X")
    case True
    then have "footprint x \<subseteq> B" by (rule bspec [OF assms(4)])
    then show ?thesis by (rule outside_new(1) [OF _ new(2) assms(3) old(1) new(4)])
  next
    case False
    with that have "footprint x \<subseteq> ?old - client_arrays s" using old(2) by simp
    then show ?thesis by (rule outside_new(2) [OF _ grown new(3)])
  qed
  have "client_arrays s \<union> A \<subseteq> {..<length m}" by (rule Un_least [OF order_trans [OF old(1) grown] new(1)])
  then show "secluded (s\<lparr>client_memory := m, client_arrays := client_arrays s \<union> A, client_objects := client_objects s \<union> X\<rparr>)"
    using objects by (simp add: secluded_def)
  show "stable s (s\<lparr>client_memory := m, client_arrays := client_arrays s \<union> A, client_objects := client_objects s \<union> X\<rparr>)"
  proof -
    have "view m x = view (client_memory s) x" if "x \<in> client_objects s" for x
      by (rule object.view_grow [OF m(1) order_trans [OF old(2) [OF that] Diff_subset]])
    then show ?thesis by (simp add: stable_def)
  qed
qed

lemma client_step_secluded:
  assumes "client_step s s'" "secluded s"
  shows "secluded s' \<and> stable s s'"
  using assms
proof (induction rule: client_step.induct)
  case (Make s cs)
  have "fresh (client_memory s) (client_memory s @ [cs]) ({length (client_memory s)} \<union> {})" by (simp add: fresh_def)
  from secluded_grow [OF Make this, of "{}"] show ?case by simp
next
  case (Store a s i c)
  have "a \<notin> footprint x" if "x \<in> client_objects s" for x using Store that by (auto simp: secluded_def)
  then show ?case using Store(2) object.view_store by (simp add: secluded_def stable_def)
next
  case (Construct call s x m)
  have "fresh (client_memory s) m ({} \<union> footprint x)"
    using construct_built [of "client_memory s" call] Construct(1) by (simp add: built_def)
  from secluded_grow [OF Construct(2) this, of "{x}"] show ?case by simp
next
  case (Access acc s sl m)
  have "fresh (client_memory s) m (set_option sl \<union> {})" using access_fresh [OF Access(1)] by simp
  from secluded_grow [OF Access(2) this, of "{}"] show ?case by simp
next
  case (Parameters a s p m)
  have "fresh (client_memory s) m ({} \<union> footprint (ParametersObject p))" using Parameters_at_spec [OF Parameters(1)] by simp
  from secluded_grow [OF Parameters(2) this, of "{ParametersObject p}"] show ?case by simp
next
  case (Payload a s p m)
  have "fresh (client_memory s) m ({} \<union> footprint (PayloadObject p))"
    using payload_clone_spec(1) Payload(1) by (simp add: Payload_at_def)
  from secluded_grow [OF Payload(2) this, of "{PayloadObject p}"] show ?case by simp
qed

lemma client_run_secluded: "client_step\<^sup>*\<^sup>* s s' \<Longrightarrow> secluded s \<Longrightarrow> secluded s' \<and> stable s s'"
proof (induction rule: rtranclp_induct)
  case base
  then show ?case by (simp add: stable_def)
next
  case (step t u)
  then have "secluded t" "stable s t" by blast+
  moreover have "secluded u" "stable t u" using client_step_secluded [OF step(2)] \<open>secluded t\<close> by blast+
  ultimately show ?case by (auto simp: stable_def)
qed

lemma no_client_secluded: "secluded no_client"
  by (simp add: secluded_def no_client_def)

end
