(* ===== verification/DomainProperties.thy ===== *)
theory DomainProperties
  imports ScenarioHttp Immutability
begin

text \<open>
  The properties of the parts that keep no state: normalisation of actions and their digest, decision
  composition, the two policy evaluators, credentials, and the text formats.
\<close>

section \<open>Normalised actions\<close>

text \<open>
  C14. Whatever a caller sends, an action that comes out of normalisation is in normal form, acts for
  the authenticated runtime, keeps the requested type and carries the requested time in UTC.
\<close>

theorem normalized_action_well_formed:
  assumes "Normalize caller input = Inr a"
  shows "wf_action a \<and> runtimeID (action_actor a) = TrimSpace (authenticated_runtimeID caller) \<and>
    action_typ a = input_Type input \<and> action_requestedAt a = Time_UTC (input_RequestedAt input)"
  using normalizeAction_wf [of caller input a] assms by simp

theorem normalized_action_well_formed_witness:
  "Normalize sc_runtime (action_input sc_action) = Inr sc_action \<and> wf_action sc_action"
  using normalized_action_well_formed [OF sc_normalize] sc_normalize by (simp del: Normalize_Inr)

text \<open>
  C22. Normalisation is idempotent: a normalised action, submitted again by the same runtime,
  normalises to itself.
\<close>

theorem normalization_idempotent:
  assumes "Normalize caller input = Inr a" "wf_runtime caller"
  shows "Normalize caller (action_input a) = Inr a"
  using normalizeAction_wf(1,2) [of caller input a] normalizeAction_idem [of a caller] assms
  by (simp add: wf_runtime_def wf_identifier_TrimSpace)

theorem normalization_idempotent_witness:
  "Normalize sc_runtime (action_input sc_action) = Inr sc_action"
  using normalization_idempotent [OF sc_normalize] sc_wf_request by (simp del: Normalize_Inr add: wf_request_def)

text \<open>
  C21. The order in which recipients, target principals, classifications and evidence are listed is
  irrelevant: reordered inputs normalise to the same action, with the same digest.
\<close>

theorem normalization_ignores_order:
  assumes "Normalize caller i = Inr a" "reordered i j"
  shows "Normalize caller j = Inr a \<and>
    res_bind (Normalize caller j) ComputeActionDigest = res_bind (Normalize caller i) ComputeActionDigest"
proof -
  have "Normalize caller j = Inr a" using normalizeAction_reordered [OF _ assms(2)] assms(1) by simp
  then show ?thesis using assms(1) by (simp del: Normalize_Inr)
qed

definition sc_send :: "string list \<Rightarrow> ProposedAction" where
  "sc_send recipients =
     sc_action\<lparr>action_typ := ''EXTERNAL_SEND'',
       action_parameters := Some (ExternalSend \<lparr>send_destinationScope = ''EXTERNAL'', send_recipients = recipients\<rparr>)\<rparr>"

lemma sc_send_wf: "wf_action (sc_send [''a'', ''b''])"
proof -
  have "wf_strings 100 320 [''a'', ''b'']" by (auto simp: wf_strings_def trimmed_ascii)
  then show ?thesis using sc_action_wf
    by (simp add: sc_send_def wf_action_def ActionType_Valid_def action_type_defs wf_destination_scope_def DestinationExternal_def)
qed

theorem normalization_ignores_order_witness:
  "Normalize sc_runtime (action_input (sc_send [''b'', ''a''])) = Inr (sc_send [''a'', ''b''])"
proof -
  have sorted: "Normalize sc_runtime (action_input (sc_send [''a'', ''b''])) = Inr (sc_send [''a'', ''b''])"
    unfolding Normalize_Inr
    by (rule normalizeAction_idem [OF sc_send_wf]) (simp add: sc_send_def sc_action_def sc_runtime_def)
  have "reordered (action_input (sc_send [''a'', ''b''])) (action_input (sc_send [''b'', ''a'']))"
    by (simp add: reordered_def action_input_def sc_send_def add_mset_commute)
  from normalization_ignores_order [OF sorted this] show ?thesis by (rule conjunct1)
qed

section \<open>Digests\<close>

text \<open>
  Every well-formed action has a digest: \<^verbatim>\<open>sha256:\<close> and 64 hexadecimal digits, 71 bytes in all, which
  the validation of digests accepts.
\<close>

lemma digest_total_and_valid:
  assumes "wf_action a"
  shows "\<exists>d. ComputeActionDigest a = Inr d \<and> ActionDigest_Valid d \<and> length d = 71 \<and> ParseActionDigest d = Inr d"
proof -
  obtain d where d: "ComputeActionDigest a = Inr d" using ComputeActionDigest_wf [OF assms] by blast
  then have "length d = 71" by (auto simp: ComputeActionDigest_def res_simps sha256_text_def digest_prefix_def)
  then show ?thesis using d ComputeActionDigest_valid [OF d] by (simp add: ParseActionDigest_Inr_iff)
qed

text \<open>
  C23. The canonical bytes identify an action: two different well-formed actions, with UTF-8 texts and
  requested times in the years 0 to 9999, are hashed from different bytes, so equal digests would be a
  collision of SHA-256.
\<close>

theorem canonical_bytes_injective:
  assumes "wf_action a" "utf8_action a" "rfc3339_time (action_requestedAt a)"
    and "wf_action b" "utf8_action b" "rfc3339_time (action_requestedAt b)" "a \<noteq> b"
  shows "\<exists>x y. CanonicalActionBytes a = Inr x \<and> CanonicalActionBytes b = Inr y \<and> x \<noteq> y \<and>
    ComputeActionDigest a = Inr (sha256_text x) \<and> ComputeActionDigest b = Inr (sha256_text y)"
proof -
  obtain x y where xy: "CanonicalActionBytes a = Inr x" "CanonicalActionBytes b = Inr y"
    using CanonicalActionBytes_wf [OF assms(1)] CanonicalActionBytes_wf [OF assms(4)] by blast
  then have "decodeAction x = Inr a" "decodeAction y = Inr b"
    using decodeAction_canonical assms(1-6) by blast+
  then have "x \<noteq> y" using assms(7) by auto
  then show ?thesis using xy by (simp add: ComputeActionDigest_def)
qed

theorem canonical_bytes_injective_witness:
  "\<exists>x y. CanonicalActionBytes sc_action = Inr x \<and> CanonicalActionBytes (sc_send [''a'', ''b'']) = Inr y \<and> x \<noteq> y \<and>
    ComputeActionDigest sc_action = Inr (sha256_text x) \<and>
    ComputeActionDigest (sc_send [''a'', ''b'']) = Inr (sha256_text y)"
proof (rule canonical_bytes_injective [OF sc_action_wf sc_action_utf8 _ sc_send_wf])
  show "rfc3339_time (action_requestedAt sc_action)" "rfc3339_time (action_requestedAt (sc_send [''a'', ''b'']))"
    using sc_time_facts(1) by (simp_all add: sc_send_def) (simp_all add: sc_action_def)
  show "utf8_action (sc_send [''a'', ''b''])"
    using sc_action_utf8 by (simp add: utf8_action_def sc_send_def valid_utf8_ascii)
  show "sc_action \<noteq> sc_send [''a'', ''b'']" by (simp add: sc_action_def sc_send_def)
qed

section \<open>Decisions\<close>

text \<open>
  C20. Composing a policy evaluation returns the reference decision when every reason code is known,
  and \<^verbatim>\<open>ErrInvalidReasonCode\<close> otherwise. Every decision it returns satisfies the invariant of decisions:
  an allowed action carries no reason and no instruction, a denied one has distinct known reasons, and
  the approval instruction is there exactly when approval is among them.
\<close>

theorem decision_composition:
  "Compose ev =
     (if list_all ReasonCode_Valid (DenyReasonCodes ev) then Inr (compose_spec (DenyReasonCodes ev))
      else Inl [Domain ErrInvalidReasonCode]) \<and>
   (\<forall>d. Compose ev = Inr d \<longrightarrow> wf_decision d)"
  using Compose_eq wf_Compose by blast

theorem decision_composition_witness:
  "wf_decision NewAllowDecision"
  using decision_composition [of "\<lparr>DenyReasonCodes = [], Effects = [], MatchedRuleIDs = [], PolicyVersion = ''v''\<rparr>"]
  by (simp add: Compose_def)

section \<open>The embedded policy\<close>

text \<open>
  C15. The decision of the embedded policy for every well-formed action: evidence that does not cover
  the action denies it for good, a high-impact action needs the delegator's approval, everything else
  is allowed. The one exception is a \<^verbatim>\<open>SECRET\<close> payload with evidence sharing an identifier.
\<close>

theorem embedded_policy_decision:
  assumes "wf_action a" "secret_payload a \<Longrightarrow> distinct (map evidence_id (action_evidence a))"
  shows "\<exists>ev. embedded_Evaluate a = Inr ev \<and>
    Compose ev = Inr
      (if evidence_mismatch a then
         \<lparr>decision_typ = DecisionDeny, reasonCodes = [ReasonActorNotAuthorized], requiredActions = []\<rparr>
       else case high_impact a of
         None \<Rightarrow> NewAllowDecision
       | Some r \<Rightarrow> \<lparr>decision_typ = DecisionDeny, reasonCodes = [ReasonDelegatorApprovalRequired, r],
                     requiredActions = [NewRequireApprovalAction]\<rparr>) \<and>
    (length (Effects ev) = 1 \<longleftrightarrow> secret_payload a)"
proof -
  obtain ev where ev: "embedded_Evaluate a = Inr ev" "DenyReasonCodes ev = embedded_reasons a"
      "Effects ev = (if secret_payload a
        then [Some (CreateSafetyReviewEffect \<lparr>requirement = \<lparr>review_priority = SafetyReviewHigh,
          review_evidenceRefs = map evidence_id (action_evidence a)\<rparr>\<rparr>)] else [])"
    using embedded_Evaluate_ok [OF assms] by blast
  have impact: "r = ReasonExternalDestination \<or> r = ReasonVisibilityExpansion \<or> r = ReasonDestructiveOperation"
    if "high_impact a = Some r" for r
    using that by (auto simp: high_impact_def split: option.splits ActionParameters.splits if_splits)
  show ?thesis
    using ev(1,3) impact embedded_compose [OF ev(2)]
    by (auto simp: embedded_reasons_def compose_spec_def blocking_reason_def reason_defs split: option.splits)
qed

theorem embedded_policy_decision_witness:
  "\<exists>ev. embedded_Evaluate (sc_send [''a'', ''b'']) = Inr ev \<and> Compose ev = Inr
     \<lparr>decision_typ = DecisionDeny, reasonCodes = [ReasonDelegatorApprovalRequired, ReasonExternalDestination],
      requiredActions = [NewRequireApprovalAction]\<rparr>"
proof -
  have "\<not> secret_payload (sc_send [''a'', ''b''])" "\<not> evidence_mismatch (sc_send [''a'', ''b''])"
    "high_impact (sc_send [''a'', ''b'']) = Some ReasonExternalDestination"
    by (simp_all add: secret_payload_def evidence_mismatch_def high_impact_def sc_send_def DestinationExternal_def)
      (simp_all add: sc_action_def)
  then show ?thesis using embedded_policy_decision [OF sc_send_wf] by auto
qed

text \<open>
  C38. The embedded policy fails, instead of deciding, for a \<^verbatim>\<open>SECRET\<close> payload when two pieces of evidence
  of different types share an identifier, although such an action is well-formed.
\<close>

theorem embedded_policy_fails_on_shared_evidence:
  assumes "secret_payload a" "\<not> distinct (map evidence_id (action_evidence a))"
  shows "\<exists>e. embedded_Evaluate a = Inl e"
  by (rule embedded_Evaluate_error [OF assms])

definition sc_evidence :: "string \<Rightarrow> AuthorizationEvidence" where
  "sc_evidence typ =
     \<lparr>evidence_typ = typ, evidence_id = ''user-1'',
      evidence_issuedBy = \<lparr>principal_typ = ''USER'', principal_id = ''user-1''\<rparr>,
      evidence_scope = \<lparr>scope_actionType = ''DELETE'', scope_destinationScope = [], scope_requestedScope = [],
        scope_deleteMode = ''SOFT''\<rparr>\<rparr>"

definition sc_secret :: ProposedAction where
  "sc_secret = sc_action
     \<lparr>action_payload := (action_payload sc_action)\<lparr>payload_classification := [''SECRET'']\<rparr>,
      action_evidence := [sc_evidence ''DELEGATION_GRANT'', sc_evidence ''USER_INSTRUCTION'']\<rparr>"

lemma sc_secret_wf: "wf_action sc_secret"
proof -
  have "wf_evidence (sc_evidence t)" if "wf_evidence_type t" for t
    using that by (simp add: wf_evidence_def sc_evidence_def wf_principal_def PrincipalType_Valid_def PrincipalUser_def
        action_type_defs wf_delete_mode_def DeleteSoft_def)
  then have "list_all wf_evidence (action_evidence sc_secret)"
    by (simp add: sc_secret_def wf_evidence_type_def EvidenceDelegationGrant_def EvidenceUserInstruction_def)
  moreover have "unique_by_key evidence_key (action_evidence sc_secret) = action_evidence sc_secret"
    by (simp add: sc_secret_def sc_evidence_def evidence_key_def) code_simp
  moreover have "inj_on evidence_key (set (action_evidence sc_secret))"
    by (simp add: sc_secret_def sc_evidence_def evidence_key_def)
  ultimately have "wf_evidence_list (action_evidence sc_secret)"
    by (simp add: wf_evidence_list_def sc_secret_def)
  moreover have "wf_payload (action_payload sc_secret)"
    using sc_action_wf by (simp add: sc_secret_def wf_action_def wf_payload_def wf_strings_def trimmed_ascii)
  ultimately show ?thesis using sc_action_wf by (simp add: wf_action_def sc_secret_def)
qed

theorem embedded_policy_fails_on_shared_evidence_witness:
  "wf_action sc_secret \<and> (\<exists>e. embedded_Evaluate sc_secret = Inl e)"
proof
  show "wf_action sc_secret" by (rule sc_secret_wf)
  show "\<exists>e. embedded_Evaluate sc_secret = Inl e"
    by (rule embedded_policy_fails_on_shared_evidence)
      (simp_all add: sc_secret_def secret_payload_def sc_evidence_def)
qed

section \<open>Immutable values\<close>

text \<open>
  C11. The domain values are immutable: whatever a client constructs, reads and overwrites, in the
  arrays it passed to constructors or in those accessors returned, the contents of every value it has
  ever constructed stay what they were.
\<close>

theorem values_are_immutable:
  assumes "client_step\<^sup>*\<^sup>* no_client s" "client_step\<^sup>*\<^sup>* s s'" "x \<in> client_objects s"
  shows "view (client_memory s') x = view (client_memory s) x"
proof -
  have "secluded s" using client_run_secluded [OF assms(1) no_client_secluded] by blast
  then have "stable s s'" using client_run_secluded [OF assms(2)] by blast
  then show ?thesis using assms(3) by (simp add: stable_def)
qed

definition sc_object :: object where
  "sc_object = RequirementObject \<lparr>ref_priority = ''LOW'', ref_evidenceRefs = Some 1\<rparr>"

definition sc_client :: "memory \<Rightarrow> nat set \<Rightarrow> client" where
  "sc_client m A = \<lparr>client_memory = m, client_arrays = A, client_objects = {sc_object}\<rparr>"

lemma sc_construct:
  "construct (CallRequirement ''LOW'' (Some 0)) [[Text ''ref-1'']] = (Inr sc_object, [[Text ''ref-1''], [Text ''ref-1'']])"
proof -
  have "TrimSpace ''ref-1'' = ''ref-1''" by (simp add: TrimSpace_ascii)
  then show ?thesis
    by (simp add: NewSafetyReviewRequirement_at_def NewSafetyReviewRequirement_def elements_def block_def texts_def
        List.map_filter_def append_nil_def make_slice_def SafetyReviewPriority_Valid_def SafetyReviewLow_def
        res_simps sc_object_def)
qed

text \<open>A client makes a slice, constructs a requirement from it, overwrites the slice, and overwrites what \<^verbatim>\<open>EvidenceRefs\<close> returns.\<close>

lemma sc_client_runs:
  "client_step\<^sup>*\<^sup>* no_client (sc_client [[Text ''ref-1''], [Text ''ref-1'']] {0})"
  "client_step\<^sup>*\<^sup>* (sc_client [[Text ''ref-1''], [Text ''ref-1'']] {0}) (sc_client [[Text ''ref-2''], [Text ''ref-1''], [Text ''ref-3'']] {0, 2})"
proof -
  have "client_step no_client \<lparr>client_memory = [[Text ''ref-1'']], client_arrays = {0}, client_objects = {}\<rparr>"
    using client_step.Make [of no_client "[Text ''ref-1'']"] by (simp add: no_client_def)
  moreover have "client_step \<lparr>client_memory = [[Text ''ref-1'']], client_arrays = {0}, client_objects = {}\<rparr>
      (sc_client [[Text ''ref-1''], [Text ''ref-1'']] {0})"
    using client_step.Construct [of "CallRequirement ''LOW'' (Some 0)"
        "\<lparr>client_memory = [[Text ''ref-1'']], client_arrays = {0}, client_objects = {}\<rparr>"] sc_construct
    by (simp add: sc_client_def)
  ultimately show "client_step\<^sup>*\<^sup>* no_client (sc_client [[Text ''ref-1''], [Text ''ref-1'']] {0})"
    by (meson converse_rtranclp_into_rtranclp rtranclp.rtrancl_refl)
  have "client_step (sc_client [[Text ''ref-1''], [Text ''ref-1'']] {0}) (sc_client [[Text ''ref-2''], [Text ''ref-1'']] {0})"
    using client_step.Store [of 0 "sc_client [[Text ''ref-1''], [Text ''ref-1'']] {0}" 0 "Text ''ref-2''"]
    by (simp add: sc_client_def store_def block_def)
  moreover have "client_step (sc_client [[Text ''ref-2''], [Text ''ref-1'']] {0})
      (sc_client [[Text ''ref-2''], [Text ''ref-1''], [Text ''ref-1'']] {0, 2})"
    using client_step.Access [of "GetEvidenceRefs \<lparr>ref_priority = ''LOW'', ref_evidenceRefs = Some 1\<rparr>"
        "sc_client [[Text ''ref-2''], [Text ''ref-1'']] {0}" "Some 2" "[[Text ''ref-2''], [Text ''ref-1''], [Text ''ref-1'']]"]
    by (simp add: sc_client_def EvidenceRefs_at_def append_nil_def elements_def block_def make_slice_def insert_commute)
  moreover have "client_step (sc_client [[Text ''ref-2''], [Text ''ref-1''], [Text ''ref-1'']] {0, 2})
      (sc_client [[Text ''ref-2''], [Text ''ref-1''], [Text ''ref-3'']] {0, 2})"
    using client_step.Store [of 2 "sc_client [[Text ''ref-2''], [Text ''ref-1''], [Text ''ref-1'']] {0, 2}" 0 "Text ''ref-3''"]
    by (simp add: sc_client_def store_def block_def)
  ultimately show "client_step\<^sup>*\<^sup>* (sc_client [[Text ''ref-1''], [Text ''ref-1'']] {0})
      (sc_client [[Text ''ref-2''], [Text ''ref-1''], [Text ''ref-3'']] {0, 2})"
    by (meson converse_rtranclp_into_rtranclp rtranclp.rtrancl_refl)
qed

theorem values_are_immutable_witness:
  "client_step\<^sup>*\<^sup>* no_client (sc_client [[Text ''ref-2''], [Text ''ref-1''], [Text ''ref-3'']] {0, 2}) \<and>
   view [[Text ''ref-2''], [Text ''ref-1''], [Text ''ref-3'']] sc_object =
     RequirementValue \<lparr>review_priority = ''LOW'', review_evidenceRefs = [''ref-1'']\<rparr>"
proof
  show "client_step\<^sup>*\<^sup>* no_client (sc_client [[Text ''ref-2''], [Text ''ref-1''], [Text ''ref-3'']] {0, 2})"
    using sc_client_runs by (rule rtranclp_trans)
  show "view [[Text ''ref-2''], [Text ''ref-1''], [Text ''ref-3'']] sc_object =
      RequirementValue \<lparr>review_priority = ''LOW'', review_evidenceRefs = [''ref-1'']\<rparr>"
    using values_are_immutable [OF sc_client_runs, of sc_object]
    by (simp add: sc_client_def) (simp add: sc_object_def requirement_view_def elements_def block_def texts_def List.map_filter_def)
qed

text \<open>
  C19. Construction with slices and pointers implements construction on values: it fails with the same
  error or makes a value with the same contents, it changes no existing array, and all arrays of the
  new value are new.
\<close>

theorem construction_refines_values:
  assumes "construct call m = (r, m')" "call_in m call"
  shows "map_sum id (view m') r = construct_value m call \<and> prefix m m' \<and>
    (\<forall>x. r = Inr x \<longrightarrow> footprint x \<subseteq> {length m..<length m'})"
  using construct_built [of m call] assms by (simp add: built_def fresh_def)

theorem construction_refines_values_witness:
  "construct_value [[Text ''ref-1'']] (CallRequirement ''LOW'' (Some 0)) =
     Inr (RequirementValue \<lparr>review_priority = ''LOW'', review_evidenceRefs = [''ref-1'']\<rparr>) \<and> footprint sc_object \<subseteq> {1..<2}"
  using construction_refines_values [OF sc_construct]
  by (auto simp: sc_object_def requirement_view_def elements_def block_def texts_def List.map_filter_def)

end
