(* ===== verification/LedgerHistory.thy ===== *)
theory LedgerHistory
  imports LedgerSpec
begin

text \<open>
  What a caller sees of the ledger, without its tables: a map from requests to evaluations, written
  only by the calls. The specification mentions neither rows nor the decoding of rows; that the
  ledger answers every sequence of calls on a fresh database the way the map does is therefore a
  statement about the whole path, from the encoding through the inserts and the join to the decoding.
\<close>

section \<open>The specification\<close>

definition commit_key :: "EvaluationCommit \<Rightarrow> string \<times> string" where
  "commit_key c = (commit_RuntimeID c, commit_RequestID c)"

definition evaluation_of :: "EvaluationCommit \<Rightarrow> StoredEvaluation" where
  "evaluation_of c =
     \<lparr>stored_RuntimeID = commit_RuntimeID c, stored_RequestID = commit_RequestID c, stored_Action = commit_Action c,
      stored_Decision =
        \<lparr>record_DecisionID = commit_DecisionID c, record_Decision = commit_Decision c,
         record_ActionDigest = commit_ActionDigest c, record_PolicyVersion = commit_PolicyVersion c,
         record_MatchedRuleIDs = commit_MatchedRuleIDs c, record_EvaluatedAt = Time_UTC (commit_EvaluatedAt c)\<rparr>\<rparr>"

type_synonym evaluation_map = "string \<times> string \<rightharpoonup> StoredEvaluation"

definition get_spec :: "string \<Rightarrow> string \<Rightarrow> evaluation_map \<Rightarrow> StoredEvaluation res" where
  "get_spec r q M =
     (if TrimSpace r = [] \<or> TrimSpace q = [] then Inl [Application ErrInvalidInput]
      else case M (TrimSpace r, TrimSpace q) of None \<Rightarrow> Inl [Application ErrEvaluationNotFound] | Some ev \<Rightarrow> Inr ev)"

fun call_spec :: "ledger_call \<Rightarrow> evaluation_map \<Rightarrow> DecisionRecord res \<times> evaluation_map" where
  "call_spec (GetCall r q) M =
     (case get_spec r q M of Inl e \<Rightarrow> Inl e | Inr ev \<Rightarrow> Inr (stored_Decision ev), M)"
| "call_spec (CommitCall c) M =
     (case M (commit_key c) of
        None \<Rightarrow> (Inr (stored_Decision (evaluation_of c)), M(commit_key c \<mapsto> evaluation_of c))
      | Some ev \<Rightarrow>
          (if record_ActionDigest (stored_Decision ev) = commit_ActionDigest c then Inr (stored_Decision ev)
           else Inl [Application ErrRequestIDConflict], M))"

fun calls_spec :: "ledger_call list \<Rightarrow> evaluation_map \<Rightarrow> (ledger_call \<times> DecisionRecord res) list \<times> evaluation_map" where
  "calls_spec [] M = ([], M)"
| "calls_spec (call # calls) M =
     (case call_spec call M of (res, M1) \<Rightarrow>
      case calls_spec calls M1 of (rest, M2) \<Rightarrow> ((call, res) # rest, M2))"

text \<open>
  What the calls have to bring: commits the ledger can encode, store and read back, and identifiers
  and idempotency keys that two different requests do not share.
\<close>

definition sound_commit :: "EvaluationCommit \<Rightarrow> bool" where
  "sound_commit c \<longleftrightarrow> wf_commit c \<and> is_ok (encodeEvaluation c) \<and> nul_free c \<and> list_all utf8_effect (commit_Effects c)"

definition effect_ids :: "EvaluationCommit \<Rightarrow> string list" where
  "effect_ids c = map (\<lambda>item. TrimSpace (EffectID item)) (commit_Effects c)"

definition idempotency_key :: "EvaluationCommit \<Rightarrow> string" where
  "idempotency_key c =
     policyEffectIdempotencyKey (commit_RuntimeID c) (commit_RequestID c) PolicyEffectCreateSafetyReview"

definition unrelated :: "EvaluationCommit \<Rightarrow> EvaluationCommit \<Rightarrow> bool" where
  "unrelated c c' \<longleftrightarrow> commit_key c = commit_key c' \<or>
     commit_DecisionID c \<noteq> commit_DecisionID c' \<and> set (effect_ids c) \<inter> set (effect_ids c') = {} \<and>
     idempotency_key c \<noteq> idempotency_key c'"

fun call_commits :: "ledger_call list \<Rightarrow> EvaluationCommit list" where
  "call_commits [] = []"
| "call_commits (GetCall r q # calls) = call_commits calls"
| "call_commits (CommitCall c # calls) = c # call_commits calls"

definition sound_calls :: "ledger_call list \<Rightarrow> bool" where
  "sound_calls calls \<longleftrightarrow> list_all sound_commit (call_commits calls) \<and>
     list_all (\<lambda>c. list_all (unrelated c) (call_commits calls)) (call_commits calls)"

section \<open>The tables a list of commits leaves\<close>

definition encoding :: "EvaluationCommit \<Rightarrow> encodedEvaluation" where
  "encoding c = projr (encodeEvaluation c)"

lemma sound_encoding: "sound_commit c \<Longrightarrow> encodeEvaluation c = Inr (encoding c)"
  by (auto simp: sound_commit_def encoding_def is_ok_iff)

fun tables_of :: "EvaluationCommit list \<Rightarrow> tables" where
  "tables_of [] = no_rows"
| "tables_of (c # cs) = add_rows (tables_of cs) (commit_rows c (encoding c))"

text \<open>The state after some calls: the map is the stored commits by key, the tables hold their rows.\<close>

definition holds :: "EvaluationCommit list \<Rightarrow> evaluation_map \<Rightarrow> sqlite_world \<Rightarrow> bool" where
  "holds cs M w \<longleftrightarrow> at_rest w \<and> db_committed w = tables_of cs \<and> list_all sound_commit cs \<and>
     distinct (map commit_key cs) \<and> (\<forall>c \<in> set cs. \<forall>c' \<in> set cs. unrelated c c') \<and>
     M = map_of (map (\<lambda>c. (commit_key c, evaluation_of c)) cs)"

lemma encoded_effects:
  assumes "encodeEffectsLoop rid qid ids types items = Inr es"
  shows "map enc_effectID es = map (\<lambda>i. TrimSpace (EffectID i)) items"
    and "list_all (\<lambda>f. enc_idempotencyKey f = policyEffectIdempotencyKey rid qid PolicyEffectCreateSafetyReview) es"
    and "length es \<le> 1"
proof -
  have "map enc_effectID es = map (\<lambda>i. TrimSpace (EffectID i)) items \<and>
    list_all (\<lambda>f. enc_idempotencyKey f = policyEffectIdempotencyKey rid qid PolicyEffectCreateSafetyReview) es \<and>
    (if PolicyEffectCreateSafetyReview \<in> set types then es = [] else length es \<le> 1)"
    using assms
    by (induction items arbitrary: ids types es)
      (fastforce simp: Let_def res_simps split: option.splits if_splits)+
  then show "map enc_effectID es = map (\<lambda>i. TrimSpace (EffectID i)) items"
    and "list_all (\<lambda>f. enc_idempotencyKey f = policyEffectIdempotencyKey rid qid PolicyEffectCreateSafetyReview) es"
    and "length es \<le> 1" by (auto split: if_splits)
qed

lemma sound_effects:
  assumes "sound_commit c"
  shows "map enc_effectID (enc_effects (encoding c)) = effect_ids c"
    and "list_all (\<lambda>f. enc_idempotencyKey f = idempotency_key c) (enc_effects (encoding c))"
    and "length (enc_effects (encoding c)) \<le> 1"
  using encoded_effects [of "commit_RuntimeID c" "commit_RequestID c" "[]" "[]" "commit_Effects c" "enc_effects (encoding c)"]
    sound_encoding [OF assms]
  by (auto simp: encodeEvaluation_Inr_iff encodeEffects_def effect_ids_def idempotency_key_def)

lemma tables_of_columns:
  "map action_key (t_actions (tables_of cs)) = map commit_key cs"
  "map decision_key (t_decisions (tables_of cs)) = map commit_key cs"
  "map dr_decision_id (t_decisions (tables_of cs)) = map commit_DecisionID cs"
  "t_effects (tables_of cs) = concat (map (\<lambda>c. map (effect_row c) (rev (enc_effects (encoding c)))) cs)"
  by (induction cs) (simp_all add: no_rows_def add_rows_def commit_rows_def action_key_def decision_key_def commit_key_def
      commit_action_row_def commit_decision_row_def)

lemma effect_row_columns:
  "er_effect_id (effect_row c f) = enc_effectID f" "er_idempotency_key (effect_row c f) = enc_idempotencyKey f"
  "er_decision_id (effect_row c f) = commit_DecisionID c"
  by (simp_all add: effect_row_def Let_def)

lemma complete_tables_of: "complete (tables_of cs)"
proof -
  have keys: "action_key ` set (t_actions (tables_of cs)) = decision_key ` set (t_decisions (tables_of cs))"
    using arg_cong [OF tables_of_columns(1), of set cs] arg_cong [OF tables_of_columns(2), of set cs] by simp
  have "dr_decision_id ` set (t_decisions (tables_of cs)) = commit_DecisionID ` set cs"
    using arg_cong [OF tables_of_columns(3), of set cs] by simp
  then show ?thesis using keys by (auto simp: complete_def tables_of_columns(4) effect_row_columns)
qed

lemma stored_effects:
  assumes "list_all sound_commit cs"
  shows "er_effect_id ` set (t_effects (tables_of cs)) \<subseteq> (\<Union>c \<in> set cs. set (effect_ids c))"
    and "er_idempotency_key ` set (t_effects (tables_of cs)) \<subseteq> idempotency_key ` set cs"
proof -
  have "enc_effectID f \<in> set (effect_ids c)" "enc_idempotencyKey f = idempotency_key c"
    if "c \<in> set cs" "f \<in> set (enc_effects (encoding c))" for c f
    using sound_effects(2) [of c] arg_cong [OF sound_effects(1) [of c], of set] assms that by (auto simp: list_all_iff)
  then show "er_effect_id ` set (t_effects (tables_of cs)) \<subseteq> (\<Union>c \<in> set cs. set (effect_ids c))"
    and "er_idempotency_key ` set (t_effects (tables_of cs)) \<subseteq> idempotency_key ` set cs"
    by (fastforce simp: tables_of_columns(4) effect_row_columns)+
qed

lemma distinct_effects:
  assumes "list_all sound_commit cs" "distinct (map commit_key cs)" "\<forall>c \<in> set cs. \<forall>c' \<in> set cs. unrelated c c'"
  shows "distinct (map er_effect_id (t_effects (tables_of cs)))"
    and "distinct (map er_idempotency_key (t_effects (tables_of cs)))"
proof -
  have "distinct (map er_effect_id (t_effects (tables_of cs))) \<and> distinct (map er_idempotency_key (t_effects (tables_of cs)))"
    using assms
  proof (induction cs)
    case (Cons c cs)
    note sound = sound_effects [of c]
    have other: "set (effect_ids c) \<inter> set (effect_ids c') = {}" "idempotency_key c \<noteq> idempotency_key c'" if "c' \<in> set cs" for c'
    proof -
      have "commit_key c \<noteq> commit_key c'" using Cons.prems(2) that by (metis distinct.simps(2) image_eqI list.simps(9) set_map)
      moreover have "unrelated c c'" using Cons.prems(3) that by simp
      ultimately show "set (effect_ids c) \<inter> set (effect_ids c') = {}" "idempotency_key c \<noteq> idempotency_key c'"
        by (simp_all add: unrelated_def)
    qed
    have few: "enc_effects (encoding c) = [] \<or> (\<exists>f. enc_effects (encoding c) = [f] \<and> enc_effectID f \<in> set (effect_ids c) \<and>
        enc_idempotencyKey f = idempotency_key c)"
      using sound(2,3) arg_cong [OF sound(1), of set] Cons.prems(1) by (cases "enc_effects (encoding c)") auto
    have all: "list_all sound_commit cs" using Cons.prems(1) by simp
    have "x \<notin> er_effect_id ` set (t_effects (tables_of cs))" if "x \<in> set (effect_ids c)" for x
      using subsetD [OF stored_effects(1) [OF all], of x] other(1) that by blast
    moreover have "idempotency_key c \<notin> er_idempotency_key ` set (t_effects (tables_of cs))"
      using subsetD [OF stored_effects(2) [OF all], of "idempotency_key c"] other(2) by blast
    moreover have "distinct (map er_effect_id (t_effects (tables_of cs)))" "distinct (map er_idempotency_key (t_effects (tables_of cs)))"
      using Cons by simp_all
    ultimately show ?case using few by (elim disjE exE) (simp_all add: add_rows_def commit_rows_def effect_row_columns)
  qed (simp add: no_rows_def)
  then show "distinct (map er_effect_id (t_effects (tables_of cs)))"
    and "distinct (map er_idempotency_key (t_effects (tables_of cs)))" by blast+
qed

lemma store_ok_tables_of:
  assumes "list_all sound_commit cs" "distinct (map commit_key cs)" "\<forall>c \<in> set cs. \<forall>c' \<in> set cs. unrelated c c'"
  shows "store_ok (tables_of cs)"
proof -
  have "distinct (map commit_DecisionID cs)"
    using assms(2,3) by (induction cs) (auto simp: unrelated_def)
  then show ?thesis
    using distinct_effects [OF assms] assms(2) by (simp add: store_ok_def unique_keys_def tables_of_columns(1-3))
qed

section \<open>The ledger answers like the map\<close>

lemma select_tables_of:
  "select_evaluation (tables_of cs) r q =
     map_option (\<lambda>c. committed_row c (encoding c)) (find (\<lambda>c. commit_key c = (r, q)) cs)"
proof (induction cs)
  case (Cons c cs)
  show ?case
  proof (cases "commit_key c = (r, q)")
    case True
    then show ?thesis
      by (simp add: select_evaluation_def commit_rows_keys commit_key_def join_commit_rows)
  next
    case False
    then show ?thesis using select_other_key [of r q c] Cons by (auto simp: commit_key_def)
  qed
qed (simp add: select_evaluation_def no_rows_def)

lemma map_of_commits:
  "map_of (map (\<lambda>c. (commit_key c, evaluation_of c)) cs) k = map_option evaluation_of (find (\<lambda>c. commit_key c = k) cs)"
  by (induction cs) auto

lemma reconstruct_sound:
  assumes "sound_commit c"
  shows "reconstruct (commit_RuntimeID c) (commit_RequestID c) (committed_row c (encoding c)) = Inr (evaluation_of c)"
  using reconstruct_committed_row [OF _ sound_encoding [OF assms]] assms
  by (simp add: sound_commit_def evaluation_of_def decisionRecordFromCommit_def)

lemma holds_get:
  assumes "holds cs M w"
  shows "GetEvaluationByRequestID (Some table_ops) r q w = (get_spec r q M, w)"
proof (cases "TrimSpace r = [] \<or> TrimSpace q = []")
  case True
  then show ?thesis by (auto simp: GetEvaluationByRequestID_def get_spec_def Let_def)
next
  case False
  note h = assms [unfolded holds_def]
  have "M (TrimSpace r, TrimSpace q) = map_option evaluation_of (find (\<lambda>c. commit_key c = (TrimSpace r, TrimSpace q)) cs)"
    using h by (simp add: map_of_commits)
  moreover have "reconstruct (TrimSpace r) (TrimSpace q) (committed_row c (encoding c)) = Inr (evaluation_of c)"
    if "find (\<lambda>c. commit_key c = (TrimSpace r, TrimSpace q)) cs = Some c" for c
    using reconstruct_sound [of c] that h by (auto simp: find_Some_iff list_all_length commit_key_def)
  ultimately show ?thesis
    using rest_get [of w r q] h False
    by (cases "find (\<lambda>c. commit_key c = (TrimSpace r, TrimSpace q)) cs")
      (simp_all add: at_rest_def get_spec_def select_tables_of)
qed

lemma holds_admissible:
  assumes "holds (c # cs) M' w'" "holds cs M w"
  shows "admissible w c (encoding c)"
proof -
  note h' = assms(1) [unfolded holds_def] and h = assms(2) [unfolded holds_def]
  have c: "sound_commit c" using h' by simp
  note st = wf_commit_storable [of c] and enc = sound_encoding [OF c]
  have "store_ok (tables_of (c # cs))" using h' by (intro store_ok_tables_of) auto
  moreover have "effect_checks (effect_row c f)" if "f \<in> set (enc_effects (encoding c))" for f
    using effect_row_checks [of "commit_Effects c"] enc c that
    by (auto simp: encodeEvaluation_Inr_iff encodeEffects_def sound_commit_def nul_free_def list_all_iff)
  ultimately show ?thesis
    using action_row_checks [OF st enc] decision_row_checks [OF st enc] c complete_tables_of h
    by (simp add: admissible_def sound_commit_def list_all_iff)
qed

lemma holds_commit:
  assumes "holds cs M w" "sound_commit c" "\<forall>c' \<in> set cs. unrelated c c' \<and> unrelated c' c"
  obtains cs' w' where "run_call (Some table_ops) (CommitCall c) w = (fst (call_spec (CommitCall c) M), w')"
    "holds cs' (snd (call_spec (CommitCall c) M)) w'" "set cs' \<subseteq> insert c (set cs)"
proof (cases "M (commit_key c)")
  case (Some ev)
  note enc = sound_encoding [OF assms(2)]
  have "get_spec (commit_RuntimeID c) (commit_RequestID c) M = Inr ev"
    using Some encode_trim [OF enc] assms(2) by (simp add: get_spec_def sound_commit_def wf_commit_storable commit_key_def)
  then have "run_call (Some table_ops) (CommitCall c) w = (fst (call_spec (CommitCall c) M), w)"
    using holds_get [OF assms(1)] enc Some by (simp add: CommitEvaluation_def resolveExisting_def)
  then show thesis using that [of w cs] assms(1) Some by auto
next
  case None
  note h = assms(1) [unfolded holds_def] and enc = sound_encoding [OF assms(2)]
  let ?w = "w\<lparr>db_committed := add_rows (db_committed w) (commit_rows c (encoding c))\<rparr>"
  have "commit_key c \<notin> set (map commit_key cs)" using None h by (auto simp: map_of_eq_None_iff image_image)
  then have new: "holds (c # cs) (M(commit_key c \<mapsto> evaluation_of c)) ?w"
    using h assms(2,3) by (auto simp: holds_def at_rest_def unrelated_def)
  have "CommitEvaluation (Some table_ops) c w = (Inr (decisionRecordFromCommit c), ?w)"
    using rest_commit [OF _ enc holds_admissible [OF new assms(1)]] h assms(2)
    by (simp add: sound_commit_def wf_commit_storable)
  then have "run_call (Some table_ops) (CommitCall c) w = (fst (call_spec (CommitCall c) M), ?w)"
    using None by (simp add: evaluation_of_def decisionRecordFromCommit_def)
  then show thesis using that [of ?w "c # cs"] new None by simp
qed

lemma holds_calls:
  assumes "holds cs M w" "list_all sound_commit (call_commits calls)"
    and "\<forall>c \<in> set (cs @ call_commits calls). \<forall>c' \<in> set (cs @ call_commits calls). unrelated c c'"
  shows "\<exists>cs' w'. run_calls (Some table_ops) calls w = (fst (calls_spec calls M), w') \<and>
    holds cs' (snd (calls_spec calls M)) w'"
  using assms
proof (induction calls arbitrary: cs M w)
  case (Cons call calls)
  obtain cs1 w1 where step: "run_call (Some table_ops) call w = (fst (call_spec call M), w1)"
      "holds cs1 (snd (call_spec call M)) w1" "set cs1 \<subseteq> set cs \<union> set (call_commits [call])"
  proof (cases call)
    case (GetCall r q)
    then show thesis using that [of w cs] holds_get [OF Cons.prems(1)] Cons.prems(1) by (simp split: sum.split)
  next
    case (CommitCall c)
    have "sound_commit c" "\<forall>c' \<in> set cs. unrelated c c' \<and> unrelated c' c" using CommitCall Cons.prems(2,3) by auto
    then obtain cs1 w1 where "run_call (Some table_ops) (CommitCall c) w = (fst (call_spec (CommitCall c) M), w1)"
        "holds cs1 (snd (call_spec (CommitCall c) M)) w1" "set cs1 \<subseteq> insert c (set cs)"
      by (rule holds_commit [OF Cons.prems(1)])
    then show thesis using that [of w1 cs1] CommitCall by (simp del: call_spec.simps run_call.simps)
  qed
  have rest: "set (call_commits (call # calls)) = set (call_commits [call]) \<union> set (call_commits calls)" by (cases call) auto
  have "\<exists>cs' w'. run_calls (Some table_ops) calls w1 = (fst (calls_spec calls (snd (call_spec call M))), w') \<and>
      holds cs' (snd (calls_spec calls (snd (call_spec call M)))) w'"
  proof (rule Cons.IH [OF step(2)])
    show "list_all sound_commit (call_commits calls)" using Cons.prems(2) rest by (simp add: list_all_iff)
    have "set (cs1 @ call_commits calls) \<subseteq> set (cs @ call_commits (call # calls))" using step(3) rest by auto
    then show "\<forall>c \<in> set (cs1 @ call_commits calls). \<forall>c' \<in> set (cs1 @ call_commits calls). unrelated c c'"
      using Cons.prems(3) by blast
  qed
  then show ?case using step(1) by (auto split: prod.split)
qed auto

lemma history_refines:
  assumes "at_rest w" "db_committed w = no_rows" "sound_calls calls"
  shows "\<exists>w'. run_calls (Some table_ops) calls w = (fst (calls_spec calls Map.empty), w') \<and>
    (\<forall>r q. GetEvaluationByRequestID (Some table_ops) r q w' = (get_spec r q (snd (calls_spec calls Map.empty)), w'))"
proof -
  have "holds [] Map.empty w" using assms(1,2) by (simp add: holds_def)
  then have "\<exists>cs' w'. run_calls (Some table_ops) calls w = (fst (calls_spec calls Map.empty), w') \<and>
      holds cs' (snd (calls_spec calls Map.empty)) w'"
    using assms(3) by (intro holds_calls) (auto simp: sound_calls_def list_all_iff)
  then show ?thesis using holds_get by blast
qed

end
