(* ===== verification/StoredRows.thy ===== *)
theory StoredRows
  imports LedgerSpec Normalizer
begin

text \<open>
  Reading rows that anyone may have written. Whatever bytes the columns hold, what the decoders of
  \<^verbatim>\<open>serialization.go\<close> accept has gone through the constructors of the domain: a decoded action is in
  normal form, a decoded decision satisfies its invariant, and the lookup of \<^verbatim>\<open>ledger.go\<close> returns an
  evaluation only if the action hashes to the stored digest.
\<close>

lemma decodePrincipal_result: "decodePrincipal v = Inr p \<Longrightarrow> wf_principal p"
  by (auto simp: decodePrincipal_def NewPrincipal_Inr_iff wf_principal_def res_simps)

lemma decodeEvidence_result: "decodeEvidence v = Inr e \<Longrightarrow> wf_evidence e"
  by (auto simp: decodeEvidence_def Let_def res_simps simp del: wf_scope.simps
      dest!: decodePrincipal_result wf_NewAuthorizationScope intro: wf_NewAuthorizationEvidence)

lemma decodeParameters_wf:
  assumes "decodeParameters typ raw = Inr p"
  shows "wf_parameters p"
proof -
  have "list_all wf_principal ps" if "res_mapM decodePrincipal vs = Inr ps" for vs ps
    using res_mapM_all [of decodePrincipal vs ps wf_principal] decodePrincipal_result that by (auto simp: list_all_iff)
  then show ?thesis
    using assms wf_NewExternalSendParameters wf_NewUpdateResourceAccessParameters wf_NewDeleteParameters
    by (auto simp: decodeParameters_def res_simps simp del: wf_parameters.simps split: if_splits)
qed

lemma decodeAction_wf:
  assumes "decodeAction bytes = Inr a"
  shows "wf_action a"
proof -
  obtain stored :: persistedAction and requestedAt actor del deleg target params digest payload evidence where parts:
    "NewActor (agentID (persisted_actor stored)) (runtimeID (persisted_actor stored)) (sessionID (persisted_actor stored)) = Inr actor"
    "decodePrincipal (delegator (persisted_delegation stored)) = Inr del"
    "NewDelegation (delegation_id (persisted_delegation stored)) del = Inr deleg"
    "NewTarget (resourceType (persisted_target stored)) (resourceID (persisted_target stored)) = Inr target"
    "decodeParameters (persisted_type stored) (persisted_parameters stored) = Inr params"
    "NewPayloadFacts digest (payload_classification (persisted_payload stored)) (payload_sizeBytes (persisted_payload stored)) = Inr payload"
    "res_mapM decodeEvidence (persisted_evidence stored) = Inr evidence"
    "NewProposedAction (persisted_type stored) requestedAt actor deleg target (Some params) payload evidence = Inr a"
    using assms by (auto simp: decodeAction_def Let_def res_simps split: if_splits)
  have "wf_actor actor" using parts(1) by (auto simp: NewActor_Inr_iff)
  moreover have "wf_delegation deleg" using parts(2,3) decodePrincipal_result by (auto simp: NewDelegation_Inr_iff wf_delegation_def)
  moreover have "wf_target target" using parts(4) by (auto simp: NewTarget_Inr_iff wf_target_def)
  moreover have "list_all wf_evidence evidence"
    using res_mapM_all [of decodeEvidence _ evidence wf_evidence] decodeEvidence_result parts(7) by (auto simp: list_all_iff)
  ultimately show ?thesis
    using wf_NewProposedAction [OF parts(8)] decodeParameters_wf [OF parts(5)] wf_NewPayloadFacts [OF parts(6)] by blast
qed

definition consistent :: "StoredEvaluation \<Rightarrow> bool" where
  "consistent ev \<longleftrightarrow>
     wf_action (stored_Action ev) \<and> ComputeActionDigest (stored_Action ev) = Inr (record_ActionDigest (stored_Decision ev)) \<and>
     wf_decision (record_Decision (stored_Decision ev)) \<and> utc_time (record_EvaluatedAt (stored_Decision ev))"

lemma reconstruct_consistent:
  assumes "reconstruct rid qid row = Inr ev"
  shows "consistent ev" "stored_RuntimeID ev = rid" "stored_RequestID ev = qid"
  using assms decodeAction_wf decodeDecision_wf
  by (auto simp: reconstruct_def Let_def res_simps consistent_def utc_time_def Time_UTC_def ParseActionDigest_Inr_iff
      split: if_splits)

lemma reconstruct_error: "reconstruct rid qid row = Inl e \<Longrightarrow> e = [Application ErrLedgerFailure]"
  by (auto simp: reconstruct_def Let_def res_simps split: if_splits)

lemma get_consistent:
  assumes "GetEvaluationByRequestID ledger r q w = (Inr ev, w')"
  shows "consistent ev \<and> stored_RuntimeID ev = TrimSpace r \<and> stored_RequestID ev = TrimSpace q \<and>
    stored_RuntimeID ev \<noteq> [] \<and> stored_RequestID ev \<noteq> []"
  using assms reconstruct_consistent
  by (auto simp: GetEvaluationByRequestID_def Let_def split: option.splits prod.splits if_splits)

lemma get_error:
  assumes "GetEvaluationByRequestID ledger r q w = (Inl e, w')"
  shows "e \<in> {[Application ErrInvalidInput], [Application ErrEvaluationNotFound], [Application ErrLedgerFailure]}"
  using assms reconstruct_error
  by (auto simp: GetEvaluationByRequestID_def Let_def split: option.splits prod.splits if_splits)

end
