(* ===== verification/GoUrl.thy ===== *)
theory GoUrl
  imports GoJson
begin

text \<open>
  The parts of \<^verbatim>\<open>net/url\<close>, \<^verbatim>\<open>path\<close> and \<^verbatim>\<open>net/http\<close> that deal with the text of URLs: escaping for paths and for
  query components, the text of a URL without host, and the cleaning of request paths.
\<close>

section \<open>Escaping\<close>

datatype encoding = EncodePath | EncodeQueryComponent

definition unreserved :: "char \<Rightarrow> bool" where
  "unreserved c \<longleftrightarrow> 97 \<le> byte c \<and> byte c \<le> 122 \<or> 65 \<le> byte c \<and> byte c \<le> 90 \<or> is_digit c \<or>
     c \<in> set ''-_.~''"

definition shouldEscape :: "char \<Rightarrow> encoding \<Rightarrow> bool" where
  "shouldEscape c mode =
     (if unreserved c then False
      else if c \<in> set ''$&+,/:;=?@'' then (case mode of EncodePath \<Rightarrow> c = CHR ''?'' | EncodeQueryComponent \<Rightarrow> True)
      else True)"

definition upper_hex :: "nat \<Rightarrow> char" where
  "upper_hex n = ''0123456789ABCDEF'' ! n"

definition url_escape_byte :: "encoding \<Rightarrow> char \<Rightarrow> string" where
  "url_escape_byte mode c =
     (if mode = EncodeQueryComponent \<and> c = CHR '' '' then ''+''
      else if shouldEscape c mode then [CHR ''%'', upper_hex (byte c div 16), upper_hex (byte c mod 16)]
      else [c])"

definition url_escape :: "encoding \<Rightarrow> string \<Rightarrow> string" where
  "url_escape mode s = concat (map (url_escape_byte mode) s)"

fun url_unescape :: "encoding \<Rightarrow> string \<Rightarrow> string option" where
  "url_unescape mode [] = Some []"
| "url_unescape mode (c # s) =
     (if c = CHR ''%'' then
        (case s of
           a # b # rest \<Rightarrow>
             (case (hex_value a, hex_value b) of
                (Some x, Some y) \<Rightarrow> map_option ((#) (char_of (x * 16 + y))) (url_unescape mode rest)
              | _ \<Rightarrow> None)
         | _ \<Rightarrow> None)
      else map_option ((#) (if mode = EncodeQueryComponent \<and> c = CHR ''+'' then CHR '' '' else c)) (url_unescape mode s))"

lemma hex_value_upper: "n < 16 \<Longrightarrow> hex_value (upper_hex n) = Some n"
proof -
  have "list_all (\<lambda>n. hex_value (upper_hex n) = Some n) [0..<16]" by code_simp
  then show "n < 16 \<Longrightarrow> hex_value (upper_hex n) = Some n" by (simp add: list_all_iff)
qed

lemma url_unescape_byte: "url_unescape mode (url_escape_byte mode c @ s) = map_option ((#) c) (url_unescape mode s)"
proof -
  have "byte c div 16 * 16 + byte c mod 16 = byte c" by simp
  then have "char_of (byte c div 16 * 16 + byte c mod 16) = c" by (metis char_of_char)
  moreover have "byte c div 16 < 16" using byte_less [of c] by (simp add: div_less_iff_less_mult)
  moreover have "shouldEscape (CHR ''%'') m" for m by (simp add: shouldEscape_def unreserved_def is_digit_def)
  moreover have "shouldEscape (CHR ''+'') EncodeQueryComponent" by (simp add: shouldEscape_def unreserved_def is_digit_def)
  ultimately show ?thesis
    by (cases "c = CHR ''%''"; cases "c = CHR ''+''")
      (auto simp: url_escape_byte_def hex_value_upper split: encoding.splits)
qed

lemma url_escape_roundtrip: "url_unescape mode (url_escape mode s) = Some s"
  by (induction s) (simp_all add: url_escape_def url_unescape_byte)

lemma url_escape_no_question: "CHR ''?'' \<notin> set (url_escape mode s)"
proof -
  have "list_all (\<lambda>n. CHR ''?'' \<noteq> upper_hex n) [0..<16]" by code_simp
  then have hex: "n < 16 \<Longrightarrow> CHR ''?'' \<noteq> upper_hex n" for n by (simp add: list_all_iff)
  have "byte c div 16 < 16" for c using byte_less [of c] by (simp add: div_less_iff_less_mult)
  moreover have "shouldEscape (CHR ''?'') mode" by (cases mode) (simp_all add: shouldEscape_def unreserved_def is_digit_def)
  ultimately have "CHR ''?'' \<notin> set (url_escape_byte mode c)" for c
    using hex [of "byte c div 16"] hex [of "byte c mod 16"] by (auto simp: url_escape_byte_def)
  then show ?thesis by (simp add: url_escape_def)
qed

section \<open>Texts of URLs\<close>

text \<open>\<^verbatim>\<open>URL.String\<close> for a URL with a scheme, a path and a query, without host and user.\<close>

definition url_String :: "string \<Rightarrow> string \<Rightarrow> string \<Rightarrow> string" where
  "url_String scheme path rawQuery =
     scheme @ '':'' @ (if path = [] then [] else ''//'') @
     (if path = ''*'' then ''*'' else url_escape EncodePath path) @ (if rawQuery = [] then [] else CHR ''?'' # rawQuery)"

text \<open>\<^verbatim>\<open>Values.Encode\<close> for one key.\<close>

definition query_Encode :: "string \<Rightarrow> string list \<Rightarrow> string" where
  "query_Encode key values =
     concat (map2 (\<lambda>i v. (if i = 0 then [] else ''&'') @ url_escape EncodeQueryComponent key @ ''='' @
       url_escape EncodeQueryComponent v) [0..<length values] values)"

section \<open>Paths\<close>

text \<open>The segments between slashes.\<close>

fun path_split :: "string \<Rightarrow> string list" where
  "path_split [] = [[]]"
| "path_split (c # s) = 
     (if c = CHR ''/'' then [] # path_split s
      else case path_split s of [] \<Rightarrow> [[c]] | segment # segments \<Rightarrow> (c # segment) # segments)"

fun strings_Join :: "string \<Rightarrow> string list \<Rightarrow> string" where
  "strings_Join sep [] = []"
| "strings_Join sep [s] = s"
| "strings_Join sep (s # ss) = s @ sep @ strings_Join sep ss"

text \<open>\<^verbatim>\<open>path.Clean\<close> of a rooted path: the segments that are kept, innermost first.\<close>

fun clean_segments :: "string list \<Rightarrow> string list \<Rightarrow> string list" where
  "clean_segments kept [] = kept"
| "clean_segments kept (s # ss) =
     (if s = [] \<or> s = ''.'' then clean_segments kept ss
      else if s = ''..'' then clean_segments (tl kept) ss
      else clean_segments (s # kept) ss)"

definition path_Clean_rooted :: "string \<Rightarrow> string" where
  "path_Clean_rooted p = CHR ''/'' # strings_Join ''/'' (rev (clean_segments [] (path_split p)))"

text \<open>\<^verbatim>\<open>cleanPath\<close> of \<^verbatim>\<open>net/http\<close>: a trailing slash is kept.\<close>

definition cleanPath :: "string \<Rightarrow> string" where
  "cleanPath p0 =
     (if p0 = [] then ''/''
      else
        let p = (if hd p0 \<noteq> CHR ''/'' then CHR ''/'' # p0 else p0);
            np = path_Clean_rooted p in
        if last p = CHR ''/'' \<and> np \<noteq> ''/'' then np @ ''/'' else np)"

end
