(* ===== verification/Migrations.thy ===== *)
theory Migrations
  imports TableStore GoUrl
begin

text \<open>
  Schema migrations (\<^verbatim>\<open>internal/storage/sqlite/migrations.go\<close>) and opening the database
  (\<^verbatim>\<open>database.go\<close>). The statements are the fields of a record of operations, the embedded directory is
  a list of entries. Locale \<open>schema_store\<close> states what the statements do; the results: scripts and
  version records are committed together or not at all, a database newer than the program is
  refused without a change, and after success the version record of the latest migration is there.
\<close>

section \<open>The embedded migrations\<close>

definition LatestSchemaVersion :: int where "LatestSchemaVersion = 1"

record migration =
  mig_version :: int
  mig_name :: string
  mig_sql :: string

record dir_entry =
  entry_name :: string
  entry_is_dir :: bool
  entry_contents :: "string option"

text \<open>\<^verbatim>\<open>strconv.Atoi\<close>: an optional sign, digits, and the range of 64 bits.\<close>

definition strconv_Atoi :: "string \<Rightarrow> int option" where
  "strconv_Atoi s =
     (let neg = (case s of c # _ \<Rightarrow> c = CHR ''-'' | [] \<Rightarrow> False);
          ds = (case s of c # t \<Rightarrow> if c = CHR ''-'' \<or> c = CHR ''+'' then t else s | [] \<Rightarrow> []) in
      if ds = [] \<or> \<not> list_all is_digit ds then None
      else
        let n = int (digits_value ds) in
        if neg then (if n \<le> 2 ^ 63 then Some (- n) else None)
        else (if n < 2 ^ 63 then Some n else None))"

text \<open>\<^verbatim>\<open>strings.SplitN(name, "_", 2)\<close>: \<open>None\<close> when there is no underscore.\<close>

definition split_version :: "string \<Rightarrow> string option" where
  "split_version name = (if CHR ''_'' \<in> set name then Some (takeWhile (\<lambda>c. c \<noteq> CHR ''_'') name) else None)"

definition HasSuffix :: "string \<Rightarrow> string \<Rightarrow> bool" where
  "HasSuffix s p \<longleftrightarrow> length p \<le> length s \<and> drop (length s - length p) s = p"

definition is_migration_file :: "dir_entry \<Rightarrow> bool" where
  "is_migration_file entry \<longleftrightarrow> \<not> entry_is_dir entry \<and> HasSuffix (entry_name entry) ''.sql''"

definition loadMigration :: "dir_entry \<Rightarrow> migration res" where
  "loadMigration entry =
     (case split_version (entry_name entry) of
        None \<Rightarrow> Inl []
      | Some part \<Rightarrow>
          (case strconv_Atoi part of
             None \<Rightarrow> Inl []
           | Some version \<Rightarrow>
               if version < 1 then Inl []
               else (case entry_contents entry of
                 None \<Rightarrow> Inl []
               | Some contents \<Rightarrow>
                   Inr \<lparr>mig_version = version, mig_name = entry_name entry, mig_sql = contents\<rparr>)))"

text \<open>The directory listing, \<open>None\<close> when it cannot be read.\<close>

definition loadMigrations :: "dir_entry list option \<Rightarrow> migration list res" where
  "loadMigrations directory =
     (case directory of
        None \<Rightarrow> Inl []
      | Some entries \<Rightarrow>
          res_bind (res_mapM loadMigration (filter is_migration_file entries)) (\<lambda>unsorted.
          let items = sort_key mig_version unsorted in
          if map mig_version items \<noteq> map int [1..<Suc (length items)] then Inl [ErrInvalidSchemaVersion]
          else if int (length items) \<noteq> LatestSchemaVersion then Inl [ErrInvalidSchemaVersion]
          else Inr items))"

section \<open>Applying migrations\<close>

record 'w MigrateOps =
  mig_create_table :: "'w \<Rightarrow> bool \<times> 'w"
  mig_table_exists :: "'w \<Rightarrow> bool option \<times> 'w"
  mig_count_max :: "'w \<Rightarrow> (int \<times> int) option \<times> 'w"
  mig_begin :: "'w \<Rightarrow> bool \<times> 'w"
  mig_exec :: "string \<Rightarrow> 'w \<Rightarrow> bool \<times> 'w"
  mig_record :: "int \<Rightarrow> string \<Rightarrow> 'w \<Rightarrow> bool \<times> 'w"
  mig_commit :: "'w \<Rightarrow> bool \<times> 'w"
  mig_rollback :: "'w \<Rightarrow> 'w"

definition SchemaVersion :: "'w MigrateOps option \<Rightarrow> 'w \<Rightarrow> int res \<times> 'w" where
  "SchemaVersion database w =
     (case database of
        None \<Rightarrow> (Inl [], w)
      | Some ops \<Rightarrow>
          (case mig_table_exists ops w of
             (None, w1) \<Rightarrow> (Inl [], w1)
           | (Some False, w1) \<Rightarrow> (Inr 0, w1)
           | (Some True, w1) \<Rightarrow>
               (case mig_count_max ops w1 of
                  (None, w2) \<Rightarrow> (Inl [], w2)
                | (Some (count, current), w2) \<Rightarrow>
                    if count \<noteq> current then (Inl [ErrInvalidSchemaVersion], w2) else (Inr current, w2))))"

definition applyMigration :: "'w MigrateOps \<Rightarrow> migration \<Rightarrow> 'w \<Rightarrow> unit res \<times> 'w" where
  "applyMigration ops item w =
     (case mig_begin ops w of
        (False, w1) \<Rightarrow> (Inl [], w1)
      | (True, w1) \<Rightarrow>
          (case mig_exec ops (mig_sql item) w1 of
             (False, w2) \<Rightarrow> (Inl [], mig_rollback ops w2)
           | (True, w2) \<Rightarrow>
               (case mig_record ops (mig_version item) (mig_name item) w2 of
                  (False, w3) \<Rightarrow> (Inl [], mig_rollback ops w3)
                | (True, w3) \<Rightarrow>
                    (case mig_commit ops w3 of
                       (False, w4) \<Rightarrow> (Inl [], mig_rollback ops w4)
                     | (True, w4) \<Rightarrow> (Inr (), w4)))))"

fun applyMigrations :: "'w MigrateOps \<Rightarrow> int \<Rightarrow> migration list \<Rightarrow> 'w \<Rightarrow> int res \<times> 'w" where
  "applyMigrations ops current [] w = (Inr current, w)"
| "applyMigrations ops current (item # items) w =
     (if mig_version item \<le> current then applyMigrations ops current items w
      else case applyMigration ops item w of
        (Inl e, w') \<Rightarrow> (Inl e, w')
      | (Inr _, w') \<Rightarrow> applyMigrations ops (mig_version item) items w')"

definition Migrate :: "dir_entry list option \<Rightarrow> 'w MigrateOps option \<Rightarrow> 'w \<Rightarrow> unit res \<times> 'w" where
  "Migrate directory database w =
     (case database of
        None \<Rightarrow> (Inl [], w)
      | Some ops \<Rightarrow>
          (case mig_create_table ops w of
             (False, w1) \<Rightarrow> (Inl [], w1)
           | (True, w1) \<Rightarrow>
               (case SchemaVersion (Some ops) w1 of
                  (Inl e, w2) \<Rightarrow> (Inl e, w2)
                | (Inr current, w2) \<Rightarrow>
                    if LatestSchemaVersion < current then (Inl [ErrInvalidSchemaVersion], w2)
                    else (case loadMigrations directory of
                      Inl e \<Rightarrow> (Inl e, w2)
                    | Inr migrations \<Rightarrow>
                        (case applyMigrations ops current migrations w2 of
                           (Inl e, w3) \<Rightarrow> (Inl e, w3)
                         | (Inr final, w3) \<Rightarrow>
                             (if final \<noteq> LatestSchemaVersion then Inl [ErrInvalidSchemaVersion] else Inr (), w3))))))"

text \<open>
  Opening: resolving the path and the driver's own \<^verbatim>\<open>Open\<close> and \<^verbatim>\<open>Ping\<close> are parameters. The driver is
  given the text of the connection URL; pool sizes have no effect here.
\<close>

definition defaultBusyTimeoutMilliseconds :: int where "defaultBusyTimeoutMilliseconds = 5000"

definition connection_pragmas :: "string list" where
  "connection_pragmas =
     [''foreign_keys(1)'', ''busy_timeout('' @ int_dec defaultBusyTimeoutMilliseconds @ '')'', ''journal_mode(WAL)'']"

definition connection_url :: "string \<Rightarrow> string" where
  "connection_url absolutePath = url_String ''file'' absolutePath (query_Encode ''_pragma'' connection_pragmas)"

definition Open ::
    "(string \<Rightarrow> string res) \<Rightarrow> (string \<Rightarrow> 'w \<Rightarrow> 'w MigrateOps res \<times> 'w) \<Rightarrow>
     ('w MigrateOps \<Rightarrow> 'w \<Rightarrow> bool \<times> 'w) \<Rightarrow> ('w MigrateOps \<Rightarrow> 'w \<Rightarrow> 'w) \<Rightarrow> dir_entry list option \<Rightarrow>
     string \<Rightarrow> 'w \<Rightarrow> 'w MigrateOps res \<times> 'w" where
  "Open Abs sql_Open Ping Close directory databasePath w =
     (let path = TrimSpace databasePath in
      if path = [] then (Inl [], w)
      else case Abs path of
        Inl e \<Rightarrow> (Inl e, w)
      | Inr absolutePath \<Rightarrow>
          (case sql_Open (connection_url absolutePath) w of
             (Inl e, w1) \<Rightarrow> (Inl e, w1)
           | (Inr database, w1) \<Rightarrow>
               (case Ping database w1 of
                  (False, w2) \<Rightarrow> (Inl [], Close database w2)
                | (True, w2) \<Rightarrow>
                    (case Migrate directory (Some database) w2 of
                       (Inl e, w3) \<Rightarrow> (Inl e, Close database w3)
                     | (Inr _, w3) \<Rightarrow> (Inr database, w3)))))"

text \<open>The driver finds the path and the pragmas in the URL again, whatever characters the path has.\<close>

lemma connection_query: "query_Encode ''_pragma'' connection_pragmas \<noteq> []"
  by (simp add: query_Encode_def connection_pragmas_def)

lemma connection_url_path:
  assumes "hd path = CHR ''/''" "path \<noteq> []"
  shows "connection_url path = ''file://'' @ url_escape EncodePath path @ CHR ''?'' # query_Encode ''_pragma'' connection_pragmas"
    and "url_unescape EncodePath (takeWhile (\<lambda>c. c \<noteq> CHR ''?'') (drop 7 (connection_url path))) = Some path"
proof -
  have "path \<noteq> ''*''" using assms(1) by auto
  then show url: "connection_url path = ''file://'' @ url_escape EncodePath path @ CHR ''?'' # query_Encode ''_pragma'' connection_pragmas"
    using assms(2) by (simp add: connection_url_def url_String_def connection_query)
  have "takeWhile (\<lambda>c. c \<noteq> CHR ''?'') (url_escape EncodePath path @ CHR ''?'' # rest) = url_escape EncodePath path" for rest
    using url_escape_no_question by (subst takeWhile_append2) auto
  then show "url_unescape EncodePath (takeWhile (\<lambda>c. c \<noteq> CHR ''?'') (drop 7 (connection_url path))) = Some path"
    by (simp add: url url_escape_roundtrip)
qed

section \<open>What the statements do\<close>

text \<open>
  A schema: the rows of \<^verbatim>\<open>schema_migrations\<close> and the scripts that have been run, both as committed. They
  are in step when the scripts are those of the recorded versions, in the same order.
\<close>

record schema =
  s_rows :: "(int \<times> string) list"
  s_scripts :: "string list"

definition no_schema :: schema where
  "no_schema = \<lparr>s_rows = [], s_scripts = []\<rparr>"

definition in_step :: "schema \<Rightarrow> bool" where
  "in_step s \<longleftrightarrow> (\<exists>ms :: migration list. s_rows s = map (\<lambda>m. (mig_version m, mig_name m)) ms \<and> s_scripts s = map mig_sql ms)"

definition schema_le :: "schema \<Rightarrow> schema \<Rightarrow> bool" where
  "schema_le s t \<longleftrightarrow> prefix (s_rows s) (s_rows t) \<and> prefix (s_scripts s) (s_scripts t)"

definition schema_append :: "schema \<Rightarrow> schema \<Rightarrow> schema" where
  "schema_append s t = \<lparr>s_rows = s_rows s @ s_rows t, s_scripts = s_scripts s @ s_scripts t\<rparr>"

definition grows :: "('w \<Rightarrow> bool) \<Rightarrow> ('w \<Rightarrow> schema) \<Rightarrow> 'w \<Rightarrow> 'w \<Rightarrow> bool" where
  "grows invar committed w w' \<longleftrightarrow>
     invar w' \<and> schema_le (committed w) (committed w') \<and> (in_step (committed w) \<longrightarrow> in_step (committed w'))"

lemma schema_le_refl [simp]: "schema_le s s"
  by (simp add: schema_le_def)

lemma schema_le_trans: "schema_le s t \<Longrightarrow> schema_le t u \<Longrightarrow> schema_le s u"
  by (auto simp: schema_le_def)

lemma schema_le_append [simp]: "schema_le s (schema_append s t)"
  by (simp add: schema_le_def schema_append_def)

lemma in_step_append: "in_step s \<Longrightarrow> in_step t \<Longrightarrow> in_step (schema_append s t)"
proof -
  assume "in_step s" "in_step t"
  then obtain ms ns :: "migration list" where
    "s_rows s = map (\<lambda>m. (mig_version m, mig_name m)) ms" "s_scripts s = map mig_sql ms"
    "s_rows t = map (\<lambda>m. (mig_version m, mig_name m)) ns" "s_scripts t = map mig_sql ns"
    unfolding in_step_def by blast
  then show ?thesis unfolding in_step_def schema_append_def by (intro exI [of _ "ms @ ns"]) simp
qed

lemma in_step_single: fixes m :: migration shows "in_step \<lparr>s_rows = [(mig_version m, mig_name m)], s_scripts = [mig_sql m]\<rparr>"
  unfolding in_step_def by (rule exI [of _ "[m]"]) simp

lemma grows_refl: "invar w \<Longrightarrow> grows invar committed w w"
  by (simp add: grows_def)

lemma grows_trans: "grows invar committed w w' \<Longrightarrow> grows invar committed w' w'' \<Longrightarrow> grows invar committed w w''"
  by (auto simp: grows_def intro: schema_le_trans)

lemma grows_invar: "grows invar committed w w' \<Longrightarrow> invar w'"
  by (simp add: grows_def)

definition schema_version :: "schema \<Rightarrow> int \<times> int" where
  "schema_version s = (int (length (s_rows s)), fold max (map fst (s_rows s)) 0)"

locale schema_store =
  fixes ops :: "'w MigrateOps"
    and invar :: "'w \<Rightarrow> bool"
    and committed :: "'w \<Rightarrow> schema"
    and staged :: "'w \<Rightarrow> schema"
  assumes create_law: "invar w \<Longrightarrow> mig_create_table ops w = (ok, w') \<Longrightarrow> grows invar committed w w'"
    and exists_law: "invar w \<Longrightarrow> mig_table_exists ops w = (ex, w') \<Longrightarrow>
      grows invar committed w w' \<and> (ex = Some False \<longrightarrow> s_rows (committed w') = [])"
    and count_law: "invar w \<Longrightarrow> mig_count_max ops w = (cm, w') \<Longrightarrow>
      grows invar committed w w' \<and> (\<forall>p. cm = Some p \<longrightarrow> p = schema_version (committed w'))"
    and begin_law: "invar w \<Longrightarrow> mig_begin ops w = (ok, w') \<Longrightarrow>
      grows invar committed w w' \<and> (ok \<longrightarrow> staged w' = no_schema)"
    and exec_law: "invar w \<Longrightarrow> mig_exec ops sql w = (ok, w') \<Longrightarrow>
      grows invar committed w w' \<and> (ok \<longrightarrow> staged w' = (staged w)\<lparr>s_scripts := s_scripts (staged w) @ [sql]\<rparr>)"
    and record_law: "invar w \<Longrightarrow> mig_record ops v name w = (ok, w') \<Longrightarrow>
      grows invar committed w w' \<and> (ok \<longrightarrow> staged w' = (staged w)\<lparr>s_rows := s_rows (staged w) @ [(v, name)]\<rparr>)"
    and commit_law: "invar w \<Longrightarrow> in_step (staged w) \<Longrightarrow> mig_commit ops w = (ok, w') \<Longrightarrow>
      grows invar committed w w' \<and> (ok \<longrightarrow> (\<exists>s. committed w' = schema_append s (staged w)))"
    and rollback_law: "invar w \<Longrightarrow> grows invar committed w (mig_rollback ops w)"

context schema_store
begin

lemma version_grows: "invar w \<Longrightarrow> SchemaVersion (Some ops) w = (res, w') \<Longrightarrow> grows invar committed w w'"
proof -
  assume inv: "invar w" and sv: "SchemaVersion (Some ops) w = (res, w')"
  obtain ex w1 where ex: "mig_table_exists ops w = (ex, w1)" by (rule prod.exhaust)
  obtain cm w2 where cm: "mig_count_max ops w1 = (cm, w2)" by (rule prod.exhaust)
  have g1: "grows invar committed w w1" using exists_law [OF inv ex] by simp
  have g2: "grows invar committed w w2"
    using grows_trans [OF g1] count_law [OF grows_invar [OF g1] cm] by blast
  show ?thesis using sv ex cm g1 g2
    by (auto simp: SchemaVersion_def split: option.splits bool.splits if_splits)
qed

lemma version_reads:
  assumes "invar w" "SchemaVersion (Some ops) w = (Inr v, w')"
  shows "schema_version (committed w') = (v, v) \<or> v = 0 \<and> s_rows (committed w') = []"
proof -
  obtain ex w1 where ex: "mig_table_exists ops w = (ex, w1)" by (rule prod.exhaust)
  obtain cm w2 where cm: "mig_count_max ops w1 = (cm, w2)" by (rule prod.exhaust)
  note e = exists_law [OF assms(1) ex]
  note c = count_law [OF grows_invar [OF conjunct1 [OF e]] cm]
  show ?thesis using assms(2) ex cm e c
    by (auto simp: SchemaVersion_def split: option.splits bool.splits if_splits)
qed

lemma apply_grows:
  assumes inv: "invar w" and app: "applyMigration ops item w = (res, w')"
  shows "grows invar committed w w'"
    and "res = Inr () \<Longrightarrow> (mig_version item, mig_name item) \<in> set (s_rows (committed w'))"
proof -
  obtain b1 w1 where s1: "mig_begin ops w = (b1, w1)" by (rule prod.exhaust)
  note l1 = begin_law [OF inv s1]
  note g1 = conjunct1 [OF l1]
  obtain b2 w2 where s2: "mig_exec ops (mig_sql item) w1 = (b2, w2)" by (rule prod.exhaust)
  note l2 = exec_law [OF grows_invar [OF g1] s2]
  note g2 = grows_trans [OF g1 conjunct1 [OF l2]]
  obtain b3 w3 where s3: "mig_record ops (mig_version item) (mig_name item) w2 = (b3, w3)" by (rule prod.exhaust)
  note l3 = record_law [OF grows_invar [OF g2] s3]
  note g3 = grows_trans [OF g2 conjunct1 [OF l3]]
  obtain b4 w4 where s4: "mig_commit ops w3 = (b4, w4)" by (rule prod.exhaust)
  have undo: "grows invar committed w v \<Longrightarrow> grows invar committed w (mig_rollback ops v)" for v
    using grows_trans rollback_law grows_invar by metis
  have st: "staged w3 = \<lparr>s_rows = [(mig_version item, mig_name item)], s_scripts = [mig_sql item]\<rparr>" if b1 b2 b3
    using that l1 l2 l3 by (simp add: no_schema_def)
  have l4: "grows invar committed w3 w4 \<and> (b4 \<longrightarrow> (\<exists>s. committed w4 = schema_append s (staged w3)))" if b1 b2 b3
    using commit_law [OF grows_invar [OF g3] _ s4] st [OF that] in_step_single by simp
  have g4: "grows invar committed w w4" if b1 b2 b3
    using grows_trans [OF g3] l4 [OF that] by blast
  show "grows invar committed w w'"
    using app s1 s2 s3 s4 g1 undo [OF g2] undo [OF g3] undo g4
    by (auto simp: applyMigration_def split: bool.splits)
  assume "res = Inr ()"
  then have ok: b1 b2 b3 b4 "w' = w4"
    using app s1 s2 s3 s4 by (auto simp: applyMigration_def split: bool.splits)
  then show "(mig_version item, mig_name item) \<in> set (s_rows (committed w'))"
    using l4 st by (auto simp: schema_append_def)
qed

lemma applies_grow:
  "invar w \<Longrightarrow> applyMigrations ops current items w = (res, w') \<Longrightarrow> grows invar committed w w' \<and>
     (\<forall>final. res = Inr final \<longrightarrow> final = current \<or> final \<in> fst ` set (s_rows (committed w')))"
proof (induction items arbitrary: w current)
  case (Cons item items)
  obtain x w1 where x: "applyMigration ops item w = (x, w1)" by (rule prod.exhaust)
  note step = apply_grows [OF Cons.prems(1) x]
  note IH = Cons.IH [OF grows_invar [OF step(1)], of "mig_version item"]
  show ?case
  proof (cases "mig_version item \<le> current \<or> (\<exists>e. x = Inl e)")
    case True
    then show ?thesis using Cons.prems Cons.IH [OF Cons.prems(1), of current] x step(1)
      by (auto split: if_splits)
  next
    case False
    then obtain u where xu: "x = Inr u" by (cases x) auto
    then have rest: "applyMigrations ops (mig_version item) items w1 = (res, w')"
      using Cons.prems(2) False x by simp
    note IH' = IH [OF rest]
    have "(mig_version item, mig_name item) \<in> set (s_rows (committed w1))" using step(2) xu by simp
    then have "(mig_version item, mig_name item) \<in> set (s_rows (committed w'))"
      using IH' set_mono_prefix by (auto simp: grows_def schema_le_def)
    then show ?thesis using IH' grows_trans [OF step(1)] by force
  qed
qed (auto simp: grows_refl)

lemma schema_version_mem: "schema_version s = (v, v) \<Longrightarrow> 0 < v \<Longrightarrow> v \<in> fst ` set (s_rows s)"
proof -
  have "fold max xs (b :: int) = b \<or> fold max xs b \<in> set xs" for xs b
    by (induction xs arbitrary: b) (auto simp: max_def split: if_splits)
  then have "fold max (map fst (s_rows s)) 0 = 0 \<or> fold max (map fst (s_rows s)) 0 \<in> set (map fst (s_rows s))" by blast
  then show "schema_version s = (v, v) \<Longrightarrow> 0 < v \<Longrightarrow> v \<in> fst ` set (s_rows s)"
    by (auto simp: schema_version_def)
qed

text \<open>Everything \<^verbatim>\<open>Migrate\<close> does to the committed schema.\<close>

lemma migrate_sound:
  assumes inv: "invar w" and mig: "Migrate directory (Some ops) w = (res, w')"
  shows "grows invar committed w w'"
    and "res = Inr () \<Longrightarrow> LatestSchemaVersion \<in> fst ` set (s_rows (committed w'))"
proof -
  obtain b w1 where c: "mig_create_table ops w = (b, w1)" by (rule prod.exhaust)
  note g1 = create_law [OF inv c]
  obtain sv w2 where sv: "SchemaVersion (Some ops) w1 = (sv, w2)" by (rule prod.exhaust)
  note g2 = grows_trans [OF g1 version_grows [OF grows_invar [OF g1] sv]]
  have final: "grows invar committed w w3 \<and> (x = Inr LatestSchemaVersion \<longrightarrow> LatestSchemaVersion \<in> fst ` set (s_rows (committed w3)))"
    if "sv = Inr current" "applyMigrations ops current items w2 = (x, w3)" for current items x w3
  proof -
    note ag = applies_grow [OF grows_invar [OF g2] that(2)]
    have "current = LatestSchemaVersion \<Longrightarrow> current \<in> fst ` set (s_rows (committed w2))"
      using version_reads [OF grows_invar [OF g1] sv [unfolded that(1)]] schema_version_mem [of "committed w2" current]
      by (auto simp: LatestSchemaVersion_def)
    moreover have "set (s_rows (committed w2)) \<subseteq> set (s_rows (committed w3))"
      using ag set_mono_prefix by (auto simp: grows_def schema_le_def)
    ultimately show ?thesis using ag grows_trans [OF g2] by blast
  qed
  show "grows invar committed w w'"
    using mig c sv g1 g2 final
    by (auto simp: Migrate_def split: bool.splits sum.splits if_splits prod.splits)
  assume "res = Inr ()"
  then show "LatestSchemaVersion \<in> fst ` set (s_rows (committed w'))"
    using mig c sv final
    by (auto simp: Migrate_def split: bool.splits sum.splits if_splits prod.splits)
qed

end

text \<open>
  The driver around these statements: every database it opens is the one the statements work on, and
  opening, pinging and closing do not undo what is committed.
\<close>

locale database_driver = schema_store ops invar committed staged
  for ops :: "'w MigrateOps" and invar :: "'w \<Rightarrow> bool" and committed :: "'w \<Rightarrow> schema" and staged :: "'w \<Rightarrow> schema" +
  fixes sql_Open :: "string \<Rightarrow> 'w \<Rightarrow> 'w MigrateOps res \<times> 'w"
    and Ping :: "'w MigrateOps \<Rightarrow> 'w \<Rightarrow> bool \<times> 'w"
    and Close :: "'w MigrateOps \<Rightarrow> 'w \<Rightarrow> 'w"
  assumes open_law: "invar w \<Longrightarrow> sql_Open url w = (r, w') \<Longrightarrow> grows invar committed w w' \<and> (\<forall>d. r = Inr d \<longrightarrow> d = ops)"
    and ping_law: "invar w \<Longrightarrow> Ping ops w = (ok, w') \<Longrightarrow> grows invar committed w w'"
    and close_law: "invar w \<Longrightarrow> grows invar committed w (Close ops w)"

context database_driver
begin

lemma open_sound:
  assumes inv: "invar w" and op: "Open Abs sql_Open Ping Close directory path w = (res, w')"
  shows "grows invar committed w w' \<and>
    (\<forall>d. res = Inr d \<longrightarrow> d = ops \<and> LatestSchemaVersion \<in> fst ` set (s_rows (committed w')))"
proof (cases "if TrimSpace path = [] then Inl [] else Abs (TrimSpace path)")
  case (Inl e)
  then show ?thesis using op inv by (auto simp: Open_def Let_def grows_refl split: if_splits)
next
  case (Inr absolute)
  obtain r w1 where opened: "sql_Open (connection_url absolute) w = (r, w1)" by (rule prod.exhaust)
  obtain ok w2 where ping: "Ping ops w1 = (ok, w2)" by (rule prod.exhaust)
  obtain m w3 where mig: "Migrate directory (Some ops) w2 = (m, w3)" by (rule prod.exhaust)
  have g1: "grows invar committed w w1" and d: "\<And>d. r = Inr d \<Longrightarrow> d = ops" using open_law [OF inv opened] by auto
  have g2: "grows invar committed w w2" by (rule grows_trans [OF g1 ping_law [OF grows_invar [OF g1] ping]])
  note sound = migrate_sound [OF grows_invar [OF g2] mig]
  have g3: "grows invar committed w w3" by (rule grows_trans [OF g2 sound(1)])
  have closed: "grows invar committed w (Close ops w2)" "grows invar committed w (Close ops w3)"
    by (rule grows_trans [OF g2 close_law [OF grows_invar [OF g2]]], rule grows_trans [OF g3 close_law [OF grows_invar [OF g3]]])
  show ?thesis
  proof (cases r)
    case (Inl e)
    then show ?thesis using op Inr opened g1 by (auto simp: Open_def Let_def split: if_splits)
  next
    case (Inr database)
    then show ?thesis
      using op \<open>(if _ then _ else _) = Inr absolute\<close> opened ping mig d g3 closed sound(2)
      by (auto simp: Open_def Let_def split: if_splits bool.splits sum.splits)
  qed
qed

end

section \<open>A database with faults and other processes\<close>

text \<open>
  The table \<^verbatim>\<open>schema_migrations\<close> with its constraints. Before a statement other processes may have
  migrated, unless this one holds the write lock; any statement may fail. A script that has been
  applied cannot be applied again, since its tables exist.
\<close>

datatype mig_event = MQuiet | MOthers "migration list" | MFault

record schema_world =
  sw_table :: bool
  sw_committed :: schema
  sw_staged :: schema
  sw_script :: "mig_event list"

definition rows_ok :: "(int \<times> string) list \<Rightarrow> bool" where
  "rows_ok rows \<longleftrightarrow> distinct (map fst rows) \<and> distinct (map snd rows) \<and>
     list_all (\<lambda>(v, name). 0 < v \<and> sql_nonblank name) rows"

definition schema_of :: "migration list \<Rightarrow> schema" where
  "schema_of ms = \<lparr>s_rows = map (\<lambda>m. (mig_version m, mig_name m)) ms, s_scripts = map mig_sql ms\<rparr>"

definition schema_invar :: "schema_world \<Rightarrow> bool" where
  "schema_invar w \<longleftrightarrow> rows_ok (s_rows (schema_append (sw_committed w) (sw_staged w))) \<and>
     (\<not> sw_table w \<longrightarrow> s_rows (sw_committed w) = [])"

definition mig_tick :: "schema_world \<Rightarrow> bool \<times> schema_world" where
  "mig_tick w =
     (case sw_script w of
        [] \<Rightarrow> (True, w)
      | ev # rest \<Rightarrow>
          let w' = w\<lparr>sw_script := rest\<rparr> in
          (case ev of
             MQuiet \<Rightarrow> (True, w')
           | MFault \<Rightarrow> (False, w')
           | MOthers ms \<Rightarrow>
               (True,
                if sw_table w \<and> sw_staged w = no_schema \<and>
                   rows_ok (s_rows (schema_append (sw_committed w) (schema_of ms)))
                then w'\<lparr>sw_committed := schema_append (sw_committed w) (schema_of ms)\<rparr> else w')))"

definition world_ops :: "schema_world MigrateOps" where
  "world_ops =
     \<lparr>mig_create_table = (\<lambda>w. case mig_tick w of (ok, w') \<Rightarrow> (ok, if ok then w'\<lparr>sw_table := True\<rparr> else w')),
      mig_table_exists = (\<lambda>w. case mig_tick w of (ok, w') \<Rightarrow> (if ok then Some (sw_table w') else None, w')),
      mig_count_max = (\<lambda>w. case mig_tick w of (ok, w') \<Rightarrow>
        (if ok \<and> sw_table w' then Some (schema_version (sw_committed w')) else None, w')),
      mig_begin = (\<lambda>w. case mig_tick w of (ok, w') \<Rightarrow> (ok, if ok then w'\<lparr>sw_staged := no_schema\<rparr> else w')),
      mig_exec = (\<lambda>sql w. case mig_tick w of (ok, w') \<Rightarrow>
        if ok \<and> sql \<notin> set (s_scripts (sw_committed w'))
        then (True, w'\<lparr>sw_staged := (sw_staged w')\<lparr>s_scripts := s_scripts (sw_staged w') @ [sql]\<rparr>\<rparr>) else (False, w')),
      mig_record = (\<lambda>v name w. case mig_tick w of (ok, w') \<Rightarrow>
        let staged = (sw_staged w')\<lparr>s_rows := s_rows (sw_staged w') @ [(v, name)]\<rparr> in
        if ok \<and> sw_table w' \<and> rows_ok (s_rows (schema_append (sw_committed w') staged))
        then (True, w'\<lparr>sw_staged := staged\<rparr>) else (False, w')),
      mig_commit = (\<lambda>w. case mig_tick w of (ok, w') \<Rightarrow>
        if ok \<and> sw_table w'
        then (True, w'\<lparr>sw_committed := schema_append (sw_committed w') (sw_staged w'), sw_staged := no_schema\<rparr>)
        else (False, w'\<lparr>sw_staged := no_schema\<rparr>)),
      mig_rollback = (\<lambda>w. w\<lparr>sw_staged := no_schema\<rparr>)\<rparr>"

abbreviation world_grows :: "schema_world \<Rightarrow> schema_world \<Rightarrow> bool" where
  "world_grows \<equiv> grows schema_invar sw_committed"

lemma schema_append_empty [simp]: "schema_append s no_schema = s"
  by (simp add: schema_append_def no_schema_def)

lemma in_step_schema_of: "in_step (schema_of ms)"
  by (auto simp: in_step_def schema_of_def)

lemma rows_ok_append: "rows_ok (s_rows (schema_append s t)) \<Longrightarrow> rows_ok (s_rows s)"
  by (auto simp: rows_ok_def schema_append_def)

lemma mig_tick_grows:
  assumes "schema_invar w" "mig_tick w = (ok, w')"
  shows "world_grows w w'" "sw_staged w' = sw_staged w" "sw_table w' = sw_table w"
proof -
  have "world_grows w w' \<and> sw_staged w' = sw_staged w \<and> sw_table w' = sw_table w"
    using assms in_step_append in_step_schema_of
    by (auto simp: mig_tick_def grows_def schema_invar_def Let_def split: list.splits mig_event.splits if_splits)
  then show "world_grows w w'" "sw_staged w' = sw_staged w" "sw_table w' = sw_table w" by blast+
qed

lemma grows_staged:
  "world_grows w w' \<Longrightarrow> rows_ok (s_rows (schema_append (sw_committed w') s)) \<Longrightarrow> world_grows w (w'\<lparr>sw_staged := s\<rparr>)"
  by (simp add: grows_def schema_invar_def)

lemma grows_unstaged: "world_grows w w' \<Longrightarrow> world_grows w (w'\<lparr>sw_staged := no_schema\<rparr>)"
  by (rule grows_staged) (auto simp: grows_def schema_invar_def intro: rows_ok_append)

lemma grows_commit:
  assumes "world_grows w w'" "in_step (sw_staged w')" "sw_table w'"
  shows "world_grows w (w'\<lparr>sw_committed := schema_append (sw_committed w') (sw_staged w'), sw_staged := no_schema\<rparr>)"
proof -
  have "schema_le (sw_committed w) (schema_append (sw_committed w') (sw_staged w'))"
    using assms(1) by (auto simp: grows_def intro: schema_le_trans)
  then show ?thesis using assms in_step_append by (simp add: grows_def schema_invar_def)
qed

lemma world_staging_laws:
  assumes inv: "schema_invar w"
  shows "mig_exec world_ops sql w = (ok, w') \<Longrightarrow> world_grows w w' \<and>
      (ok \<longrightarrow> sw_staged w' = (sw_staged w)\<lparr>s_scripts := s_scripts (sw_staged w) @ [sql]\<rparr>)"
    and "mig_record world_ops v name w = (ok, w') \<Longrightarrow> world_grows w w' \<and>
      (ok \<longrightarrow> sw_staged w' = (sw_staged w)\<lparr>s_rows := s_rows (sw_staged w) @ [(v, name)]\<rparr>)"
    and "in_step (sw_staged w) \<Longrightarrow> mig_commit world_ops w = (ok, w') \<Longrightarrow> world_grows w w' \<and>
      (ok \<longrightarrow> (\<exists>s. sw_committed w' = schema_append s (sw_staged w)))"
proof -
  obtain ok1 w1 where t: "mig_tick w = (ok1, w1)" by (rule prod.exhaust)
  note tg = mig_tick_grows [OF inv t]
  note stg = grows_staged [OF tg(1)]
  have rows: "rows_ok (s_rows (schema_append (sw_committed w1) (sw_staged w1)))"
    using tg(1) by (simp add: grows_def schema_invar_def)
  show "mig_exec world_ops sql w = (ok, w') \<Longrightarrow> world_grows w w' \<and>
      (ok \<longrightarrow> sw_staged w' = (sw_staged w)\<lparr>s_scripts := s_scripts (sw_staged w) @ [sql]\<rparr>)"
    using tg stg rows by (auto simp: world_ops_def t schema_append_def split: if_splits)
  show "mig_record world_ops v name w = (ok, w') \<Longrightarrow> world_grows w w' \<and>
      (ok \<longrightarrow> sw_staged w' = (sw_staged w)\<lparr>s_rows := s_rows (sw_staged w) @ [(v, name)]\<rparr>)"
    using tg stg by (auto simp: world_ops_def t Let_def split: if_splits)
  show "in_step (sw_staged w) \<Longrightarrow> mig_commit world_ops w = (ok, w') \<Longrightarrow> world_grows w w' \<and>
      (ok \<longrightarrow> (\<exists>s. sw_committed w' = schema_append s (sw_staged w)))"
    using tg grows_unstaged [OF tg(1)] grows_commit [OF tg(1)] by (auto simp: world_ops_def t split: if_splits)
qed

lemma world_reading_laws:
  assumes inv: "schema_invar w"
  shows "mig_create_table world_ops w = (ok, w') \<Longrightarrow> world_grows w w'"
    and "mig_table_exists world_ops w = (ex, w') \<Longrightarrow>
      world_grows w w' \<and> (ex = Some False \<longrightarrow> s_rows (sw_committed w') = [])"
    and "mig_count_max world_ops w = (cm, w') \<Longrightarrow>
      world_grows w w' \<and> (\<forall>p. cm = Some p \<longrightarrow> p = schema_version (sw_committed w'))"
    and "mig_begin world_ops w = (ok, w') \<Longrightarrow> world_grows w w' \<and> (ok \<longrightarrow> sw_staged w' = no_schema)"
proof -
  obtain ok1 w1 where t: "mig_tick w = (ok1, w1)" by (rule prod.exhaust)
  note tg = mig_tick_grows [OF inv t]
  show "mig_create_table world_ops w = (ok, w') \<Longrightarrow> world_grows w w'"
    using tg by (auto simp: world_ops_def t grows_def schema_invar_def)
  show "mig_table_exists world_ops w = (ex, w') \<Longrightarrow>
      world_grows w w' \<and> (ex = Some False \<longrightarrow> s_rows (sw_committed w') = [])"
    using tg by (auto simp: world_ops_def t grows_def schema_invar_def split: if_splits)
  show "mig_count_max world_ops w = (cm, w') \<Longrightarrow>
      world_grows w w' \<and> (\<forall>p. cm = Some p \<longrightarrow> p = schema_version (sw_committed w'))"
    using tg by (auto simp: world_ops_def t split: if_splits)
  show "mig_begin world_ops w = (ok, w') \<Longrightarrow> world_grows w w' \<and> (ok \<longrightarrow> sw_staged w' = no_schema)"
    using tg grows_unstaged by (auto simp: world_ops_def t)
qed

interpretation migrations: schema_store world_ops schema_invar sw_committed sw_staged
proof (unfold_locales, fact world_reading_laws(1), fact world_reading_laws(2), fact world_reading_laws(3),
    fact world_reading_laws(4), fact world_staging_laws(1), fact world_staging_laws(2), fact world_staging_laws(3))
  fix w :: schema_world
  assume "schema_invar w"
  then have "world_grows w (w\<lparr>sw_staged := no_schema\<rparr>)" by (intro grows_unstaged grows_refl)
  then show "world_grows w (mig_rollback world_ops w)" by (simp add: world_ops_def)
qed

text \<open>The driver of this database: opening is lazy, pinging is a statement.\<close>

definition world_Open :: "string \<Rightarrow> schema_world \<Rightarrow> schema_world MigrateOps res \<times> schema_world" where
  "world_Open url w = (Inr world_ops, w)"

definition world_Ping :: "schema_world MigrateOps \<Rightarrow> schema_world \<Rightarrow> bool \<times> schema_world" where
  "world_Ping database w = mig_tick w"

definition world_Close :: "schema_world MigrateOps \<Rightarrow> schema_world \<Rightarrow> schema_world" where
  "world_Close database w = w\<lparr>sw_staged := no_schema\<rparr>"

interpretation driver: database_driver world_ops schema_invar sw_committed sw_staged world_Open world_Ping world_Close
  by unfold_locales
    (auto simp: world_Open_def world_Ping_def world_Close_def intro: grows_refl grows_unstaged mig_tick_grows(1))

text \<open>The directory that is built into the program: one migration.\<close>

definition embedded_directory :: "string \<Rightarrow> dir_entry list option" where
  "embedded_directory sql =
     Some [\<lparr>entry_name = ''0001_minimal_ledger.sql'', entry_is_dir = False, entry_contents = Some sql\<rparr>]"

lemma Atoi_embedded: "strconv_Atoi ''0001'' = Some 1"
  by (simp add: strconv_Atoi_def digits_value_def is_digit_def)

lemma split_embedded: "split_version ''0001_minimal_ledger.sql'' = Some ''0001''"
  by (simp add: split_version_def)

lemma is_migration_embedded:
  "is_migration_file \<lparr>entry_name = ''0001_minimal_ledger.sql'', entry_is_dir = False, entry_contents = Some sql\<rparr>"
  by (simp add: is_migration_file_def HasSuffix_def)

lemma load_embedded:
  "loadMigrations (embedded_directory sql) =
     Inr [\<lparr>mig_version = 1, mig_name = ''0001_minimal_ledger.sql'', mig_sql = sql\<rparr>]"
  by (simp add: loadMigrations_def embedded_directory_def is_migration_embedded loadMigration_def split_embedded
      Atoi_embedded LatestSchemaVersion_def)

text \<open>A database that is ahead of the program is left as it is.\<close>

lemma newer_refused:
  assumes "mig_create_table ops w = (True, w1)" "SchemaVersion (Some ops) w1 = (Inr v, w2)" "LatestSchemaVersion < v"
  shows "Migrate directory (Some ops) w = (Inl [ErrInvalidSchemaVersion], w2)"
  using assms by (simp add: Migrate_def)

text \<open>A quiet, empty database is migrated.\<close>

definition empty_database :: schema_world where
  "empty_database = \<lparr>sw_table = False, sw_committed = no_schema, sw_staged = no_schema, sw_script = []\<rparr>"

definition migrated_database :: "string \<Rightarrow> schema_world" where
  "migrated_database sql =
     \<lparr>sw_table = True,
      sw_committed = schema_of [\<lparr>mig_version = 1, mig_name = ''0001_minimal_ledger.sql'', mig_sql = sql\<rparr>],
      sw_staged = no_schema, sw_script = []\<rparr>"

lemmas migrate_defs = Migrate_def SchemaVersion_def applyMigration_def world_ops_def mig_tick_def

lemma migrate_empty: "Migrate (embedded_directory sql) (Some world_ops) empty_database = (Inr (), migrated_database sql)"
proof -
  have "sql_nonblank ''0001_minimal_ledger.sql''" by (rule sql_nonblank_hd) simp_all
  then show ?thesis
    by (simp add: migrate_defs load_embedded empty_database_def migrated_database_def schema_version_def no_schema_def
        schema_append_def rows_ok_def schema_of_def LatestSchemaVersion_def)
qed

end
