(* ===== verification/MigrationProgress.thy ===== *)
theory MigrationProgress
  imports Migrations
begin

text \<open>
  What \<^verbatim>\<open>Migrate\<close> (\<^verbatim>\<open>internal/storage/sqlite/migrations.go\<close>) does to a database that nothing disturbs, as a
  function of its recorded history: histories with gaps and histories from a newer program are
  refused, otherwise exactly the missing migrations are run, in the order of their versions, and
  recorded. The laws of such a database are the locale \<open>calm_schema_store\<close>; which scripts it accepts
  is a parameter.
\<close>

section \<open>The specification\<close>

definition migrate_spec :: "dir_entry list option \<Rightarrow> schema \<Rightarrow> unit res \<times> schema" where
  "migrate_spec directory s =
     (case schema_version s of (count, current) \<Rightarrow>
        if count \<noteq> current \<or> LatestSchemaVersion < current then (Inl [ErrInvalidSchemaVersion], s)
        else case loadMigrations directory of
          Inl e \<Rightarrow> (Inl e, s)
        | Inr ms \<Rightarrow> (Inr (), schema_append s (schema_of (drop (nat current) ms))))"

text \<open>The database accepts the scripts one after the other and has room for their version records.\<close>

fun installable :: "(schema \<Rightarrow> string \<Rightarrow> bool) \<Rightarrow> schema \<Rightarrow> migration list \<Rightarrow> bool" where
  "installable accepts s [] = True"
| "installable accepts s (m # ms) \<longleftrightarrow>
     accepts s (mig_sql m) \<and> rows_ok (s_rows s @ [(mig_version m, mig_name m)]) \<and>
     installable accepts (schema_append s (schema_of [m])) ms"

definition has_room :: "(schema \<Rightarrow> string \<Rightarrow> bool) \<Rightarrow> dir_entry list option \<Rightarrow> schema \<Rightarrow> bool" where
  "has_room accepts directory s =
     (case loadMigrations directory of
        Inl _ \<Rightarrow> True | Inr ms \<Rightarrow> installable accepts s (drop (nat (snd (schema_version s))) ms))"

lemma loaded_versions:
  assumes "loadMigrations directory = Inr ms"
  shows "map mig_version ms = map int [1..<Suc (length ms)]" "int (length ms) = LatestSchemaVersion"
  using assms
  by (auto simp: loadMigrations_def Let_def res_simps split: option.splits if_splits simp del: upt_Suc)

text \<open>After a successful migration the history ends at the latest version, and nothing is missing.\<close>

lemma fold_max_upto: "k \<le> n \<Longrightarrow> fold max (map int [Suc k..<Suc n]) (int k) = int n"
  by (induction n) (auto simp: le_Suc_eq)

lemma migrated_version:
  assumes "schema_version s = (current, current)" "current \<le> LatestSchemaVersion" "loadMigrations directory = Inr ms"
  shows "schema_version (schema_append s (schema_of (drop (nat current) ms))) = (LatestSchemaVersion, LatestSchemaVersion)"
proof -
  note lv = loaded_versions [OF assms(3)]
  have current: "current = int (length (s_rows s))" "fold max (map fst (s_rows s)) 0 = current"
    using assms(1) by (simp_all add: schema_version_def)
  then have k: "nat current \<le> length ms" using assms(2) lv(2) by simp
  have "map mig_version (drop (nat current) ms) = map int [Suc (nat current)..<Suc (length ms)]"
    using k by (simp add: drop_map [symmetric] lv(1) del: upt_Suc) (simp add: drop_map del: upt_Suc)
  then have "fold max (map mig_version (drop (nat current) ms)) current = int (length ms)"
    using fold_max_upto [OF k] current(1) by (simp del: upt_Suc)
  then show ?thesis
    using lv(2) k current by (simp add: schema_version_def schema_append_def schema_of_def comp_def)
qed

lemma migrate_spec_again:
  assumes "fst (migrate_spec directory s) = Inr ()"
  shows "migrate_spec directory (snd (migrate_spec directory s)) = (Inr (), snd (migrate_spec directory s))"
    and "has_room accepts directory (snd (migrate_spec directory s))"
proof -
  obtain v ns where v: "schema_version s = (v, v)" "v \<le> LatestSchemaVersion" "loadMigrations directory = Inr ns"
    using assms by (auto simp: migrate_spec_def split: prod.splits if_splits sum.splits)
  note mv = migrated_version [OF v]
  have snd: "snd (migrate_spec directory s) = schema_append s (schema_of (drop (nat v) ns))"
    using v by (simp add: migrate_spec_def)
  have none: "drop (nat LatestSchemaVersion) ns = []" using loaded_versions(2) [OF v(3)] by simp
  show "migrate_spec directory (snd (migrate_spec directory s)) = (Inr (), snd (migrate_spec directory s))"
    using none unfolding snd by (simp add: migrate_spec_def mv v(3)) (simp add: schema_append_def schema_of_def)
  show "has_room accepts directory (snd (migrate_spec directory s))"
    using none unfolding snd by (simp add: has_room_def mv v(3))
qed

section \<open>A calm database\<close>

locale calm_schema_store = schema_store ops invar committed staged
  for ops :: "'w MigrateOps" and invar :: "'w \<Rightarrow> bool" and committed :: "'w \<Rightarrow> schema" and staged :: "'w \<Rightarrow> schema" +
  fixes calm :: "'w \<Rightarrow> bool"
    and ready :: "'w \<Rightarrow> bool"
    and accepts :: "schema \<Rightarrow> string \<Rightarrow> bool"
  assumes ready_calm: "ready w \<Longrightarrow> calm w"
    and create_ok: "invar w \<Longrightarrow> calm w \<Longrightarrow> mig_create_table ops w = (ok, w') \<Longrightarrow>
      ok \<and> ready w' \<and> committed w' = committed w"
    and exists_ok: "invar w \<Longrightarrow> ready w \<Longrightarrow> mig_table_exists ops w = (ex, w') \<Longrightarrow>
      ex \<noteq> None \<and> ready w' \<and> committed w' = committed w"
    and count_ok: "invar w \<Longrightarrow> ready w \<Longrightarrow> mig_count_max ops w = (cm, w') \<Longrightarrow>
      cm \<noteq> None \<and> ready w' \<and> committed w' = committed w"
    and begin_ok: "invar w \<Longrightarrow> ready w \<Longrightarrow> mig_begin ops w = (ok, w') \<Longrightarrow> ok \<and> ready w' \<and> committed w' = committed w"
    and exec_ok: "invar w \<Longrightarrow> ready w \<Longrightarrow> accepts (committed w) sql \<Longrightarrow> mig_exec ops sql w = (ok, w') \<Longrightarrow>
      ok \<and> ready w' \<and> committed w' = committed w"
    and record_ok: "invar w \<Longrightarrow> ready w \<Longrightarrow> rows_ok (s_rows (committed w) @ s_rows (staged w) @ [(v, name)]) \<Longrightarrow>
      mig_record ops v name w = (ok, w') \<Longrightarrow> ok \<and> ready w' \<and> committed w' = committed w"
    and commit_ok: "invar w \<Longrightarrow> ready w \<Longrightarrow> in_step (staged w) \<Longrightarrow> mig_commit ops w = (ok, w') \<Longrightarrow>
      ok \<and> ready w' \<and> committed w' = schema_append (committed w) (staged w)"

context calm_schema_store
begin

lemma calm_version:
  assumes "invar w" "ready w"
  obtains w' where "SchemaVersion (Some ops) w =
      (case schema_version (committed w) of (count, current) \<Rightarrow>
         if count \<noteq> current then Inl [ErrInvalidSchemaVersion] else Inr current, w')"
    "invar w'" "ready w'" "committed w' = committed w"
proof -
  obtain ex w1 where ex: "mig_table_exists ops w = (ex, w1)" by (rule prod.exhaust)
  note e = exists_law [OF assms(1) ex] exists_ok [OF assms ex]
  then have inv1: "invar w1" by (auto intro: grows_invar)
  obtain cm w2 where cm: "mig_count_max ops w1 = (cm, w2)" by (rule prod.exhaust)
  note c = count_law [OF inv1 cm] count_ok [OF inv1 _ cm]
  show thesis
  proof (cases "ex = Some False")
    case True
    then show thesis using that [of w1] ex e inv1 by (simp add: SchemaVersion_def schema_version_def)
  next
    case False
    then have some: "ex = Some True" using e(2) by auto
    have cm2: "cm = Some (schema_version (committed w2))" "ready w2" "committed w2 = committed w" "invar w2"
      using c e(2) by (auto intro: grows_invar)
    then show thesis
      using that [of w2] by (cases "schema_version (committed w)") (simp add: SchemaVersion_def ex cm some)
  qed
qed

lemma calm_apply:
  assumes "invar w" "ready w" "accepts (committed w) (mig_sql m)"
    and "rows_ok (s_rows (committed w) @ [(mig_version m, mig_name m)])"
  obtains w' where "applyMigration ops m w = (Inr (), w')" "invar w'" "ready w'"
    "committed w' = schema_append (committed w) (schema_of [m])"
proof -
  obtain b1 w1 where s1: "mig_begin ops w = (b1, w1)" by (rule prod.exhaust)
  note l1 = begin_law [OF assms(1) s1] begin_ok [OF assms(1,2) s1]
  then have i1: "invar w1" by (auto intro: grows_invar)
  obtain b2 w2 where s2: "mig_exec ops (mig_sql m) w1 = (b2, w2)" by (rule prod.exhaust)
  note l2 = exec_law [OF i1 s2] exec_ok [OF i1 _ _ s2]
  then have i2: "invar w2" by (auto intro: grows_invar)
  obtain b3 w3 where s3: "mig_record ops (mig_version m) (mig_name m) w2 = (b3, w3)" by (rule prod.exhaust)
  note l3 = record_law [OF i2 s3] record_ok [OF i2 _ _ s3]
  then have i3: "invar w3" by (auto intro: grows_invar)
  obtain b4 w4 where s4: "mig_commit ops w3 = (b4, w4)" by (rule prod.exhaust)
  have ok2: "b1 \<and> b2 \<and> ready w2 \<and> committed w2 = committed w" using l1 l2(2) assms(3) by simp
  have "staged w2 = \<lparr>s_rows = [], s_scripts = [mig_sql m]\<rparr>" using ok2 l1(1) l2(1) by (simp add: no_schema_def)
  then have ok3: "b3 \<and> ready w3 \<and> committed w3 = committed w" and st: "staged w3 = schema_of [m]"
    using ok2 l3 assms(4) by (simp_all add: schema_of_def)
  have "in_step (staged w3)" unfolding st by (rule in_step_schema_of)
  note l4 = commit_law [OF i3 this s4] commit_ok [OF i3 _ this s4]
  show thesis
    using that [of w4] s1 s2 s3 s4 ok2 ok3 l4 st by (auto simp: applyMigration_def intro: grows_invar)
qed

text \<open>The loop skips what is recorded and applies the rest.\<close>

lemma skip_applied:
  "list_all (\<lambda>m. mig_version m \<le> current) ms \<Longrightarrow>
     applyMigrations ops current (ms @ ns) w = applyMigrations ops current ns w"
  by (induction ms) simp_all

lemma calm_applies:
  assumes "invar w" "ready w" "installable accepts (committed w) ms"
    and "sorted_wrt (<) (current # map mig_version ms)"
  shows "\<exists>w'. applyMigrations ops current ms w = (Inr (last (current # map mig_version ms)), w') \<and> invar w' \<and> ready w' \<and>
    committed w' = schema_append (committed w) (schema_of ms)"
  using assms
proof (induction ms arbitrary: w current)
  case Nil
  then show ?case by (simp add: schema_of_def schema_append_def)
next
  case (Cons m ms)
  then obtain w1 where step: "applyMigration ops m w = (Inr (), w1)" "invar w1" "ready w1"
      "committed w1 = schema_append (committed w) (schema_of [m])"
    by (auto intro: calm_apply [of w m])
  have "\<exists>w'. applyMigrations ops (mig_version m) ms w1 = (Inr (last (mig_version m # map mig_version ms)), w') \<and>
      invar w' \<and> ready w' \<and> committed w' = schema_append (committed w1) (schema_of ms)"
    using Cons.prems(3,4) step(4) by (intro Cons.IH step) simp_all
  then show ?case using step Cons.prems(4) by (auto simp: schema_append_def schema_of_def)
qed

lemma calm_migrate:
  assumes inv: "invar w" and calm: "calm w"
    and room: "has_room accepts directory (committed w)"
  shows "\<exists>w'. Migrate directory (Some ops) w = (fst (migrate_spec directory (committed w)), w') \<and>
    committed w' = snd (migrate_spec directory (committed w)) \<and> invar w' \<and> calm w'"
proof -
  obtain b w1 where s1: "mig_create_table ops w = (b, w1)" by (rule prod.exhaust)
  note l1 = create_law [OF inv s1] create_ok [OF inv calm s1]
  then have i1: "invar w1" by (auto intro: grows_invar)
  obtain count current where v: "schema_version (committed w) = (count, current)" by (rule prod.exhaust)
  obtain w2 where s2: "SchemaVersion (Some ops) w1 =
      (if count \<noteq> current then Inl [ErrInvalidSchemaVersion] else Inr current, w2)"
    and w2: "invar w2" "ready w2" "committed w2 = committed w"
    using calm_version [OF i1, of thesis] l1 v by auto
  show ?thesis
  proof (cases "\<exists>ms. count = current \<and> current \<le> LatestSchemaVersion \<and> loadMigrations directory = Inr ms")
    case False
    then show ?thesis
      using s1 s2 w2 l1 v ready_calm by (auto simp: Migrate_def migrate_spec_def split: sum.split)
  next
    case True
    then obtain ms where ms: "count = current" "current \<le> LatestSchemaVersion" "loadMigrations directory = Inr ms" by blast
    note lv = loaded_versions [OF ms(3)]
    have nonneg: "0 \<le> current" using v ms(1) by (auto simp: schema_version_def)
    let ?k = "nat current"
    have k: "?k \<le> length ms" using ms(2) lv(2) nonneg by simp
    have drops: "map mig_version (drop ?k ms) = map int [Suc ?k..<Suc (length ms)]"
      and takes: "map mig_version (take ?k ms) = map int [1..<Suc ?k]"
      using k by (simp_all add: lv(1) drop_map [symmetric] take_map [symmetric] del: upt_Suc)
        (simp_all add: drop_map take_map take_upt del: upt_Suc)
    have "list_all (\<lambda>m. mig_version m \<le> current) (take ?k ms)"
      using arg_cong [OF takes, of set] nonneg by (fastforce simp: list_all_iff)
    then have skip: "applyMigrations ops current ms w2 = applyMigrations ops current (drop ?k ms) w2"
      using skip_applied [of current "take ?k ms" "drop ?k ms"] by simp
    have sorted: "sorted_wrt (<) (current # map mig_version (drop ?k ms))"
      unfolding drops using nonneg by (auto simp: sorted_wrt_map simp del: upt_Suc)
    have last: "last (current # map mig_version (drop ?k ms)) = LatestSchemaVersion"
      unfolding drops using nonneg lv(2) k by (cases "?k = length ms") (simp_all add: last_map)
    obtain w3 where "applyMigrations ops current (drop ?k ms) w2 = (Inr LatestSchemaVersion, w3)" "invar w3" "ready w3"
        "committed w3 = schema_append (committed w2) (schema_of (drop ?k ms))"
      using calm_applies [OF w2(1,2) _ sorted] room ms(3) v w2(3) last by (auto simp: has_room_def)
    then show ?thesis
      using s1 s2 w2 l1 v ms skip ready_calm by (simp add: Migrate_def migrate_spec_def)
  qed
qed

lemma calm_migrate_again:
  assumes "invar w" "calm w"
    and room: "has_room accepts directory (committed w)"
    and first: "Migrate directory (Some ops) w = (Inr (), w')"
  shows "\<exists>w''. Migrate directory (Some ops) w' = (Inr (), w'') \<and> committed w'' = committed w'"
proof -
  have spec: "fst (migrate_spec directory (committed w)) = Inr ()" "committed w' = snd (migrate_spec directory (committed w))"
    and w': "invar w'" "calm w'"
    using calm_migrate [OF assms(1,2) room] first by auto
  note again = migrate_spec_again [OF spec(1)]
  have "\<exists>w''. Migrate directory (Some ops) w' = (fst (migrate_spec directory (committed w')), w'') \<and>
      committed w'' = snd (migrate_spec directory (committed w')) \<and> invar w'' \<and> calm w''"
    using again(2) by (intro calm_migrate [OF w']) (simp add: spec(2))
  then show ?thesis using again(1) spec(2) by auto
qed

end

section \<open>The laws hold for the modelled database\<close>

interpretation calm: calm_schema_store world_ops schema_invar sw_committed sw_staged
  "\<lambda>w. sw_script w = []" "\<lambda>w. sw_script w = [] \<and> sw_table w" "\<lambda>s sql. sql \<notin> set (s_scripts s)"
  by unfold_locales
    (auto simp: world_ops_def mig_tick_def Let_def schema_append_def split: if_splits)

end
