(* ===== verification/LedgerProperties.thy ===== *)
theory LedgerProperties
  imports Scenario LedgerHistory StoredRows MigrationProgress
begin

text \<open>
  The properties of the storage layer: the ledger on any store that keeps the laws of \<open>sql_store\<close>,
  its refinement of the abstract map, the round trips of what it stores, the constraints of the
  schema, and the migrations.
\<close>

section \<open>The ledger on any store\<close>

text \<open>
  C4. Whatever other connections commit in between and whichever statements fail, all successful
  answers of the ledger for one request, to lookups and to commits, are the same decision record. The
  commits are well-formed, which includes that their times lie in the years 0 to 9999.
\<close>

theorem ledger_answers_agree:
  assumes "sql_store ops invar committed staged" "invar w" "list_all wf_call calls"
    and "run_calls (Some ops) calls w = (results, w')"
    and "(call1, Inr rec1) \<in> set results" "(call2, Inr rec2) \<in> set results" "call_key call1 = call_key call2"
  shows "rec1 = rec2"
  by (rule sql_store.history_agreement [OF assms])

lemma sc_history:
  "run_calls (Some table_ops) [CommitCall sc_commit, GetCall ''runtime-1'' ''request-1''] sc_db =
     ([(CommitCall sc_commit, Inr sc_record), (GetCall ''runtime-1'' ''request-1'', Inr sc_record)], sc_stored)"
  using sc_commits sc_reads(1) by (simp add: sc_stored_evaluation_def)

lemma sc_keys: "commit_RuntimeID sc_commit = ''runtime-1''" "commit_RequestID sc_commit = ''request-1''"
  "commit_ActionDigest sc_commit = sc_digest" "TrimSpace ''runtime-1'' = ''runtime-1''" "TrimSpace ''request-1'' = ''request-1''"
  by (simp_all add: sc_commit_def wf_identifier_TrimSpace)

theorem ledger_answers_agree_witness:
  "\<exists>r1 r2. map snd (fst (run_calls (Some table_ops) [CommitCall sc_commit, GetCall ''runtime-1'' ''request-1''] sc_db)) =
     [Inr r1, Inr r2] \<and> r1 = r2"
proof (intro exI conjI)
  show "map snd (fst (run_calls (Some table_ops) [CommitCall sc_commit, GetCall ''runtime-1'' ''request-1''] sc_db)) =
     [Inr sc_record, Inr sc_record]" by (simp only: sc_history) simp
  show "sc_record = sc_record"
    by (rule ledger_answers_agree [OF table.sql_store_axioms sc_at_rest(3) _ sc_history,
          of "CommitCall sc_commit" _ "GetCall ''runtime-1'' ''request-1''"]) (simp_all add: sc_wf_commit sc_keys)
qed

text \<open>
  C25. Calls on the ledger never remove a committed row, and every committed request keeps having
  exactly its decision: an evaluation is stored as a whole or not at all.
\<close>

theorem ledger_stays_complete:
  assumes "sql_store ops invar committed staged" "invar w" "list_all wf_call calls"
    and "run_calls (Some ops) calls w = (results, w')" "complete (committed w)"
  shows "complete (committed w') \<and> tables_le (committed w) (committed w') \<and> unique_keys (committed w')"
  using sql_store.history_bound [OF assms(1-4)] sql_store.invar_unique [OF assms(1)] assms(5)
  by (auto simp: evolves_def)

theorem ledger_stays_complete_witness:
  "complete (db_committed sc_db) \<and>
   complete (db_committed (snd (run_calls (Some table_ops) [CommitCall sc_commit, GetCall ''runtime-1'' ''request-1''] sc_db)))"
proof
  show empty: "complete (db_committed sc_db)" by (simp add: sc_db_def no_rows_def complete_def)
  show "complete (db_committed (snd (run_calls (Some table_ops) [CommitCall sc_commit, GetCall ''runtime-1'' ''request-1''] sc_db)))"
    using ledger_stays_complete [OF table.sql_store_axioms sc_at_rest(3) _ sc_history empty] sc_wf_commit
    by (simp add: sc_history del: run_calls.simps)
qed

text \<open>
  C26. A request that is bound to a record is never rebound, on any store and whatever fails: after
  any further commit under its identifier the binding is the same, and the commit succeeds only with
  the bound record and only for an action of the same digest. When the evaluation can be encoded and
  the ledger's lookup answers, the commit is decided by that lookup alone: the bound record for the
  same digest, \<^verbatim>\<open>ErrRequestIDConflict\<close> for another one.
\<close>

theorem bound_request_is_final:
  assumes "sql_store ops invar committed staged" "invar w" "wf_commit c"
    and "bound (committed w) (commit_RuntimeID c) (commit_RequestID c) rec"
    and "CommitEvaluation (Some ops) c w = (res, w')"
  shows "bound (committed w') (commit_RuntimeID c) (commit_RequestID c) rec \<and>
    (\<forall>rec'. res = Inr rec' \<longrightarrow> rec' = rec \<and> record_ActionDigest rec = commit_ActionDigest c) \<and>
    (\<forall>e ev w1. encodeEvaluation c = Inr e \<and>
       GetEvaluationByRequestID (Some ops) (commit_RuntimeID c) (commit_RequestID c) w = (Inr ev, w1) \<longrightarrow>
       w' = w1 \<and> res = (if record_ActionDigest rec = commit_ActionDigest c then Inr rec
                         else Inl [Application ErrRequestIDConflict]))"
  using sql_store.bound_commit [OF assms] by blast

text \<open>
  Another action under the identifier of the stored one: the same deletion of a larger payload. Its commit
  can be encoded and is compared with the stored record; the digests are kept as values of
  \<^verbatim>\<open>ComputeActionDigest\<close>, and are the same only if SHA-256 collides on the two canonical texts.
\<close>

definition sc_other_action :: ProposedAction where
  "sc_other_action = sc_action\<lparr>action_payload := (action_payload sc_action)\<lparr>payload_sizeBytes := Some 8\<rparr>\<rparr>"

definition sc_other_commit :: EvaluationCommit where
  "sc_other_commit = sc_commit\<lparr>commit_Action := sc_other_action, commit_DecisionID := ''decision_1'',
     commit_ActionDigest := projr (ComputeActionDigest sc_other_action)\<rparr>"

lemma sc_other_action_ok: "wf_action sc_other_action" "utf8_action sc_other_action"
  using sc_action_wf sc_action_utf8
  by (simp_all add: sc_other_action_def sc_action_def wf_action_def utf8_action_def wf_payload_def utf8_payload_def
      action_type_defs)

lemma sc_other_commit_ok: "wf_commit sc_other_commit" "is_ok (encodeEvaluation sc_other_commit)"
proof -
  show "wf_commit sc_other_commit"
    using sc_wf_commit sc_other_action_ok by (simp add: wf_commit_def sc_other_commit_def)
      (simp add: sc_other_action_def sc_commit_def)
  obtain bytes where bytes: "CanonicalActionBytes sc_other_action = Inr bytes"
    using CanonicalActionBytes_wf [OF sc_other_action_ok(1)] by blast
  have "ComputeActionDigest sc_other_action = Inr (projr (ComputeActionDigest sc_other_action))"
    using bytes by (simp add: ComputeActionDigest_def)
  then have "encodeEvaluation sc_other_commit = Inr (sc_encoded\<lparr>enc_actionJSON := bytes\<rparr>)"
    using sc_encode(1) bytes unfolding encodeEvaluation_Inr_iff
    by (simp add: sc_other_commit_def TrimSpace_ascii encodeEffects_def) (simp add: sc_other_action_def sc_commit_def)
  then show "is_ok (encodeEvaluation sc_other_commit)" by (simp add: is_ok_iff)
qed

lemma sc_stored_invar: "table_invar sc_stored"
  using table.history_bound [OF sc_at_rest(3) _ sc_history] sc_wf_commit by (simp add: evolves_def)

theorem bound_request_is_final_witness:
  "sc_other_action \<noteq> sc_action \<and>
   CommitEvaluation (Some table_ops) sc_other_commit sc_stored =
     (if ComputeActionDigest sc_action = ComputeActionDigest sc_other_action then Inr sc_record
      else Inl [Application ErrRequestIDConflict], sc_stored) \<and>
   bound (db_committed sc_stored) ''runtime-1'' ''request-1'' sc_record"
proof -
  obtain res w' where commit: "CommitEvaluation (Some table_ops) sc_other_commit sc_stored = (res, w')" by (rule prod.exhaust)
  obtain e where e: "encodeEvaluation sc_other_commit = Inr e" using sc_other_commit_ok(2) by (auto simp: is_ok_iff)
  have keys: "commit_RuntimeID sc_other_commit = ''runtime-1''" "commit_RequestID sc_other_commit = ''request-1''"
    by (simp_all add: sc_other_commit_def sc_commit_def)
  have "ComputeActionDigest sc_other_action = Inr (commit_ActionDigest sc_other_commit)"
    using e by (simp add: encodeEvaluation_Inr_iff) (simp add: sc_other_commit_def)
  then have same: "ComputeActionDigest sc_action = ComputeActionDigest sc_other_action \<longleftrightarrow>
      record_ActionDigest sc_record = commit_ActionDigest sc_other_commit"
    using sc_digest by (simp add: sc_record_def decisionRecordFromCommit_def sc_commit_def)
  have bound: "bound (db_committed sc_stored) (commit_RuntimeID sc_other_commit) (commit_RequestID sc_other_commit) sc_record"
    using sc_bound by (simp only: keys)
  have get: "GetEvaluationByRequestID (Some table_ops) (commit_RuntimeID sc_other_commit) (commit_RequestID sc_other_commit)
      sc_stored = (Inr sc_stored_evaluation, sc_stored)"
    using sc_reads(1) by (simp only: keys)
  have "w' = sc_stored \<and> res = (if record_ActionDigest sc_record = commit_ActionDigest sc_other_commit then Inr sc_record
      else Inl [Application ErrRequestIDConflict])"
    using bound_request_is_final [OF table.sql_store_axioms sc_stored_invar sc_other_commit_ok(1) bound commit] e get by blast
  moreover have "sc_other_action \<noteq> sc_action" by (simp add: sc_other_action_def sc_action_def)
  ultimately show ?thesis using commit sc_bound by (simp only: same) simp
qed

section \<open>Refinement of the abstract ledger\<close>

text \<open>
  C5. On a store at rest, committing an evaluation is put-if-absent on the map from requests to
  decision records: the same answer, conflicts included, and the same map afterwards. The commit is
  well-formed, with times in the years 0 to 9999, the stored rows can be read, and a new commit meets
  the constraints of the tables.
\<close>

theorem commit_refines_map:
  assumes "wf_commit c" "encodeEvaluation c = Inr e" "at_rest w" "readable (db_committed w)"
    and "ledger_of (db_committed w) (commit_RuntimeID c, commit_RequestID c) = None \<Longrightarrow> admissible w c e"
  shows "\<exists>w'. CommitEvaluation (Some table_ops) c w = (fst (commit_spec c (ledger_of (db_committed w))), w') \<and>
    ledger_of (db_committed w') = snd (commit_spec c (ledger_of (db_committed w))) \<and> at_rest w'"
  by (rule commit_refines [OF assms])

theorem commit_refines_map_witness:
  "\<exists>w'. CommitEvaluation (Some table_ops) sc_commit sc_db = (fst (commit_spec sc_commit (ledger_of (db_committed sc_db))), w') \<and>
    ledger_of (db_committed w') = snd (commit_spec sc_commit (ledger_of (db_committed sc_db))) \<and> at_rest w'"
  by (rule commit_refines_map [OF sc_wf_commit sc_encode(1) sc_at_rest(1,4) sc_admissible])

text \<open>
  C6. On a fresh database that nothing disturbs, the ledger answers every sequence of lookups and
  commits as a map from requests to evaluations does that only the commits write, put-if-absent with
  a conflict check: the same answers, and afterwards every lookup returns the whole evaluation of the
  map, the action included, or \<^verbatim>\<open>ErrEvaluationNotFound\<close>. The commits of the sequence have to be
  well-formed, encodable and free of NUL, with requested times in the years 0 to 9999, and two
  requests may not share a decision identifier, an effect identifier or an idempotency key.
\<close>

theorem ledger_implements_map:
  assumes "at_rest w" "db_committed w = no_rows" "sound_calls calls"
  shows "\<exists>w'. run_calls (Some table_ops) calls w = (fst (calls_spec calls Map.empty), w') \<and>
    (\<forall>r q. GetEvaluationByRequestID (Some table_ops) r q w' = (get_spec r q (snd (calls_spec calls Map.empty)), w'))"
  by (rule history_refines [OF assms])

definition sc_calls :: "ledger_call list" where
  "sc_calls = [GetCall ''runtime-1'' ''request-1'', CommitCall sc_commit, GetCall ''runtime-1'' ''request-1'']"

lemma sc_sound_calls: "sound_calls sc_calls"
  using sc_wf_commit sc_encode(1) sc_nul_free
  by (simp add: sound_calls_def sc_calls_def sound_commit_def is_ok_iff unrelated_def) (simp add: sc_commit_def)

theorem ledger_implements_map_witness:
  "map snd (fst (run_calls (Some table_ops) sc_calls sc_db)) =
     [Inl [Application ErrEvaluationNotFound], Inr sc_record, Inr sc_record] \<and>
   GetEvaluationByRequestID (Some table_ops) ''runtime-1'' ''request-1'' (snd (run_calls (Some table_ops) sc_calls sc_db)) =
     (Inr sc_stored_evaluation, snd (run_calls (Some table_ops) sc_calls sc_db))"
proof -
  have ev: "evaluation_of sc_commit = sc_stored_evaluation"
    by (simp add: evaluation_of_def sc_stored_evaluation_def sc_record_def decisionRecordFromCommit_def sc_keys)
      (simp add: sc_commit_def)
  have spec: "calls_spec sc_calls Map.empty =
      ([(GetCall ''runtime-1'' ''request-1'', Inl [Application ErrEvaluationNotFound]), (CommitCall sc_commit, Inr sc_record),
        (GetCall ''runtime-1'' ''request-1'', Inr sc_record)], [(''runtime-1'', ''request-1'') \<mapsto> sc_stored_evaluation])"
    by (simp add: sc_calls_def get_spec_def sc_keys commit_key_def ev) (simp add: sc_stored_evaluation_def)
  have "db_committed sc_db = no_rows" by (simp add: sc_db_def)
  from ledger_implements_map [OF sc_at_rest(1) this sc_sound_calls] show ?thesis
    unfolding spec by (auto simp: get_spec_def sc_keys)
qed

text \<open>
  C27. When no statement fails, or only the acknowledgement of the final commit is lost, committing a
  new admissible evaluation returns its record and stores exactly its rows.
\<close>

theorem commit_survives_lost_acknowledgement:
  assumes "wf_commit c" "encodeEvaluation c = Inr e" "admissible w c e"
    and "db_script w = replicate (4 + length (enc_effects e)) Quiet @ last_event # Quiet # s"
    and "last_event = Quiet \<or> last_event = LostAck"
  shows "\<exists>w'. CommitEvaluation (Some table_ops) c w = (Inr (decisionRecordFromCommit c), w') \<and>
    db_committed w' = add_rows (db_committed w) (commit_rows c e)"
proof (cases "last_event = Quiet")
  case True
  then have "quiet_for (5 + length (enc_effects e)) w"
    using assms(4) by (simp add: quiet_for_def list_all_iff numeral_eq_Suc)
  then show ?thesis using quiet_commit [OF wf_commit_storable [OF assms(1)] assms(2,3)] by simp
next
  case False
  then have "db_script w = replicate (4 + length (enc_effects e)) Quiet @ LostAck # Quiet # s" using assms(4,5) by simp
  then show ?thesis using lost_acknowledgement_commit [OF assms(1-3)] by simp
qed

definition sc_faulty_db :: sqlite_world where
  "sc_faulty_db = sc_db\<lparr>db_script := replicate 4 Quiet @ [LostAck, Quiet]\<rparr>"

theorem commit_survives_lost_acknowledgement_witness:
  "\<exists>w'. CommitEvaluation (Some table_ops) sc_commit sc_faulty_db = (Inr sc_record, w') \<and>
    db_committed w' = db_committed sc_stored"
proof -
  have "admissible sc_faulty_db sc_commit sc_encoded" using sc_admissible by (simp add: admissible_def sc_faulty_db_def)
  then have "\<exists>w'. CommitEvaluation (Some table_ops) sc_commit sc_faulty_db = (Inr (decisionRecordFromCommit sc_commit), w') \<and>
    db_committed w' = add_rows (db_committed sc_faulty_db) (commit_rows sc_commit sc_encoded)"
    by (rule commit_survives_lost_acknowledgement [OF sc_wf_commit sc_encode(1), where last_event = LostAck and s = "[]"])
      (simp_all add: sc_encode(2) sc_faulty_db_def)
  then show ?thesis by (simp add: sc_record_def sc_stored_def sc_faulty_db_def sc_db_def)
qed

section \<open>What is stored\<close>

text \<open>
  C24. Decoding the row of a committed evaluation gives back the action, the decision, the digest, the
  matched rules and the time of the commit, for a well-formed commit, whose times lie in the years 0
  to 9999.
\<close>

theorem stored_evaluation_roundtrip:
  assumes "wf_commit c" "encodeEvaluation c = Inr e"
  shows "reconstruct (commit_RuntimeID c) (commit_RequestID c) (committed_row c e) =
    Inr \<lparr>stored_RuntimeID = commit_RuntimeID c, stored_RequestID = commit_RequestID c,
         stored_Action = commit_Action c, stored_Decision = decisionRecordFromCommit c\<rparr>"
  by (rule reconstruct_committed_row [OF assms])

theorem stored_evaluation_roundtrip_witness:
  "reconstruct ''runtime-1'' ''request-1'' (committed_row sc_commit sc_encoded) = Inr sc_stored_evaluation"
  using stored_evaluation_roundtrip [OF sc_wf_commit sc_encode(1)]
  by (simp add: sc_keys sc_stored_evaluation_def sc_record_def) (simp add: sc_commit_def)

text \<open>
  C28. Whatever rows the database returns, corrupted ones included, a lookup that succeeds returns a
  consistent evaluation of the request that was asked for: an action in normal form, the digest of
  that very action, a decision that satisfies its invariant and a time in UTC. Every other row is
  reported as a ledger failure.
\<close>

theorem found_evaluation_is_consistent:
  assumes "GetEvaluationByRequestID ledger r q w = (res, w')"
  shows "case res of
      Inr ev \<Rightarrow> wf_action (stored_Action ev) \<and>
        ComputeActionDigest (stored_Action ev) = Inr (record_ActionDigest (stored_Decision ev)) \<and>
        wf_decision (record_Decision (stored_Decision ev)) \<and> utc_time (record_EvaluatedAt (stored_Decision ev)) \<and>
        stored_RuntimeID ev = TrimSpace r \<and> stored_RequestID ev = TrimSpace q \<and>
        stored_RuntimeID ev \<noteq> [] \<and> stored_RequestID ev \<noteq> []
    | Inl e \<Rightarrow> e \<in> {[Application ErrInvalidInput], [Application ErrEvaluationNotFound], [Application ErrLedgerFailure]}"
  using assms get_consistent [of ledger r q w] get_error [of ledger r q w] by (auto simp: consistent_def split: sum.split)

theorem found_evaluation_is_consistent_witness:
  "GetEvaluationByRequestID (Some table_ops) ''runtime-1'' ''request-1'' sc_stored = (Inr sc_stored_evaluation, sc_stored) \<and>
   ComputeActionDigest (stored_Action sc_stored_evaluation) = Inr (record_ActionDigest (stored_Decision sc_stored_evaluation))"
  using found_evaluation_is_consistent [OF sc_reads(1)] sc_reads(1) by simp

text \<open>
  C29. Every row the ledger writes satisfies the \<^verbatim>\<open>CHECK\<close> constraints of its table, provided that the
  identifiers contain no NUL and the texts are UTF-8.
\<close>

theorem rows_satisfy_constraints:
  assumes "storable c" "encodeEvaluation c = Inr e" "nul_free c" "list_all utf8_effect (commit_Effects c)"
  shows "action_checks (commit_action_row c e) \<and> decision_checks (commit_decision_row c e) \<and>
    list_all (\<lambda>f. effect_checks (effect_row c f)) (enc_effects e)"
proof (intro conjI)
  show "action_checks (commit_action_row c e)" "decision_checks (commit_decision_row c e)"
    by (rule action_row_checks [OF assms(1-3)], rule decision_row_checks [OF assms(1-3)])
  have "list_all (\<lambda>i. CHR 0x00 \<notin> set (EffectID i)) (commit_Effects c)"
    using assms(3) by (simp add: nul_free_def list_all_iff)
  then show "list_all (\<lambda>f. effect_checks (effect_row c f)) (enc_effects e)"
    using effect_row_checks [OF _ assms(4)] assms(2) unfolding list_all_iff encodeEvaluation_Inr_iff encodeEffects_def
    by blast
qed

theorem rows_satisfy_constraints_witness:
  "action_checks (commit_action_row sc_commit sc_encoded) \<and> decision_checks (commit_decision_row sc_commit sc_encoded) \<and>
   list_all (\<lambda>f. effect_checks (effect_row sc_commit f)) (enc_effects sc_encoded)"
  by (rule rows_satisfy_constraints [OF sc_storable sc_encode(1) sc_nul_free]) (simp add: sc_commit_def)

section \<open>Migrations\<close>

text \<open>
  C33. Whatever fails and whatever other processes migrate, opening the database keeps the scripts that
  have been run in step with the version records and undoes none; a database it returns is the
  one the driver opened and has the latest version recorded.
\<close>

theorem opening_is_atomic:
  assumes "database_driver ops invar committed staged sql_Open Ping Close" "invar w" "in_step (committed w)"
    and "Open Abs sql_Open Ping Close directory path w = (res, w')"
  shows "in_step (committed w') \<and> schema_le (committed w) (committed w') \<and>
    (\<forall>database. res = Inr database \<longrightarrow> database = ops \<and> LatestSchemaVersion \<in> fst ` set (s_rows (committed w')))"
  using database_driver.open_sound [OF assms(1,2,4)] assms(3) by (simp add: grows_def)

lemma empty_database_ok: "schema_invar empty_database" "in_step (sw_committed empty_database)"
  by (simp_all add: empty_database_def schema_invar_def no_schema_def schema_append_def rows_ok_def in_step_def)

lemma open_empty:
  "Open Inr world_Open world_Ping world_Close (embedded_directory ''CREATE TABLE t (x)'') ''/data'' empty_database =
     (Inr world_ops, migrated_database ''CREATE TABLE t (x)'')"
proof -
  have "TrimSpace ''/data'' = ''/data''" by (simp add: TrimSpace_ascii)
  moreover have "mig_tick empty_database = (True, empty_database)" by (simp add: mig_tick_def empty_database_def)
  ultimately show ?thesis
    using migrate_empty [of "''CREATE TABLE t (x)''"] by (simp add: Open_def Let_def world_Open_def world_Ping_def)
qed

theorem opening_is_atomic_witness:
  "in_step (sw_committed (migrated_database ''CREATE TABLE t (x)'')) \<and>
   LatestSchemaVersion \<in> fst ` set (s_rows (sw_committed (migrated_database ''CREATE TABLE t (x)'')))"
  using opening_is_atomic [OF driver.database_driver_axioms empty_database_ok open_empty] by blast

text \<open>
  C34. On any database that nothing disturbs, whatever its recorded history and whatever the directory
  holds, \<^verbatim>\<open>Migrate\<close> refuses a history with gaps or from a newer program with
  \<^verbatim>\<open>ErrInvalidSchemaVersion\<close> and an unusable directory with its error, without a change; otherwise it
  succeeds, runs and records exactly the migrations the history lacks, in the order of their versions,
  and migrating once more changes nothing. The missing scripts have to be ones the database accepts,
  and their version records have to fit beside the recorded ones.
\<close>

theorem migration_runs_what_is_missing:
  assumes "calm_schema_store ops invar committed staged calm ready accepts" "invar w" "calm w"
    and "has_room accepts directory (committed w)"
    and "Migrate directory (Some ops) w = (res, w')"
  shows "(res, committed w') = migrate_spec directory (committed w) \<and>
    (res = Inr () \<longrightarrow> (\<exists>w''. Migrate directory (Some ops) w' = (Inr (), w'') \<and> committed w'' = committed w'))"
  using calm_schema_store.calm_migrate [OF assms(1-4)] calm_schema_store.calm_migrate_again [OF assms(1-4)] assms(5)
  by (auto simp: prod_eq_iff)

theorem migration_runs_what_is_missing_witness:
  "(Inr (), sw_committed (migrated_database ''CREATE TABLE t (x)'')) =
     migrate_spec (embedded_directory ''CREATE TABLE t (x)'') no_schema \<and>
   (\<exists>w''. Migrate (embedded_directory ''CREATE TABLE t (x)'') (Some world_ops) (migrated_database ''CREATE TABLE t (x)'') =
     (Inr (), w'') \<and> sw_committed w'' = sw_committed (migrated_database ''CREATE TABLE t (x)''))"
proof -
  let ?sql = "''CREATE TABLE t (x)''"
  have nonblank: "sql_nonblank ''0001_minimal_ledger.sql''" by (rule sql_nonblank_hd) simp_all
  have "has_room (\<lambda>s sql. sql \<notin> set (s_scripts s)) (embedded_directory ?sql) (sw_committed empty_database)"
    using nonblank by (simp add: has_room_def load_embedded empty_database_def no_schema_def schema_version_def rows_ok_def)
  moreover have "sw_script empty_database = []" "sw_committed empty_database = no_schema"
    by (simp_all add: empty_database_def)
  ultimately show ?thesis
    using migration_runs_what_is_missing [OF calm.calm_schema_store_axioms empty_database_ok(1) _ _ migrate_empty [of ?sql]]
    by auto
qed

end
