(* ===== verification/Lifecycle.thy ===== *)
theory Lifecycle
  imports Process
begin

text \<open>
  The life of the process: \<^verbatim>\<open>main\<close> and the whole of \<^verbatim>\<open>run\<close>, from the construction of the parts to the HTTP
  server and its shutdown, and that the deferred calls release what was acquired. What the server does with the address
  and the handler is a parameter; the outcome is the branch that the \<^verbatim>\<open>select\<close> statement takes.
\<close>

section \<open>Serving\<close>

text \<open>
  The outcomes of the \<^verbatim>\<open>select\<close>: the server stopped by itself, with \<^verbatim>\<open>http.ErrServerClosed\<close> or with another
  error, or a signal arrived and \<^verbatim>\<open>Shutdown\<close> returned.
\<close>

datatype serving = ServerClosed | ServerFailed goerr | Interrupted "unit res"

definition serve_until_end :: "(string \<Rightarrow> 'db routes \<Rightarrow> serving) \<Rightarrow> string \<Rightarrow> 'db routes \<Rightarrow> unit traced" where
  "serve_until_end server addr handler =
     deferring [Acquire SignalContext, Listening addr] [Release SignalContext]
       (case server addr handler of
          ServerClosed \<Rightarrow> (Inr (), [])
        | ServerFailed e \<Rightarrow> (Inl e, [])
        | Interrupted r \<Rightarrow> deferring [Acquire ShutdownContext] [Release ShutdownContext] (r, [ShuttingDown]))"

section \<open>The whole of run\<close>

text \<open>The construction of the parts (\<open>construct_process\<close>), then serving; \<open>server\<close> is what becomes of serving.\<close>

definition run ::
    "(string \<Rightarrow> string) \<Rightarrow> (string \<Rightarrow> 'db process_state rpc_client option res) \<Rightarrow> (string \<Rightarrow> unit res) \<Rightarrow>
     (string \<Rightarrow> 'db SqlOps res) \<Rightarrow> (string \<Rightarrow> 'db routes \<Rightarrow> serving) \<Rightarrow> unit traced" where
  "run Getenv NewClient MkdirAll OpenDatabase server =
     construct_process Getenv NewClient MkdirAll OpenDatabase (serve_until_end server)"

definition main :: "unit traced \<Rightarrow> int" where
  "main outcome = (case fst outcome of Inl _ \<Rightarrow> 1 | Inr _ \<Rightarrow> 0)"

section \<open>Resources are released\<close>

text \<open>
  The discipline of a trace: a resource is acquired at most once at a time, released in reverse order,
  and the database is open while the server listens and shuts down.
\<close>

fun disciplined :: "resource list \<Rightarrow> lifecycle_event list \<Rightarrow> resource list option" where
  "disciplined held [] = Some held"
| "disciplined held (Acquire r # es) = (if r \<in> set held then None else disciplined (r # held) es)"
| "disciplined held (Release r # es) =
     (case held of [] \<Rightarrow> None | q # qs \<Rightarrow> if q = r then disciplined qs es else None)"
| "disciplined held (Listening _ # es) = (if Database \<in> set held then disciplined held es else None)"
| "disciplined held (ShuttingDown # es) = (if Database \<in> set held then disciplined held es else None)"

lemma disciplined_append:
  "disciplined held (xs @ ys) = Option.bind (disciplined held xs) (\<lambda>held'. disciplined held' ys)"
  by (induction held xs rule: disciplined.induct) (auto split: list.splits)

lemma disciplined_deferring:
  assumes "disciplined held before = Some inner" "disciplined inner (snd body) = Some inner" "disciplined inner after = Some held"
  shows "disciplined held (snd (deferring before after body)) = Some held"
  using assms by (simp add: deferring_def disciplined_append)

lemma disciplined_bind:
  "(\<And>x. r = Inr x \<Longrightarrow> disciplined held (snd (f x)) = Some held) \<Longrightarrow> disciplined held (snd (traced_bind r f)) = Some held"
  by (cases r) (simp_all add: traced_bind_def)

lemma serve_disciplined:
  assumes "Database \<in> set held" "SignalContext \<notin> set held" "ShutdownContext \<notin> set held"
  shows "disciplined held (snd (serve_until_end server addr handler)) = Some held"
  unfolding serve_until_end_def using assms
  by (intro disciplined_deferring [where inner = "SignalContext # held"])
    (auto split: serving.split simp: deferring_def)

text \<open>The two shapes of a configured policy: nothing to close, or an open connection to close.\<close>

lemma configure_policy_events:
  "configure_policy Getenv NewClient = (r, events) \<Longrightarrow>
     (case r of
        Inl _ \<Rightarrow> disciplined [] events = Some []
      | Inr (_, closing) \<Rightarrow> events = [] \<and> closing = [] \<or>
          events = [Acquire PolicyConnection] \<and> closing = [Release PolicyConnection])"
  by (auto simp: configure_policy_def connect_policy_def Let_def traced_bind_def split: if_splits sum.splits)

lemma run_disciplined: "disciplined [] (snd (run Getenv NewClient MkdirAll OpenDatabase server)) = Some []"
proof -
  obtain r events where policy: "configure_policy Getenv NewClient = (r, events)" by (rule prod.exhaust)
  note shape = configure_policy_events [OF policy]
  show ?thesis
  proof (cases r)
    case (Inl e)
    then show ?thesis using shape policy by (simp add: run_def construct_process_def Let_def disciplined_bind)
  next
    case (Inr p)
    then obtain evaluator closing where p: "p = (evaluator, closing)" by fastforce
    obtain held where held: "disciplined [] events = Some held" "disciplined held closing = Some []" "set held \<subseteq> {PolicyConnection}"
      using shape Inr p by auto
    then have apart: "Database \<notin> set held" "SignalContext \<notin> set held" "ShutdownContext \<notin> set held" by auto
    have served: "disciplined (Database # held) (snd (serve_until_end server addr handler)) = Some (Database # held)" for addr handler
      using apart by (intro serve_disciplined) simp_all
    show ?thesis
      unfolding run_def construct_process_def Let_def policy Inr p prod.case sum.case
      by (intro disciplined_bind disciplined_deferring [where inner = held and held = "[]"]
          disciplined_deferring [where inner = "Database # held" and held = held] served held(1,2))
        (use apart in simp_all)
  qed
qed

text \<open>What \<^verbatim>\<open>run\<close> returns: the failure of the construction, or how serving ended.\<close>

definition server_result :: "serving \<Rightarrow> unit res" where
  "server_result outcome = (case outcome of ServerClosed \<Rightarrow> Inr () | ServerFailed e \<Rightarrow> Inl e | Interrupted r \<Rightarrow> r)"

lemma run_result:
  "fst (run Getenv NewClient MkdirAll OpenDatabase server) =
     res_bind (run_configure Getenv NewClient MkdirAll OpenDatabase) (\<lambda>(addr, handler). server_result (server addr handler))"
proof -
  have serve: "fst (serve_until_end server addr handler) = server_result (server addr handler)" for addr handler
    by (simp add: serve_until_end_def fst_traced server_result_def split: serving.split)
  have assoc: "res_bind (res_bind r f) g = res_bind r (\<lambda>x. res_bind (f x) g)" for r :: "'x res" and f :: "'x \<Rightarrow> 'y res" and g :: "'y \<Rightarrow> 'z res"
    by (cases r) (simp_all add: res_simps)
  show ?thesis by (simp add: run_def run_configure_def construct_process_result serve Let_def assoc)
qed

end
