(* ===== verification/CommandText.thy ===== *)
theory CommandText
  imports HttpApi
begin

text \<open>
  Every text of a decoded command, not only those that reach the canonical bytes: the request
  identifier, the types, the scopes and modes, the digest of the payload and the kinds of principals
  and evidence. All of them are valid UTF-8, whatever bytes the body held.
\<close>

fun utf8_parameters_text :: "ActionParametersInput \<Rightarrow> bool" where
  "utf8_parameters_text (ExternalSendInput v) \<longleftrightarrow> utf8_send v"
| "utf8_parameters_text (UpdateResourceAccessInput v) \<longleftrightarrow> utf8_access v"
| "utf8_parameters_text (DeleteInput v) \<longleftrightarrow> valid_utf8 (delete_mode v)"
| "utf8_parameters_text (ParametersPointer typ) \<longleftrightarrow> pred_option valid_utf8 typ"

definition utf8_action_input :: "ProposedActionInput \<Rightarrow> bool" where
  "utf8_action_input i \<longleftrightarrow>
     valid_utf8 (input_Type i) \<and> utf8_actor (input_Actor i) \<and> utf8_delegation (input_Delegation i) \<and>
     utf8_target (input_Target i) \<and> pred_option utf8_parameters_text (input_Parameters i) \<and>
     utf8_payload (input_Payload i) \<and> list_all utf8_evidence (input_Evidence i)"

definition utf8_command :: "EvaluateActionCommand \<Rightarrow> bool" where
  "utf8_command c \<longleftrightarrow> valid_utf8 (command_RequestID c) \<and> utf8_action_input (command_ProposedAction c)"

lemma decodes_delete: "decodes (\<lambda>v. valid_utf8 (delete_mode v)) (dec_delete strict)"
  unfolding dec_delete_def
  by (rule decodes_struct, simp only: list.pred_inject, intro conjI TrueI)
    (rule field_rules decodes_field [OF decodes_True], simp_all)+

lemma toPrincipalInput_same: "toPrincipalInput p = Inr q \<Longrightarrow> q = p"
  by (auto simp: toPrincipalInput_def ParsePrincipalType_def res_simps split: if_splits)

lemma toPrincipalInputs_same: "res_mapM toPrincipalInput ps = Inr qs \<Longrightarrow> qs = ps"
  using toPrincipalInput_same by (induction ps arbitrary: qs) (auto simp: res_simps)

lemma toEvidenceInput_same: "toEvidenceInput e = Inr f \<Longrightarrow> f = e"
  using toPrincipalInput_same by (auto simp: toEvidenceInput_def ParseActionType_def res_simps split: if_splits)

lemma toEvidenceInputs_same: "res_mapM toEvidenceInput es = Inr fs \<Longrightarrow> fs = es"
  using toEvidenceInput_same by (induction es arbitrary: fs) (auto simp: res_simps)

lemma toActionParameters_text:
  assumes "toActionParameters a = Inr p"
  shows "utf8_parameters_text p"
proof -
  have zero: "valid_utf8 (delete_mode zero_delete)" by (simp add: zero_delete_def)
  consider v where "p = ExternalSendInput v" "utf8_send v"
    | v qs where "p = UpdateResourceAccessInput (v\<lparr>access_targetPrincipals := qs\<rparr>)" "utf8_access v"
        "res_mapM toPrincipalInput (access_targetPrincipals v) = Inr qs"
    | v where "p = DeleteInput v" "valid_utf8 (delete_mode v)"
    using assms decodesD [OF decodes_send [of True]] decodesD [OF decodes_access [of True]]
      decodesD [OF decodes_delete [of True], where old = zero_delete, OF _ zero]
    by (fastforce simp: toActionParameters_def decodeStrict_raw_def unmarshal_raw_def dto_decoder_defs res_simps
        split: if_splits option.splits)
  then show ?thesis by cases (auto simp: utf8_access_def dest: toPrincipalInputs_same)
qed

lemma command_text:
  assumes "utf8_request request" "toEvaluateActionCommand request = Inr command"
  shows "utf8_command command"
proof -
  let ?action = "request_ProposedAction request"
  obtain actionType parameters where parts: "ParseActionType (dto_Type ?action) = Inr actionType"
      "toActionParameters ?action = Inr parameters"
    and command: "command = \<lparr>command_RequestID = request_RequestID request,
      command_ProposedAction =
        \<lparr>input_Type = actionType, input_RequestedAt = dto_RequestedAt ?action, input_Actor = dto_Actor ?action,
         input_Delegation = dto_Delegation ?action, input_Target = dto_Target ?action, input_Parameters = Some parameters,
         input_Payload = dto_Payload ?action, input_Evidence = dto_Evidence ?action\<rparr>\<rparr>"
    using assms(2) by (auto simp: toEvaluateActionCommand_def res_simps Let_def dest!: toPrincipalInput_same toEvidenceInputs_same)
  have "actionType = dto_Type ?action" using parts(1) by (auto simp: ParseActionType_def split: if_splits)
  then show ?thesis
    using assms(1) toActionParameters_text [OF parts(2)]
    by (simp add: command utf8_command_def utf8_action_input_def utf8_request_def utf8_dto_def)
qed

end
