(* ===== verification/BoundaryProperties.thy ===== *)
theory BoundaryProperties
  imports ScenarioHttp Lifecycle CommandText
begin

text \<open>
  The properties of the boundaries of the process: the Osprey coordinator, the configuration, the
  credentials of runtimes, and the texts that are read and written.
\<close>

section \<open>Osprey\<close>

text \<open>
  C18. The evaluation the Osprey adapter builds from a list of verdicts, in closed form: each different
  verdict counts once, in the order of the first occurrences; one unknown verdict rejects the list.
\<close>

theorem verdict_mapping:
  "mapVerdicts version verdicts =
     (if list_all (\<lambda>v. verdict_kind v \<noteq> None) verdicts then Inr (verdicts_evaluation version (first_seen verdicts))
      else Inl [])"
  by (rule mapVerdicts_eq)

text \<open>
  C17. Behind the Osprey adapter an action is allowed only if the coordinator answered and every
  verdict merely asks for a safety review. In particular errors and unknown verdicts deny.
\<close>

theorem osprey_allows_only_reviews:
  assumes "osprey_Evaluate evaluator a w = (Inr ev, w')"
  shows "\<exists>json answer d. marshalAction a = Inr json \<and>
    osprey_coordinator evaluator (osprey_timeout evaluator)
      \<lparr>coord_ActionDataJSON = json, coord_Timestamp = action_requestedAt a\<rparr> w = (answer, w') \<and>
    Compose ev = Inr d \<and>
    (d = NewAllowDecision \<longleftrightarrow>
       (\<exists>verdicts. answer = Inr verdicts \<and> list_all (\<lambda>v. verdict_kind v = Some AsksReview) verdicts))"
proof -
  obtain json answer where call: "marshalAction a = Inr json"
      "osprey_coordinator evaluator (osprey_timeout evaluator)
        \<lparr>coord_ActionDataJSON = json, coord_Timestamp = action_requestedAt a\<rparr> w = (answer, w')"
      "ev = osprey_outcome (osprey_policyVersion evaluator) answer"
    using assms by (auto simp: osprey_Evaluate_eq split: sum.splits prod.splits)
  obtain d where "Compose ev = Inr d" using osprey_outcome_composes call(3) by blast
  then show ?thesis using call osprey_allows_iff [of "osprey_policyVersion evaluator" answer] by simp
qed

definition sc_osprey :: "string list \<Rightarrow> unit OspreyEvaluator" where
  "sc_osprey verdicts =
     \<lparr>osprey_coordinator = (\<lambda>timeout request w. (Inr verdicts, w)), osprey_policyVersion = ''v1'', osprey_timeout = 1\<rparr>"

lemma sc_marshals: "\<exists>json. marshalAction sc_action = Inr json"
  using sc_action_wf sc_time_facts by (intro marshalAction_total) (simp_all add: sc_action_def)

lemma sc_osprey_answers:
  "osprey_Evaluate (sc_osprey verdicts) sc_action () = (Inr (osprey_outcome ''v1'' (Inr verdicts)), ())"
  using sc_marshals by (auto simp: osprey_Evaluate_eq sc_osprey_def)

theorem osprey_allows_only_reviews_witness:
  "\<exists>d. Compose (osprey_outcome ''v1'' (Inr [''review''])) = Inr d \<and> d \<noteq> NewAllowDecision"
proof -
  have unknown: "verdict_kind ''review'' = None"
    by (simp add: verdict_kind_def HasPrefix_def terminalDenyPrefix_def approvalPrefix_def safetyReviewPrefix_def)
  obtain d where "Compose (osprey_outcome ''v1'' (Inr [''review''])) = Inr d"
      "d = NewAllowDecision \<longleftrightarrow>
        (\<exists>verdicts. (Inr [''review''] :: string list res) = Inr verdicts \<and>
           list_all (\<lambda>v. verdict_kind v = Some AsksReview) verdicts)"
    using osprey_allows_only_reviews [OF sc_osprey_answers [of "[''review'']"]] by (auto simp: sc_osprey_def)
  then show ?thesis using unknown by auto
qed

text \<open>
  C16. When the coordinator cannot be reached or its answer is not understood, the action is denied
  with \<^verbatim>\<open>POLICY_UNAVAILABLE\<close>, without a required action.
\<close>

theorem osprey_fails_closed:
  assumes "marshalAction a = Inr json"
    and "osprey_coordinator evaluator (osprey_timeout evaluator)
      \<lparr>coord_ActionDataJSON = json, coord_Timestamp = action_requestedAt a\<rparr> w = (answer, w')"
    and "\<not> (\<exists>verdicts. answer = Inr verdicts \<and> list_all (\<lambda>v. verdict_kind v \<noteq> None) verdicts)"
  shows "\<exists>ev. osprey_Evaluate evaluator a w = (Inr ev, w') \<and>
    Compose ev = Inr \<lparr>decision_typ = DecisionDeny, reasonCodes = [ReasonPolicyUnavailable], requiredActions = []\<rparr>"
  using assms compose_failClosed [of "osprey_policyVersion evaluator"]
  by (cases answer) (simp_all add: osprey_Evaluate_eq osprey_outcome_def)

theorem osprey_fails_closed_witness:
  "\<exists>ev. osprey_Evaluate (sc_osprey [''review'']) sc_action () = (Inr ev, ()) \<and>
    Compose ev = Inr \<lparr>decision_typ = DecisionDeny, reasonCodes = [ReasonPolicyUnavailable], requiredActions = []\<rparr>"
proof -
  obtain json where json: "marshalAction sc_action = Inr json" using sc_marshals by blast
  have "verdict_kind ''review'' = None"
    by (simp add: verdict_kind_def HasPrefix_def terminalDenyPrefix_def approvalPrefix_def safetyReviewPrefix_def)
  then show ?thesis
    by (intro osprey_fails_closed [OF json, where answer = "Inr [''review'']"]) (simp_all add: sc_osprey_def)
qed

section \<open>Configuration\<close>

text \<open>
  C36. A process that starts with the Osprey adapter has a policy version without surrounding white
  space and a positive timeout that is a 64-bit count of nanoseconds: two seconds unless the
  environment sets another one, and the product of number and unit when it sets a whole number of a
  unit, so a product beyond 64 bits never becomes a shorter timeout.
\<close>

theorem osprey_configuration:
  assumes "configurePolicyEvaluator Getenv NewClient = Inr (OspreyAdapter e)"
  shows "osprey_policyVersion e = TrimSpace (Getenv ''ACTION_CONTROL_OSPREY_POLICY_VERSION'') \<and>
    osprey_policyVersion e \<noteq> [] \<and> 0 < osprey_timeout e \<and> osprey_timeout e < 2 ^ 63 \<and>
    (TrimSpace (Getenv ''ACTION_CONTROL_OSPREY_TIMEOUT'') = [] \<longrightarrow> osprey_timeout e = 2000000000) \<and>
    (\<forall>n u unit. TrimSpace (Getenv ''ACTION_CONTROL_OSPREY_TIMEOUT'') = nat_dec n @ u \<and> unitMap u = Some unit \<longrightarrow>
       osprey_timeout e = int n * unit)"
proof -
  have trim: "TrimSpace (TrimSpace s) = TrimSpace s" for s by (simp add: TrimSpace_id)
  let ?T = "TrimSpace (Getenv ''ACTION_CONTROL_OSPREY_TIMEOUT'')"
  have "osprey_policyVersion e = TrimSpace (Getenv ''ACTION_CONTROL_OSPREY_POLICY_VERSION'') \<and> osprey_policyVersion e \<noteq> []"
    and timeout: "0 < osprey_timeout e \<and>
      (if ?T = [] then osprey_timeout e = 2000000000 else ParseDuration ?T = Inr (osprey_timeout e))"
    using assms trim
    by (auto simp: configurePolicyEvaluator_eq Let_def NewOspreyEvaluator_def res_simps defaultOspreyTimeout_def
        split: if_splits option.splits)
  moreover have "osprey_timeout e < 2 ^ 63" using timeout ParseDuration_range [of ?T] by (simp split: if_splits)
  moreover have "osprey_timeout e = int n * unit" if "?T = nat_dec n @ u" "unitMap u = Some unit" for n u unit
    using timeout ParseDuration_whole [OF that(2), of n] by (simp add: that(1) split: if_splits)
  ultimately show ?thesis by (simp split: if_splits)
qed

definition sc_osprey_env :: "string \<Rightarrow> string" where
  "sc_osprey_env name =
     (if name = ''ACTION_CONTROL_POLICY_EVALUATOR'' then ''osprey''
      else if name = ''ACTION_CONTROL_OSPREY_ADDRESS'' then ''localhost''
      else if name = ''ACTION_CONTROL_OSPREY_POLICY_VERSION'' then ''v1''
      else if name = ''ACTION_CONTROL_OSPREY_TIMEOUT'' then ''3s'' else [])"

theorem osprey_configuration_witness:
  "\<exists>e. configurePolicyEvaluator sc_osprey_env (\<lambda>_. Inr (Some process_rpc)) = Inr (OspreyAdapter e) \<and>
     osprey_policyVersion e = ''v1'' \<and> osprey_timeout e = 3000000000"
proof -
  have trim: "TrimSpace ''osprey'' = ''osprey''" "TrimSpace ''localhost'' = ''localhost''" "TrimSpace ''v1'' = ''v1''" "TrimSpace ''3s'' = ''3s''"
    by (simp_all add: TrimSpace_ascii)
  have lower: "ToLower_ascii ''osprey'' = ''osprey''" by (simp add: ToLower_ascii_def)
  have unit: "unitMap ''s'' = Some 1000000000" by (simp add: unitMap_def)
  have dec: "''3s'' = nat_dec 3 @ ''s''" by code_simp
  have parse: "ParseDuration ''3s'' = Inr 3000000000" unfolding dec by (simp add: ParseDuration_whole [OF unit])
  have env: "configurePolicyEvaluator sc_osprey_env (\<lambda>_. Inr (Some process_rpc)) =
      Inr (OspreyAdapter (process_osprey ''v1'' 3000000000))"
    by (simp add: configurePolicyEvaluator_eq sc_osprey_env_def trim lower parse NewGRPCCoordinator_def NewOspreyEvaluator_def
        process_osprey_def)
  have "TrimSpace (sc_osprey_env ''ACTION_CONTROL_OSPREY_TIMEOUT'') = nat_dec 3 @ ''s''"
    by (simp add: sc_osprey_env_def trim dec [symmetric])
  then have "osprey_timeout (process_osprey ''v1'' 3000000000) = 3 * 1000000000"
    using osprey_configuration [OF env] unit by fastforce
  then show ?thesis using env by (auto simp: process_osprey_def)
qed

section \<open>Credentials\<close>

text \<open>
  C31. A credential is exchanged for a runtime exactly when it is one of the configured tokens, up to
  surrounding white space, and then for the runtime configured with it; any other credential is
  refused as missing or invalid.
\<close>

theorem credential_exchange:
  assumes "NewStaticRuntimeAuthenticator entries = Inr auth" "distinct (map fst (map entry_of entries))"
  shows "(Authenticate (Some auth) credential = Inr runtime \<longleftrightarrow>
      (TrimSpace credential, authenticated_runtimeID runtime) \<in> set (map entry_of entries)) \<and>
    (TrimSpace credential \<notin> set (map fst (map entry_of entries)) \<longrightarrow>
      Authenticate (Some auth) credential =
        Inl [Auth (if TrimSpace credential = [] then ErrCredentialMissing else ErrCredentialInvalid)])"
proof (intro conjI impI iffI)
  show "Authenticate (Some auth) credential = Inr runtime \<Longrightarrow>
      (TrimSpace credential, authenticated_runtimeID runtime) \<in> set (map entry_of entries)"
    by (rule Authenticate_Inr(2) [OF assms(1)])
  assume "(TrimSpace credential, authenticated_runtimeID runtime) \<in> set (map entry_of entries)"
  then obtain token rid where entry: "(token, rid) \<in> set entries" "TrimSpace credential = TrimSpace token"
      "authenticated_runtimeID runtime = TrimSpace rid"
    by (auto simp: entry_of_def)
  then show "Authenticate (Some auth) credential = Inr runtime"
    using Authenticate_configured [OF assms(1) entry(1) assms(2) entry(2)] by (cases runtime) simp
next
  assume "TrimSpace credential \<notin> set (map fst (map entry_of entries))"
  then show "Authenticate (Some auth) credential =
      Inl [Auth (if TrimSpace credential = [] then ErrCredentialMissing else ErrCredentialInvalid)]"
    by (intro Authenticate_unknown [OF assms(1)]) (force simp: entry_of_def)
qed

definition sc_entries :: "(string \<times> string) list" where
  "sc_entries = [(''token-1'', ''runtime-1''), (''user-1'', ''agent-1'')]"

lemma sc_entries_ok:
  "NewStaticRuntimeAuthenticator sc_entries = Inr [''token-1'' \<mapsto> ''runtime-1'', ''user-1'' \<mapsto> ''agent-1'']"
  "map entry_of sc_entries = sc_entries" "distinct (map fst sc_entries)"
proof -
  have "TrimSpace ''token-1'' = ''token-1''" by (simp add: TrimSpace_ascii)
  then show "map entry_of sc_entries = sc_entries" "distinct (map fst sc_entries)"
    "NewStaticRuntimeAuthenticator sc_entries = Inr [''token-1'' \<mapsto> ''runtime-1'', ''user-1'' \<mapsto> ''agent-1'']"
    by (auto simp: sc_entries_def entry_of_def wf_identifier_TrimSpace NewStaticRuntimeAuthenticator_eq valid_entry_def)
qed

theorem credential_exchange_witness:
  "Authenticate (Some [''token-1'' \<mapsto> ''runtime-1'', ''user-1'' \<mapsto> ''agent-1'']) ''user-1'' = Inr \<lparr>authenticated_runtimeID = ''agent-1''\<rparr> \<and>
   Authenticate (Some [''token-1'' \<mapsto> ''runtime-1'', ''user-1'' \<mapsto> ''agent-1'']) [] = Inl [Auth ErrCredentialMissing]"
proof -
  note exchange = credential_exchange [OF sc_entries_ok(1)]
  have "TrimSpace [] = []" by (simp add: TrimSpace_ascii)
  then show ?thesis
    using exchange [THEN conjunct1, of "''user-1''" "\<lparr>authenticated_runtimeID = ''agent-1''\<rparr>"]
      exchange [THEN conjunct2, of "[]"] sc_entries_ok(2,3)
    by (simp add: wf_identifier_TrimSpace) (simp add: sc_entries_def)
qed

section \<open>Texts\<close>

text \<open>
  C32. Every text of a command that is decoded from a request body is valid UTF-8, whatever bytes the
  body held: the request identifier, the action type, the actor, delegation, target, parameters,
  payload and evidence with all their types, scopes and digests. Accepted bodies have at most one
  mebibyte and the supported version.
\<close>

theorem decoded_command_is_utf8:
  assumes "DecodeEvaluateActionRequest body = Inr request" "toEvaluateActionCommand request = Inr command"
  shows "utf8_command command \<and> length body \<le> 1048576 \<and> request_APIVersion request = ''v1''"
  using decoded_request_utf8 [OF assms(1)] command_text [OF _ assms(2)]
  by (simp add: maximumDecisionRequestBytes_def APIVersionV1_def)

theorem decoded_command_is_utf8_witness:
  "utf8_command sc_command \<and> length (json_print sc_body) \<le> 1048576"
  using decoded_command_is_utf8 [OF sc_decodes sc_maps] by blast

section \<open>The process\<close>

text \<open>
  C35. However the process ends, it has released what it acquired, in reverse order: the connection of
  the policy evaluator, the database, the signal handler and the context of the shutdown; the database
  is open as long as the server listens or shuts down. \<^verbatim>\<open>run\<close> returns the error of the construction that
  failed, or what the server that was given the configured handler came to.
\<close>

theorem run_releases_resources:
  "disciplined [] (snd (run Getenv NewClient MkdirAll OpenDatabase server)) = Some [] \<and>
   fst (run Getenv NewClient MkdirAll OpenDatabase server) =
     res_bind (run_configure Getenv NewClient MkdirAll OpenDatabase) (\<lambda>(addr, handler). server_result (server addr handler))"
  using run_disciplined run_result by blast

end
