(* ===== verification/Concurrent.thy ===== *)
theory Concurrent
  imports Service
begin

text \<open>
  Concurrent requests. The HTTP server runs \<^verbatim>\<open>DecisionService.Evaluate\<close> for several requests at once; they
  meet at the ports. Here the use case is cut at its port calls: a phase is what a request has
  computed so far, \<open>advance\<close> runs one request up to and including its next port call, and a system is the
  world with the requests in flight. Running one request alone is \<^verbatim>\<open>Evaluate\<close>; in every interleaving the
  requests that are answered with success agree.
\<close>

section \<open>The use case, one port call at a time\<close>

datatype phase =
    Looking string ProposedAction string
  | Evaluating string ProposedAction string
  | NamingDecision string ProposedAction string PolicyEvaluation Decision
  | NamingEffects EvaluationCommit "PolicyEffect option list"
  | Committing EvaluationCommit
  | Answered "DecisionRecord res"

text \<open>The part of \<^verbatim>\<open>Evaluate\<close> before the first port call.\<close>

definition start_request :: "request \<Rightarrow> phase" where
  "start_request r =
     (case normalizeDecisionRequestID (command_RequestID (snd r)) of
        Inl e \<Rightarrow> Answered (Inl e)
      | Inr requestID \<Rightarrow>
          (case Normalize (fst r) (command_ProposedAction (snd r)) of
             Inl e \<Rightarrow> Answered (Inl e)
           | Inr action \<Rightarrow>
               (case ComputeActionDigest action of
                  Inl _ \<Rightarrow> Answered (Inl [Application ErrInvalidInput])
                | Inr actionDigest \<Rightarrow> Looking requestID action actionDigest)))"

text \<open>While the effects are named, the commit under construction has no time yet.\<close>

fun advance :: "'w Ports \<Rightarrow> string \<Rightarrow> phase \<Rightarrow> 'w \<Rightarrow> phase \<times> 'w" where
  "advance ports rid (Looking qid action actionDigest) w =
     (case port_Get ports rid qid w of
        (Inr existing, w1) \<Rightarrow> (Answered (resolveStoredEvaluation existing rid qid actionDigest), w1)
      | (Inl e, w1) \<Rightarrow>
          (if \<not> errors_Is e (Application ErrEvaluationNotFound) then Answered (Inl (wrapLedgerError e))
           else Evaluating qid action actionDigest, w1))"
| "advance ports rid (Evaluating qid action actionDigest) w =
     (case port_Evaluate ports action w of
        (Inl e, w1) \<Rightarrow> (Answered (Inl (Application ErrPolicyUnavailable # e)), w1)
      | (Inr evaluation, w1) \<Rightarrow>
          (case validatePolicyEvaluation evaluation of
             Inl e \<Rightarrow> Answered (Inl e)
           | Inr _ \<Rightarrow>
               (case Compose evaluation of
                  Inl e \<Rightarrow> Answered (Inl (Application ErrPolicyUnavailable # e))
                | Inr decision \<Rightarrow> NamingDecision qid action actionDigest evaluation decision), w1))"
| "advance ports rid (NamingDecision qid action actionDigest evaluation decision) w =
     (case newRequiredID ports IDDecision w of
        (Inl e, w1) \<Rightarrow> (Answered (Inl e), w1)
      | (Inr decisionID, w1) \<Rightarrow>
          (NamingEffects
             \<lparr>commit_RuntimeID = rid, commit_RequestID = qid, commit_Action = action,
              commit_ActionDigest = actionDigest, commit_DecisionID = decisionID, commit_Decision = decision,
              commit_PolicyVersion = TrimSpace (PolicyVersion evaluation),
              commit_MatchedRuleIDs = MatchedRuleIDs evaluation, commit_Effects = [],
              commit_EvaluatedAt = zero_time\<rparr> (Effects evaluation), w1))"
| "advance ports rid (NamingEffects commit (effect # effects)) w =
     (if \<not> validPolicyEffect effect then (Answered (Inl [Application ErrPolicyUnavailable]), w)
      else case newRequiredID ports IDPolicyEffect w of
        (Inl e, w1) \<Rightarrow> (Answered (Inl e), w1)
      | (Inr effectID, w1) \<Rightarrow>
          (NamingEffects (commit\<lparr>commit_Effects := commit_Effects commit @ [\<lparr>EffectID = effectID, Effect = effect\<rparr>]\<rparr>)
             effects, w1))"
| "advance ports rid (NamingEffects commit []) w =
     (case port_Now ports w of (now, w1) \<Rightarrow>
        let evaluatedAt = Time_UTC now in
        (if Time_IsZero evaluatedAt then Answered (Inl [Application ErrClockFailure])
         else Committing (commit\<lparr>commit_EvaluatedAt := evaluatedAt\<rparr>), w1))"
| "advance ports rid (Committing commit) w =
     (case port_Commit ports commit w of
        (Inl e, w1) \<Rightarrow>
          (Answered (Inl (if errors_Is e (Application ErrRequestIDConflict) then e else wrapLedgerError e)), w1)
      | (Inr rec, w1) \<Rightarrow>
          (Answered (res_bind (validateAuthoritativeDecision rec (commit_ActionDigest commit)) (\<lambda>_. Inr rec)), w1))"
| "advance ports rid (Answered res) w = (Answered res, w)"

section \<open>Running one request alone\<close>

fun stage :: "phase \<Rightarrow> nat" where
  "stage (Looking _ _ _) = 5"
| "stage (Evaluating _ _ _) = 4"
| "stage (NamingDecision _ _ _ _ _) = 3"
| "stage (NamingEffects _ _) = 2"
| "stage (Committing _) = 1"
| "stage (Answered _) = 0"

fun pending :: "phase \<Rightarrow> nat" where
  "pending (NamingEffects _ effects) = length effects"
| "pending _ = 0"

lemma advance_decreases:
  assumes "advance ports rid p w = (p', w')" "0 < stage p"
  shows "stage p' < stage p \<or> stage p' = stage p \<and> pending p' < pending p"
  using assms
  by (cases "(ports, rid, p, w)" rule: advance.cases)
    (auto simp: Let_def split: prod.splits sum.splits if_splits)

fun answer :: "phase \<Rightarrow> DecisionRecord res" where
  "answer (Answered res) = res"
| "answer _ = Inl []"

function finish :: "'w Ports \<Rightarrow> string \<Rightarrow> phase \<Rightarrow> 'w \<Rightarrow> DecisionRecord res \<times> 'w" where
  "finish ports rid p w =
     (if stage p = 0 then (answer p, w)
      else case advance ports rid p w of (p', w') \<Rightarrow> finish ports rid p' w')"
  by auto
termination
proof (relation "measures [\<lambda>(ports, rid, p, w). stage p, \<lambda>(ports, rid, p, w). pending p]", goal_cases)
  case (2 ports rid p w p' w')
  then show ?case using advance_decreases [OF 2(2) [symmetric]] by (auto simp: 2(2) [symmetric])
qed simp

declare finish.simps [simp del]

lemma finish_Answered [simp]: "finish ports rid (Answered res) w = (res, w)"
  by (simp add: finish.simps)

lemma finish_step: "0 < stage p \<Longrightarrow> finish ports rid p w = (case advance ports rid p w of (p', w') \<Rightarrow> finish ports rid p' w')"
  by (subst finish.simps) simp

lemma finish_effects:
  "finish ports rid (NamingEffects c effects) w =
     (case preparePolicyEffects ports effects w of
        (Inl e, w1) \<Rightarrow> (Inl e, w1)
      | (Inr fs, w1) \<Rightarrow> finish ports rid (NamingEffects (c\<lparr>commit_Effects := commit_Effects c @ fs\<rparr>) []) w1)"
proof (induction effects arbitrary: c w)
  case (Cons effect effects)
  show ?case
    by (subst finish_step) (auto simp: Cons split: prod.split sum.split)
qed simp

lemma finish_now:
  "finish ports rid (NamingEffects c []) w =
     (case port_Now ports w of (now, w1) \<Rightarrow>
        if Time_IsZero (Time_UTC now) then (Inl [Application ErrClockFailure], w1)
        else finish ports rid (Committing (c\<lparr>commit_EvaluatedAt := Time_UTC now\<rparr>)) w1)"
  by (subst finish_step) (auto simp: Let_def split: prod.split)

lemma finish_commit:
  "finish ports rid (Committing c) w =
     (case port_Commit ports c w of
        (Inl e, w1) \<Rightarrow> (Inl (if errors_Is e (Application ErrRequestIDConflict) then e else wrapLedgerError e), w1)
      | (Inr rec, w1) \<Rightarrow> (res_bind (validateAuthoritativeDecision rec (commit_ActionDigest c)) (\<lambda>_. Inr rec), w1))"
  by (subst finish_step) (auto split: prod.split sum.split)

lemma finish_decide: "finish ports rid (Evaluating qid a d) w = decideAndCommit ports rid qid a d w"
proof -
  have named: "finish ports rid (NamingDecision qid a d ev dec) w1 =
      (case newRequiredID ports IDDecision w1 of
         (Inl e, w2) \<Rightarrow> (Inl e, w2)
       | (Inr decisionID, w2) \<Rightarrow> finish ports rid (NamingEffects
           \<lparr>commit_RuntimeID = rid, commit_RequestID = qid, commit_Action = a, commit_ActionDigest = d,
            commit_DecisionID = decisionID, commit_Decision = dec, commit_PolicyVersion = TrimSpace (PolicyVersion ev),
            commit_MatchedRuleIDs = MatchedRuleIDs ev, commit_Effects = [], commit_EvaluatedAt = zero_time\<rparr> (Effects ev)) w2)"
    for ev dec w1
    by (subst finish_step) (auto split: prod.split sum.split)
  show ?thesis
    by (subst finish_step)
      (auto simp: decideAndCommit_def Let_def named finish_effects [of _ _ _ "Effects _"] finish_now finish_commit
        split: prod.split sum.split)
qed

text \<open>Alone, a request runs exactly as \<^verbatim>\<open>Evaluate\<close> does.\<close>

lemma finish_Evaluate:
  "finish ports (authenticated_runtimeID (fst r)) (start_request r) w = Evaluate (Some ports) (fst r) (snd r) w"
proof -
  have "finish ports rid (Looking qid a d) w =
      (case port_Get ports rid qid w of
         (Inr existing, w1) \<Rightarrow> (resolveStoredEvaluation existing rid qid d, w1)
       | (Inl e, w1) \<Rightarrow>
           if \<not> errors_Is e (Application ErrEvaluationNotFound) then (Inl (wrapLedgerError e), w1)
           else decideAndCommit ports rid qid a d w1)" for rid qid a d
    by (subst finish_step) (auto simp: finish_decide split: prod.split sum.split)
  then show ?thesis by (auto simp: start_request_def Evaluate_def simp del: Normalize_Inr split: sum.split)
qed

section \<open>Requests in flight\<close>

type_synonym 'w system = "'w \<times> (request \<times> phase) list"

inductive system_step :: "'w Ports \<Rightarrow> 'w system \<Rightarrow> 'w system \<Rightarrow> bool" for ports where
  Arrive: "wf_request (fst r) (snd r) \<Longrightarrow> system_step ports (w, ts) (w, ts @ [(r, start_request r)])"
| Advance: "advance ports (authenticated_runtimeID (fst r)) p w = (p', w') \<Longrightarrow>
    system_step ports (w, xs @ (r, p) # ys) (w', xs @ (r, p') # ys)"

inductive_cases system_stepE: "system_step ports s s'"

text \<open>A request that is not answered can always take its next step.\<close>

lemma system_progress:
  "(r, p) \<in> set ts \<Longrightarrow> \<exists>s'. system_step ports (w, ts) s'"
proof -
  assume "(r, p) \<in> set ts"
  then obtain xs ys where ts: "ts = xs @ (r, p) # ys" by (meson split_list)
  obtain p' w' where "advance ports (authenticated_runtimeID (fst r)) p w = (p', w')" by (rule prod.exhaust)
  then show ?thesis using Advance ts by metis
qed

definition for_request :: "request \<Rightarrow> EvaluationCommit \<Rightarrow> bool" where
  "for_request r c \<longleftrightarrow> wf_commit c \<and> (commit_RuntimeID c, commit_RequestID c) = request_key r"

lemma zero_time_in_range: "rfc3339_time (Time_UTC zero_time)"
  using zero_time_range by (simp add: zero_time_def Time_UTC_def)

context decision_ports
begin

text \<open>What holds of a request in each phase; only the answer speaks about the world.\<close>

fun phase_ok :: "request \<Rightarrow> 'w \<Rightarrow> phase \<Rightarrow> bool" where
  "phase_ok r w (Looking qid a d) \<longleftrightarrow>
     Normalize (fst r) (command_ProposedAction (snd r)) = Inr a \<and> qid = snd (request_key r)"
| "phase_ok r w (Evaluating qid a d) \<longleftrightarrow>
     Normalize (fst r) (command_ProposedAction (snd r)) = Inr a \<and> qid = snd (request_key r)"
| "phase_ok r w (NamingDecision qid a d ev dec) \<longleftrightarrow>
     Normalize (fst r) (command_ProposedAction (snd r)) = Inr a \<and> qid = snd (request_key r) \<and>
     list_all valid_utf8 (MatchedRuleIDs ev) \<and> Compose ev = Inr dec"
| "phase_ok r w (NamingEffects c effects) \<longleftrightarrow> for_request r c"
| "phase_ok r w (Committing c) \<longleftrightarrow> for_request r c"
| "phase_ok r w (Answered res) \<longleftrightarrow>
     (\<forall>rec. res = Inr rec \<longrightarrow> binding w (fst (request_key r)) (snd (request_key r)) rec)"

lemma phase_ok_keeps: "phase_ok r w p \<Longrightarrow> keeps invar binding w w' \<Longrightarrow> phase_ok r w' p"
  by (cases p) (auto simp: keeps_def)

lemma start_ok: "phase_ok r w (start_request r)"
  by (auto simp: start_request_def normalizeDecisionRequestID_def request_key_def Let_def simp del: Normalize_Inr
      split: sum.splits)

lemma draft_for_request:
  assumes "wf_request (fst r) (snd r)" "phase_ok r w (NamingDecision qid a d ev dec)"
  shows "for_request r \<lparr>commit_RuntimeID = authenticated_runtimeID (fst r), commit_RequestID = qid, commit_Action = a,
    commit_ActionDigest = d, commit_DecisionID = did, commit_Decision = dec, commit_PolicyVersion = pv,
    commit_MatchedRuleIDs = MatchedRuleIDs ev, commit_Effects = [], commit_EvaluatedAt = zero_time\<rparr>"
proof -
  have a: "Normalize (fst r) (command_ProposedAction (snd r)) = Inr a" using assms(2) by simp
  have "TrimSpace (TrimSpace s) = TrimSpace s" for s by (simp add: TrimSpace_id)
  then show ?thesis
    using assms(2) wf_request_action [OF assms(1) a] wf_Compose zero_time_in_range
    by (auto simp: for_request_def wf_commit_def request_key_def)
qed

lemma named_effect_for_request: "for_request r c \<Longrightarrow> for_request r (c\<lparr>commit_Effects := fs\<rparr>)"
  by (simp add: for_request_def wf_commit_def)

lemma timed_for_request: "for_request r c \<Longrightarrow> rfc3339_time t \<Longrightarrow> utc_time t \<Longrightarrow> for_request r (c\<lparr>commit_EvaluatedAt := t\<rparr>)"
  by (simp add: for_request_def wf_commit_def Time_UTC_id)

lemma advance_ok:
  assumes inv: "invar w" and wf: "wf_request (fst r) (snd r)" and ok: "phase_ok r w p"
    and step: "advance ports (authenticated_runtimeID (fst r)) p w = (p', w')"
  shows "keeps invar binding w w' \<and> phase_ok r w' p'"
proof (cases p)
  case (Looking qid a d)
  have trim: "TrimSpace (authenticated_runtimeID (fst r)) = authenticated_runtimeID (fst r)" "TrimSpace qid = qid"
    using wf ok Looking by (simp_all add: wf_request_def wf_runtime_def wf_identifier_TrimSpace request_key_def TrimSpace_id)
  obtain x w1 where x: "port_Get ports (authenticated_runtimeID (fst r)) qid w = (x, w1)" by (rule prod.exhaust)
  show ?thesis
    using get_law [OF inv x] step ok Looking x trim
    by (auto simp: request_key_def simp del: Normalize_Inr dest!: resolveStoredEvaluation_Inr split: sum.splits if_splits)
next
  case (Evaluating qid a d)
  obtain x w1 where x: "port_Evaluate ports a w = (x, w1)" by (rule prod.exhaust)
  show ?thesis
    using evaluate_law [OF inv x] step ok Evaluating x by (auto simp del: Normalize_Inr split: sum.splits)
next
  case (NamingDecision qid a d ev dec)
  obtain x w1 where x: "newRequiredID ports IDDecision w = (x, w1)" by (rule prod.exhaust)
  show ?thesis
    using newRequiredID_keeps [OF inv x] step NamingDecision x draft_for_request [OF wf ok [unfolded NamingDecision]]
    by (auto split: sum.splits)
next
  case (NamingEffects c effects)
  show ?thesis
  proof (cases effects)
    case Nil
    obtain t w1 where t: "port_Now ports w = (t, w1)" by (rule prod.exhaust)
    show ?thesis
      using now_law [OF inv t] step ok NamingEffects Nil t timed_for_request [of r c "Time_UTC t"]
      by (auto simp: Let_def split: if_splits)
  next
    case (Cons e es)
    obtain x w1 where x: "newRequiredID ports IDPolicyEffect w = (x, w1)" by (rule prod.exhaust)
    show ?thesis
      using newRequiredID_keeps [OF inv x] step ok NamingEffects Cons x keeps_refl [of invar w, OF inv]
      by (auto simp: named_effect_for_request split: sum.splits if_splits)
  qed
next
  case (Committing c)
  obtain x w1 where x: "port_Commit ports c w = (x, w1)" by (rule prod.exhaust)
  have c: "wf_commit c" "(commit_RuntimeID c, commit_RequestID c) = request_key r"
    using ok Committing by (simp_all add: for_request_def)
  then have "commit_RuntimeID c = fst (request_key r)" "commit_RequestID c = snd (request_key r)" by (metis fst_conv snd_conv)+
  then show ?thesis
    using commit_law [OF inv c(1) x] step Committing x by (auto simp: res_simps split: sum.splits)
next
  case (Answered res)
  then show ?thesis using step ok keeps_refl [of invar w, OF inv] by simp
qed

definition system_ok :: "'w system \<Rightarrow> bool" where
  "system_ok s \<longleftrightarrow> invar (fst s) \<and>
     (\<forall>t \<in> set (snd s). wf_request (fst (fst t)) (snd (fst t)) \<and> phase_ok (fst t) (fst s) (snd t))"

lemma arrive_ok:
  assumes "system_ok (w, ts)" "wf_request (fst r) (snd r)"
  shows "system_ok (w, ts @ [(r, start_request r)])"
  using assms start_ok [of r w] by (simp add: system_ok_def)

lemma advanced_ok:
  assumes "system_ok (w, xs @ (r, p) # ys)" "advance ports (authenticated_runtimeID (fst r)) p w = (p', w')"
  shows "system_ok (w', xs @ (r, p') # ys)"
proof -
  let ?ok = "\<lambda>w t. wf_request (fst (fst t)) (snd (fst t)) \<and> phase_ok (fst t) w (snd t)"
  note ok = assms(1) [unfolded system_ok_def fst_conv snd_conv]
  note all = bspec [OF conjunct2 [OF ok]]
  have r: "wf_request (fst r) (snd r)" "phase_ok r w p" using all [of "(r, p)"] by simp_all
  have step: "keeps invar binding w w'" "phase_ok r w' p'"
    using advance_ok [OF conjunct1 [OF ok] r assms(2)] by blast+
  have others: "?ok w' t" if "t \<in> set xs \<union> set ys" for t
    using all [of t] that phase_ok_keeps [OF _ step(1)] by simp
  have "?ok w' t" if "t \<in> set (xs @ (r, p') # ys)" for t
  proof (cases "t = (r, p')")
    case True
    then show ?thesis using r(1) step(2) by simp
  next
    case False
    with that have "t \<in> set xs \<union> set ys" by simp
    then show ?thesis by (rule others)
  qed
  then show ?thesis unfolding system_ok_def fst_conv snd_conv using keeps_invar [OF step(1)] by blast
qed

lemma system_step_ok: "system_step ports s s' \<Longrightarrow> system_ok s \<Longrightarrow> system_ok s'"
  by (erule system_stepE) (auto intro: arrive_ok advanced_ok)

lemma reachable_ok: "(system_step ports)\<^sup>*\<^sup>* s s' \<Longrightarrow> system_ok s \<Longrightarrow> system_ok s'"
  by (induction rule: rtranclp_induct) (auto intro: system_step_ok)

lemma concurrent_agreement:
  assumes "invar w" "(system_step ports)\<^sup>*\<^sup>* (w, []) (w', ts)"
    and "(r1, Answered (Inr rec1)) \<in> set ts" "(r2, Answered (Inr rec2)) \<in> set ts" "request_key r1 = request_key r2"
  shows "rec1 = rec2"
proof -
  have "system_ok (w', ts)" using reachable_ok [OF assms(2)] assms(1) by (simp add: system_ok_def)
  then have inv: "invar w'" and all: "\<And>r p. (r, p) \<in> set ts \<Longrightarrow> phase_ok r w' p"
    by (force simp: system_ok_def)+
  show ?thesis using binding_unique [OF inv] all [OF assms(3)] all [OF assms(4)] assms(5) by auto
qed

end

end
