(* ===== verification/Routing.thy ===== *)
theory Routing
  imports HttpApi GoUrl
begin

text \<open>
  Routing (\<^verbatim>\<open>http.NewServeMux\<close> and \<^verbatim>\<open>mux.HandleFunc\<close> in \<^verbatim>\<open>NewHandler\<close>, \<^verbatim>\<open>server.go\<close>). The multiplexer of the
  standard library is modelled for patterns without wildcards: a method, a space and a path. The
  answer to a request whose path is not clean, a redirect, is a parameter.
\<close>

section \<open>The multiplexer\<close>

definition pattern_method :: "string \<Rightarrow> string" where
  "pattern_method pattern = takeWhile (\<lambda>c. c \<noteq> CHR '' '') pattern"

definition pattern_path :: "string \<Rightarrow> string" where
  "pattern_path pattern = tl (dropWhile (\<lambda>c. c \<noteq> CHR '' '') pattern)"

text \<open>Segments are compared after unescaping; a segment that is not well escaped stands for itself.\<close>

definition pathUnescape :: "string \<Rightarrow> string" where
  "pathUnescape s = (case url_unescape EncodePath s of Some t \<Rightarrow> t | None \<Rightarrow> s)"

definition path_matches :: "string \<Rightarrow> string \<Rightarrow> bool" where
  "path_matches path pattern \<longleftrightarrow> map pathUnescape (path_split path) = path_split (pattern_path pattern)"

text \<open>A pattern for \<^verbatim>\<open>GET\<close> also serves \<^verbatim>\<open>HEAD\<close>.\<close>

definition method_matches :: "string \<Rightarrow> string \<Rightarrow> bool" where
  "method_matches request_method pattern \<longleftrightarrow>
     request_method = pattern_method pattern \<or> pattern_method pattern = ''GET'' \<and> request_method = ''HEAD''"

definition allowed_methods :: "string \<Rightarrow> string list \<Rightarrow> string list" where
  "allowed_methods path patterns =
     sorted_set (concat (map (\<lambda>p. if \<not> path_matches path p then []
       else if pattern_method p = ''GET'' then [''GET'', ''HEAD''] else [pattern_method p]) patterns))"

text \<open>\<^verbatim>\<open>http.Error\<close>.\<close>

definition http_Error :: "(string \<times> string) list \<Rightarrow> nat \<Rightarrow> string \<Rightarrow> HttpResponse" where
  "http_Error headers status text =
     \<lparr>resp_headers = headers @ [(''Content-Type'', ''text/plain; charset=utf-8''), (''X-Content-Type-Options'', ''nosniff'')],
      resp_status = status, resp_body = text @ [CHR 0x0A]\<rparr>"

definition ServeHTTP ::
    "(string \<Rightarrow> HttpResponse) \<Rightarrow> (string \<times> (HttpRequest \<Rightarrow> 'w \<Rightarrow> HttpResponse \<times> 'w)) list \<Rightarrow> string \<Rightarrow> string \<Rightarrow>
     HttpRequest \<Rightarrow> 'w \<Rightarrow> HttpResponse \<times> 'w" where
  "ServeHTTP redirect routes request_method escapedPath request w =
     (let path = (if request_method = ''CONNECT'' then escapedPath else cleanPath escapedPath) in
      if path \<noteq> escapedPath then (redirect path, w)
      else case find (\<lambda>(pattern, _). method_matches request_method pattern \<and> path_matches path pattern) routes of
        Some (_, handle) \<Rightarrow> handle request w
      | None \<Rightarrow>
          let allowed = allowed_methods path (map fst routes) in
          (if allowed \<noteq> [] then http_Error [(''Allow'', strings_Join '', '' allowed)] 405 ''Method Not Allowed''
           else http_Error [] 404 ''404 page not found'', w))"

section \<open>What reaches the decision service\<close>

definition decision_request :: "string \<Rightarrow> string \<Rightarrow> bool" where
  "decision_request request_method escapedPath \<longleftrightarrow> request_method = ''POST'' \<and> cleanPath escapedPath = escapedPath \<and>
     map pathUnescape (path_split escapedPath) = [[], ''v1'', ''action-decisions'']"

lemma pattern_parts:
  "pattern_method ''GET /healthz'' = ''GET''" "path_split (pattern_path ''GET /healthz'') = [[], ''healthz'']"
  "pattern_method ''POST /v1/action-decisions'' = ''POST''"
  "path_split (pattern_path ''POST /v1/action-decisions'') = [[], ''v1'', ''action-decisions'']"
  by code_simp+

lemma route_methods:
  "method_matches m ''GET /healthz'' \<longleftrightarrow> m = ''GET'' \<or> m = ''HEAD''"
  "method_matches m ''POST /v1/action-decisions'' \<longleftrightarrow> m = ''POST''"
  by (auto simp: method_matches_def pattern_parts)

lemma decision_request_iff:
  "decision_request m path \<longleftrightarrow> m = ''POST'' \<and> cleanPath path = path \<and> path_matches path ''POST /v1/action-decisions''"
  by (simp add: decision_request_def path_matches_def pattern_parts)

text \<open>The three ways a request misses the decision service.\<close>

lemma ServeHTTP_cases:
  assumes "NewHandler (Some authenticator) (Some evaluator) = Inr routes" "\<not> decision_request m path"
  obtains (Redirect) "cleanPath path \<noteq> path" "ServeHTTP redirect routes m path request w = (redirect (cleanPath path), w)"
    | (Health) "ServeHTTP redirect routes m path request w = (health, w)"
    | (Miss) headers message where "ServeHTTP redirect routes m path request w = (http_Error headers 405 message, w)"
    | (Unknown) headers message where "ServeHTTP redirect routes m path request w = (http_Error headers 404 message, w)"
proof -
  obtain handle where routes: "routes = [(''GET /healthz'', \<lambda>_ w. (health, w)), (''POST /v1/action-decisions'', handle)]"
    using assms(1) by (auto simp: NewHandler_def Let_def)
  show thesis
  proof (cases "m \<noteq> ''CONNECT'' \<and> cleanPath path \<noteq> path")
    case True
    then show thesis using Redirect by (simp add: ServeHTTP_def)
  next
    case False
    then have clean: "(if m = ''CONNECT'' then path else cleanPath path) = path" by auto
    have "m = ''POST'' \<Longrightarrow> \<not> path_matches path ''POST /v1/action-decisions''"
      using assms(2) False by (auto simp: decision_request_iff)
    then have result: "ServeHTTP redirect routes m path request w =
        (if (m = ''GET'' \<or> m = ''HEAD'') \<and> path_matches path ''GET /healthz'' then (health, w)
         else (if allowed_methods path (map fst routes) \<noteq> []
               then http_Error [(''Allow'', strings_Join '', '' (allowed_methods path (map fst routes)))] 405 ''Method Not Allowed''
               else http_Error [] 404 ''404 page not found'', w))"
      unfolding ServeHTTP_def Let_def clean by (auto simp: routes route_methods)
    show thesis
    proof (cases "(m = ''GET'' \<or> m = ''HEAD'') \<and> path_matches path ''GET /healthz''")
      case True
      then show thesis using result by (intro Health) simp
    next
      case False
      note missed = result [unfolded if_not_P [OF False]]
      show thesis
      proof (cases "allowed_methods path (map fst routes) = []")
        case True
        then show thesis using missed by (intro Unknown [of "[]" "''404 page not found''"]) simp
      next
        case False
        show thesis by (rule Miss, rule missed [unfolded if_P [OF False]])
      qed
    qed
  qed
qed

lemma ServeHTTP_decision:
  assumes "NewHandler (Some authenticator) (Some evaluator) = Inr routes" "decision_request m path"
  shows "ServeHTTP redirect routes m path request w =
    evaluateAction \<lparr>runtimeAuthenticator = authenticator, decisionEvaluator = evaluator\<rparr> request w"
proof -
  have path: "m = ''POST''" "cleanPath path = path" "path_matches path ''POST /v1/action-decisions''"
    using assms(2) by (simp_all add: decision_request_iff)
  have routes: "routes = [(''GET /healthz'', \<lambda>_ w. (health, w)),
      (''POST /v1/action-decisions'', evaluateAction \<lparr>runtimeAuthenticator = authenticator, decisionEvaluator = evaluator\<rparr>)]"
    using assms(1) unfolding NewHandler_def by (simp add: Let_def)
  have clean: "(if m = ''CONNECT'' then path else cleanPath path) = path" using path(2) by simp
  have "find (\<lambda>(pattern, _). method_matches m pattern \<and> path_matches path pattern) routes =
      Some (''POST /v1/action-decisions'', evaluateAction \<lparr>runtimeAuthenticator = authenticator, decisionEvaluator = evaluator\<rparr>)"
    using path(1,3) by (simp add: routes route_methods)
  then show ?thesis unfolding ServeHTTP_def Let_def clean by simp
qed

lemma decision_path: "decision_request ''POST'' ''/v1/action-decisions''"
  by code_simp

end
