(* ===== verification/HttpServer.thy ===== *)
theory HttpServer
  imports Concurrent Routing
begin

text \<open>
  The HTTP server with calls in flight. A call is routed and admitted when it arrives; an admitted one
  runs the use case one port call at a time and is then answered. Calls interleave freely. A call
  that runs alone is answered as \<^verbatim>\<open>ServeHTTP\<close> answers it; in every interleaving, successful responses to one
  request identifier of one runtime are equal.
\<close>

section \<open>Calls in flight\<close>

record http_call =
  call_Method :: string
  call_Path :: string
  call_Request :: HttpRequest

datatype connection =
    InFlight EvaluateActionRequest request phase
  | Responded HttpResponse

text \<open>What the server consists of: the answer to unclean paths, the authenticator and the ports.\<close>

record 'w server =
  server_redirect :: "string \<Rightarrow> HttpResponse"
  server_authenticate :: RuntimeAuthenticator
  server_ports :: "'w Ports"

definition server_routes :: "'w server \<Rightarrow> (string \<times> (HttpRequest \<Rightarrow> 'w \<Rightarrow> HttpResponse \<times> 'w)) list" where
  "server_routes s =
     (case NewHandler (Some (server_authenticate s)) (Some (Evaluate (Some (server_ports s)))) of
        Inl _ \<Rightarrow> [] | Inr routes \<Rightarrow> routes)"

definition serve_call :: "'w server \<Rightarrow> http_call \<Rightarrow> 'w \<Rightarrow> HttpResponse \<times> 'w" where
  "serve_call s call w =
     ServeHTTP (server_redirect s) (server_routes s) (call_Method call) (call_Path call) (call_Request call) w"

text \<open>The part of a call before its first port call.\<close>

definition accept :: "'w server \<Rightarrow> http_call \<Rightarrow> 'w \<Rightarrow> connection" where
  "accept s call w =
     (if decision_request (call_Method call) (call_Path call) then
        (case admit (server_authenticate s) (call_Request call) of
           Inl response \<Rightarrow> Responded response
         | Inr (runtime, decoded, command) \<Rightarrow> InFlight decoded (runtime, command) (start_request (runtime, command)))
      else Responded (fst (serve_call s call w)))"

inductive server_step :: "'w server \<Rightarrow> 'w \<times> (http_call \<times> connection) list \<Rightarrow> 'w \<times> (http_call \<times> connection) list \<Rightarrow> bool"
  for s where
  Accept: "server_step s (w, cs) (w, cs @ [(call, accept s call w)])"
| Proceed: "advance (server_ports s) (authenticated_runtimeID (fst r)) p w = (p', w') \<Longrightarrow>
    server_step s (w, xs @ (call, InFlight decoded r p) # ys) (w', xs @ (call, InFlight decoded r p') # ys)"
| Respond: "server_step s (w, xs @ (call, InFlight decoded r (Answered res)) # ys)
    (w, xs @ (call, Responded (decision_answer (request_RequestID decoded) res)) # ys)"

section \<open>A call alone\<close>

fun complete :: "'w server \<Rightarrow> connection \<Rightarrow> 'w \<Rightarrow> HttpResponse \<times> 'w" where
  "complete s (Responded response) w = (response, w)"
| "complete s (InFlight decoded r p) w =
     (case finish (server_ports s) (authenticated_runtimeID (fst r)) p w of
        (res, w') \<Rightarrow> (decision_answer (request_RequestID decoded) res, w'))"

lemma server_routes: "NewHandler (Some (server_authenticate s)) (Some (Evaluate (Some (server_ports s)))) = Inr (server_routes s)"
  by (simp add: server_routes_def NewHandler_def Let_def)

lemma serve_call_other:
  assumes "\<not> decision_request (call_Method call) (call_Path call)"
  shows "snd (serve_call s call w) = w"
  unfolding serve_call_def
  by (rule ServeHTTP_cases [OF server_routes [of s] assms, of "server_redirect s" "call_Request call" w]) simp_all

lemma complete_accept: "complete s (accept s call w) w = serve_call s call w"
proof (cases "decision_request (call_Method call) (call_Path call)")
  case True
  show ?thesis
    using True finish_Evaluate [of "server_ports s"]
    by (auto simp: accept_def serve_call_def ServeHTTP_decision [OF server_routes True] evaluateAction_eq
        split: sum.split prod.split)
next
  case False
  then show ?thesis using serve_call_other [OF False, of s w] by (simp add: accept_def prod_eq_iff)
qed

section \<open>Agreement\<close>

text \<open>A successful answer of the decision path, by the record the request is bound to.\<close>

definition decided :: "('w \<Rightarrow> string \<Rightarrow> string \<Rightarrow> DecisionRecord \<Rightarrow> bool) \<Rightarrow> 'w server \<Rightarrow> 'w \<Rightarrow> http_call \<Rightarrow> HttpResponse \<Rightarrow> bool" where
  "decided binding s w call response \<longleftrightarrow>
     (\<exists>rid qid rec. http_key (server_authenticate s) (call_Request call) = Some (rid, qid) \<and>
        binding w rid (TrimSpace qid) rec \<and> response = decision_answer qid (Inr rec))"

text \<open>What the transport cannot check about the calls, as \<open>sound_request\<close> states it; calls are never forgotten.\<close>

definition sound_calls :: "'w server \<Rightarrow> (http_call \<times> connection) list \<Rightarrow> bool" where
  "sound_calls s cs \<longleftrightarrow> (\<forall>call \<in> fst ` set cs. sound_request (server_authenticate s) (call_Request call))"

lemma server_step_calls: "server_step s state state' \<Longrightarrow> fst ` set (snd state) \<subseteq> fst ` set (snd state')"
  by (induction rule: server_step.induct) auto

lemma sound_calls_before: "server_step s state state' \<Longrightarrow> sound_calls s (snd state') \<Longrightarrow> sound_calls s (snd state)"
  using server_step_calls unfolding sound_calls_def by blast

abbreviation succeeded :: "http_call \<Rightarrow> HttpResponse \<Rightarrow> bool" where
  "succeeded call response \<equiv> decision_request (call_Method call) (call_Path call) \<and> resp_status response = 200"

lemma sublist_replace:
  "(\<forall>x \<in> set (xs @ y # ys). P x) \<Longrightarrow> Q z \<Longrightarrow> (\<And>x. P x \<Longrightarrow> Q x) \<Longrightarrow> \<forall>x \<in> set (xs @ z # ys). Q x"
  by auto

context decision_ports
begin

fun connection_ok :: "'w server \<Rightarrow> 'w \<Rightarrow> http_call \<times> connection \<Rightarrow> bool" where
  "connection_ok s w (call, InFlight decoded r p) \<longleftrightarrow>
     admit (server_authenticate s) (call_Request call) = Inr (fst r, decoded, snd r) \<and>
     wf_request (fst r) (snd r) \<and> phase_ok r w p"
| "connection_ok s w (call, Responded response) \<longleftrightarrow> (succeeded call response \<longrightarrow> decided binding s w call response)"

definition server_ok :: "'w server \<Rightarrow> 'w \<times> (http_call \<times> connection) list \<Rightarrow> bool" where
  "server_ok s state \<longleftrightarrow> invar (fst state) \<and> (\<forall>c \<in> set (snd state). connection_ok s (fst state) c)"

lemma connection_ok_keeps: "connection_ok s w c \<Longrightarrow> keeps invar binding w w' \<Longrightarrow> connection_ok s w' c"
  by (cases "(s, w, c)" rule: connection_ok.cases)
    (auto simp: decided_def phase_ok_keeps dest: keeps_binding)

lemma accept_ok:
  assumes "sound_request (server_authenticate s) (call_Request call)"
  shows "connection_ok s w (call, accept s call w)"
proof (cases "admit (server_authenticate s) (call_Request call)")
  case (Inl response)
  then show ?thesis using admit_status [OF Inl] by (auto simp: accept_def)
next
  case (Inr t)
  obtain runtime decoded command where t: "t = (runtime, decoded, command)" by (cases t)
  show ?thesis
    using sound_request_wf [OF assms Inr [unfolded t]] start_ok [of "(runtime, command)" w]
    by (simp add: accept_def Inr t)
qed

lemma respond_ok:
  assumes "connection_ok s w (call, InFlight decoded r (Answered res))"
  shows "connection_ok s w (call, Responded (decision_answer (request_RequestID decoded) res))"
proof -
  have adm: "admit (server_authenticate s) (call_Request call) = Inr (fst r, decoded, snd r)" using assms by simp
  show ?thesis
    using assms command_requestID(1) [OF admit_Inr(2) [OF adm]]
    by (auto simp: decision_answer_200_iff decided_def http_key_def request_key_def)
qed

lemma server_step_ok:
  assumes "server_ports s = ports" "server_step s state state'" "server_ok s state" "sound_calls s (snd state')"
  shows "server_ok s state'"
  using assms(2,3,4)
proof (induction rule: server_step.induct)
  case (Accept w cs call)
  then show ?case using accept_ok [of s call w] by (simp add: server_ok_def sound_calls_def)
next
  case (Proceed r p w p' w' xs call decoded ys)
  have inv: "invar w" and all: "\<forall>c \<in> set (xs @ (call, InFlight decoded r p) # ys). connection_ok s w c"
    using Proceed(2) by (simp_all add: server_ok_def)
  have c: "connection_ok s w (call, InFlight decoded r p)" by (rule bspec [OF all]) simp
  have step: "keeps invar binding w w'" "phase_ok r w' p'"
    using advance_ok [OF inv _ _ Proceed(1) [unfolded assms(1)]] c by simp_all
  then have "connection_ok s w' (call, InFlight decoded r p')" using c by simp
  then have "\<forall>c \<in> set (xs @ (call, InFlight decoded r p') # ys). connection_ok s w' c"
    by (rule sublist_replace [OF all]) (rule connection_ok_keeps [OF _ step(1)])
  then show ?case using keeps_invar [OF step(1)] by (simp only: server_ok_def fst_conv snd_conv)
next
  case (Respond w xs call decoded r res ys)
  have inv: "invar w" and all: "\<forall>c \<in> set (xs @ (call, InFlight decoded r (Answered res)) # ys). connection_ok s w c"
    using Respond by (simp_all add: server_ok_def)
  have "connection_ok s w (call, InFlight decoded r (Answered res))" by (rule bspec [OF all]) simp
  then have "\<forall>c \<in> set (xs @ (call, Responded (decision_answer (request_RequestID decoded) res)) # ys). connection_ok s w c"
    by (intro sublist_replace [OF all] respond_ok)
  then show ?case using inv by (simp only: server_ok_def fst_conv snd_conv)
qed

lemma server_run_ok:
  assumes "(server_step s)\<^sup>*\<^sup>* state state'" "server_ports s = ports" "server_ok s state" "sound_calls s (snd state')"
  shows "server_ok s state'"
  using assms(1,4)
proof (induction rule: rtranclp_induct)
  case base
  then show ?case using assms(3) by simp
next
  case (step t u)
  have "server_ok s t" using step(3) sound_calls_before [OF step(2,4)] by blast
  then show ?case by (rule server_step_ok [OF assms(2) step(2) _ step(4)])
qed

lemma server_decided:
  assumes "server_ports s = ports" "invar w" "(server_step s)\<^sup>*\<^sup>* (w, []) (w', cs)" "sound_calls s cs"
    and "(call, Responded response) \<in> set cs" "succeeded call response"
  shows "invar w' \<and> decided binding s w' call response"
proof -
  have "server_ok s (w, [])" using assms(2) by (simp add: server_ok_def)
  then have "server_ok s (w', cs)" using server_run_ok [OF assms(3,1)] assms(4) by simp
  then have inv: "invar w'" and all: "\<forall>c \<in> set cs. connection_ok s w' c" by (simp_all add: server_ok_def)
  then show ?thesis using bspec [OF all assms(5)] assms(6) by simp
qed

lemma decided_unique:
  assumes "invar w" "decided binding s w call1 response1" "decided binding s w call2 response2"
    and "http_key (server_authenticate s) (call_Request call1) = http_key (server_authenticate s) (call_Request call2)"
  shows "response1 = response2"
  using assms binding_unique [OF assms(1)] unfolding decided_def by fastforce

end

end
