(* ===== verification/ConcurrentProperties.thy ===== *)
theory ConcurrentProperties
  imports HttpServer ScenarioHttp
begin

text \<open>
  The properties of concurrent requests, with a race as the witness: two copies of one request look
  the ledger up before either has committed.
\<close>

text \<open>
  C3. However the port calls of concurrent requests interleave, all requests of one runtime with one
  identifier that are answered with success are answered with the same decision record. The requests
  have UTF-8 texts and requested times in the years 0 to 9999 (\<open>wf_request\<close>, a condition of arriving).
\<close>

theorem interleaved_answers_agree:
  assumes "decision_ports ports invar binding" "invar w" "(system_step ports)\<^sup>*\<^sup>* (w, []) (w', ts)"
    and "(r1, Answered (Inr rec1)) \<in> set ts" "(r2, Answered (Inr rec2)) \<in> set ts" "request_key r1 = request_key r2"
  shows "rec1 = rec2"
  by (rule decision_ports.concurrent_agreement [OF assms])

section \<open>A race\<close>

abbreviation sc_ports :: "process Ports" where
  "sc_ports \<equiv> process_ports EmbeddedEvaluator"

definition second_ID :: string where
  "second_ID = ''decision'' @ ''_'' @ hex_EncodeToString (replicate 16 1)"

definition sc_named :: "string \<Rightarrow> EvaluationCommit" where
  "sc_named decisionID = sc_commit\<lparr>commit_DecisionID := decisionID\<rparr>"

abbreviation race_world :: "sqlite_world \<Rightarrow> Time list \<Rightarrow> nat list option list \<Rightarrow> process" where
  "race_world db clock random \<equiv> \<lparr>p_db = db, p_clock = clock, p_random = random, p_rpc = []\<rparr>"

lemma second_ID_facts: "TrimSpace second_ID = second_ID" "second_ID \<noteq> []"
proof -
  have eq: "second_ID = ''decision_01010101010101010101010101010101''" by code_simp
  show "TrimSpace second_ID = second_ID" "second_ID \<noteq> []" unfolding eq by (simp_all add: TrimSpace_ascii)
qed

lemma race_start: "start_request (sc_runtime, sc_command) = Looking ''request-1'' sc_action sc_digest"
  using sc_normalize sc_digest
  by (simp del: Normalize_Inr add: start_request_def sc_command_def normalizeDecisionRequestID_def wf_identifier_TrimSpace)

lemma race_look:
  "advance sc_ports ''runtime-1'' (Looking ''request-1'' sc_action sc_digest) (race_world sc_db ts rs) =
     (Evaluating ''request-1'' sc_action sc_digest, race_world sc_db ts rs)"
  using sc_reads(2) by (simp add: process_ports_def ledger_Get_def on_db_def errors_Is_def)

definition sc_allowed :: PolicyEvaluation where
  "sc_allowed = \<lparr>DenyReasonCodes = [], Effects = [], MatchedRuleIDs = [], PolicyVersion = embedded_Version\<rparr>"

lemma race_evaluate:
  "advance sc_ports ''runtime-1'' (Evaluating ''request-1'' sc_action sc_digest) w =
     (NamingDecision ''request-1'' sc_action sc_digest sc_allowed NewAllowDecision, w)"
  using sc_evaluation
  by (simp add: process_ports_def sc_allowed_def validatePolicyEvaluation_def Compose_def embedded_Version_def
      wf_identifier_TrimSpace)

lemma race_name:
  assumes "decisionID = ''decision'' @ ''_'' @ hex_EncodeToString bytes" "TrimSpace decisionID = decisionID" "decisionID \<noteq> []"
  shows "advance sc_ports ''runtime-1'' (NamingDecision ''request-1'' sc_action sc_digest sc_allowed NewAllowDecision)
      (race_world db ts (Some bytes # rs)) =
    (NamingEffects ((sc_named decisionID)\<lparr>commit_EvaluatedAt := zero_time\<rparr>) [], race_world db ts rs)"
proof -
  have "newRequiredID sc_ports IDDecision (race_world db ts (Some bytes # rs)) = (Inr decisionID, race_world db ts rs)"
    using assms by (simp add: newRequiredID_def process_ports_def process_NewID_def randomIDGenerator_NewID_def)
  then show ?thesis
    by (simp add: sc_named_def sc_commit_def sc_allowed_def embedded_Version_def wf_identifier_TrimSpace)
qed

lemma race_time:
  "advance sc_ports ''runtime-1'' (NamingEffects ((sc_named i)\<lparr>commit_EvaluatedAt := zero_time\<rparr>) []) (race_world db (sc_time # ts) rs) =
     (Committing (sc_named i), race_world db ts rs)"
proof -
  have "(sc_named i)\<lparr>commit_EvaluatedAt := sc_time\<rparr> = sc_named i" by (simp add: sc_named_def sc_commit_def)
  then show ?thesis using sc_time_facts by (simp add: process_ports_def systemClock_Now_def)
qed

lemma race_commit:
  "advance sc_ports ''runtime-1'' (Committing (sc_named sc_decisionID)) (race_world sc_db ts rs) =
     (Answered (Inr sc_record), race_world sc_stored ts rs)"
proof -
  have "sc_named sc_decisionID = sc_commit" "commit_ActionDigest sc_commit = sc_digest"
    by (simp_all add: sc_named_def sc_commit_def)
  then show ?thesis using sc_commits sc_validated by (simp add: process_ports_def ledger_Commit_def on_db_def)
qed

text \<open>The second commit finds the first and returns its record.\<close>

lemma race_second_commit:
  "advance sc_ports ''runtime-1'' (Committing (sc_named second_ID)) (race_world sc_stored ts rs) =
     (Answered (Inr sc_record), race_world sc_stored ts rs)"
proof -
  have "encodeEvaluation (sc_named second_ID) = Inr sc_encoded"
    using sc_encode(1) second_ID_facts unfolding encodeEvaluation_Inr_iff by (simp add: sc_named_def encodeEffects_def)
  moreover have "record_ActionDigest sc_record = sc_digest"
    by (simp add: sc_record_def decisionRecordFromCommit_def sc_commit_def)
  moreover have "commit_RuntimeID (sc_named second_ID) = ''runtime-1''" "commit_RequestID (sc_named second_ID) = ''request-1''"
    "commit_ActionDigest (sc_named second_ID) = sc_digest"
    by (simp_all add: sc_named_def sc_commit_def)
  ultimately show ?thesis
    using sc_reads(1) sc_validated
    by (simp add: process_ports_def ledger_Commit_def on_db_def CommitEvaluation_def resolveExisting_def sc_stored_evaluation_def)
qed

definition race_begin :: process where
  "race_begin = race_world sc_db [sc_time, sc_time] [Some (replicate 16 0), Some (replicate 16 1)]"

abbreviation racers :: "phase \<Rightarrow> phase \<Rightarrow> (request \<times> phase) list" where
  "racers p q \<equiv> [((sc_runtime, sc_command), p), ((sc_runtime, sc_command), q)]"

lemma first_steps:
  "advance sc_ports ''runtime-1'' p w = (p', w') \<Longrightarrow> system_step sc_ports (w, racers p q) (w', racers p' q)"
  "advance sc_ports ''runtime-1'' q w = (q', w') \<Longrightarrow> system_step sc_ports (w, racers p q) (w', racers p q')"
  using Advance [of sc_ports "(sc_runtime, sc_command)" p w p' w' "[]"]
    Advance [of sc_ports "(sc_runtime, sc_command)" q w q' w' "[((sc_runtime, sc_command), p)]" "[]"]
  by (simp_all add: sc_runtime_def)

lemma race_arrivals: "(system_step sc_ports)\<^sup>*\<^sup>* (w, [])
    (w, racers (Looking ''request-1'' sc_action sc_digest) (Looking ''request-1'' sc_action sc_digest))"
proof -
  have "system_step sc_ports (w, ts) (w, ts @ [((sc_runtime, sc_command), Looking ''request-1'' sc_action sc_digest)])" for ts
    using Arrive [of "(sc_runtime, sc_command)"] sc_wf_request race_start by simp
  from this [of "[]"] this [of "[((sc_runtime, sc_command), Looking ''request-1'' sc_action sc_digest)]"] show ?thesis
    by (simp add: rtranclp.rtrancl_into_rtrancl)
qed

lemmas race_moves =
  first_steps(1) [OF race_look] first_steps(2) [OF race_look] first_steps(1) [OF race_evaluate]
  first_steps(2) [OF race_evaluate] first_steps(1) [OF race_name [OF sc_decisionID_def sc_decisionID_facts(2,3)]]
  first_steps(2) [OF race_name [OF second_ID_def second_ID_facts]] first_steps(1) [OF race_time]
  first_steps(2) [OF race_time] first_steps(1) [OF race_commit] first_steps(2) [OF race_second_commit]

lemma race_run: "(system_step sc_ports)\<^sup>*\<^sup>* (race_begin, [])
    (race_world sc_stored [] [], racers (Answered (Inr sc_record)) (Answered (Inr sc_record)))"
  unfolding race_begin_def
  by (rule rtranclp_trans [OF race_arrivals]) ((rule converse_rtranclp_into_rtranclp, rule race_moves)+, rule rtranclp.rtrancl_refl)

lemma race_begin_invar: "process_invar race_begin"
  using sc_at_rest(3) sc_time_facts by (simp add: race_begin_def process_invar_def)

theorem interleaved_answers_agree_witness:
  "\<exists>ts rec1 rec2. (system_step sc_ports)\<^sup>*\<^sup>* (race_begin, []) (race_world sc_stored [] [], ts) \<and>
     map snd ts = [Answered (Inr rec1), Answered (Inr rec2)] \<and> rec1 = rec2"
proof (intro exI conjI)
  show "(system_step sc_ports)\<^sup>*\<^sup>* (race_begin, []) (race_world sc_stored [] [], racers (Answered (Inr sc_record)) (Answered (Inr sc_record)))"
    by (rule race_run)
  show "map snd (racers (Answered (Inr sc_record)) (Answered (Inr sc_record))) = [Answered (Inr sc_record), Answered (Inr sc_record)]"
    by simp
  from race_begin_invar show "sc_record = sc_record"
    by (rule interleaved_answers_agree [OF embedded.decision_ports_axioms _ race_run, of "(sc_runtime, sc_command)" _ "(sc_runtime, sc_command)"])
      simp_all
qed

section \<open>The race over HTTP\<close>

abbreviation sc_server :: "process server" where
  "sc_server \<equiv> \<lparr>server_redirect = \<lambda>_. health, server_authenticate = Authenticate (Some sc_tokens), server_ports = sc_ports\<rparr>"

definition sc_call :: http_call where
  "sc_call = \<lparr>call_Method = ''POST'', call_Path = ''/v1/action-decisions'', call_Request = sc_http_request\<rparr>"

abbreviation flight :: "phase \<Rightarrow> connection" where
  "flight p \<equiv> InFlight sc_decoded (sc_runtime, sc_command) p"

abbreviation callers :: "connection \<Rightarrow> connection \<Rightarrow> (http_call \<times> connection) list" where
  "callers c d \<equiv> [(sc_call, c), (sc_call, d)]"

lemma call_accepted: "accept sc_server sc_call w = flight (Looking ''request-1'' sc_action sc_digest)"
  by (simp add: accept_def sc_call_def decision_path sc_admitted race_start)

lemma call_steps:
  "advance sc_ports ''runtime-1'' p w = (p', w') \<Longrightarrow> server_step sc_server (w, callers (flight p) d) (w', callers (flight p') d)"
  "advance sc_ports ''runtime-1'' p w = (p', w') \<Longrightarrow> server_step sc_server (w, callers c (flight p)) (w', callers c (flight p'))"
  using Proceed [of sc_server "(sc_runtime, sc_command)" p w p' w' "[]" sc_call sc_decoded "[(sc_call, d)]"]
    Proceed [of sc_server "(sc_runtime, sc_command)" p w p' w' "[(sc_call, c)]" sc_call sc_decoded "[]"]
  by (simp_all add: sc_runtime_def)

lemma call_responses:
  "server_step sc_server (w, callers (flight (Answered (Inr sc_record))) d) (w, callers (Responded sc_response) d)"
  "server_step sc_server (w, callers c (flight (Answered (Inr sc_record)))) (w, callers c (Responded sc_response))"
  using Respond [of sc_server w "[]" sc_call sc_decoded "(sc_runtime, sc_command)" "Inr sc_record" "[(sc_call, d)]"]
    Respond [of sc_server w "[(sc_call, c)]" sc_call sc_decoded "(sc_runtime, sc_command)" "Inr sc_record" "[]"]
  by (simp_all add: sc_response_def) (simp_all add: sc_decoded_def)

lemma call_arrivals: "(server_step sc_server)\<^sup>*\<^sup>* (w, []) (w, callers (flight (Looking ''request-1'' sc_action sc_digest))
    (flight (Looking ''request-1'' sc_action sc_digest)))"
proof -
  have "server_step sc_server (w, cs) (w, cs @ [(sc_call, flight (Looking ''request-1'' sc_action sc_digest))])" for cs
    using Accept [of sc_server w cs sc_call] call_accepted by simp
  from this [of "[]"] this [of "[(sc_call, flight (Looking ''request-1'' sc_action sc_digest))]"] show ?thesis
    by (simp add: rtranclp.rtrancl_into_rtrancl)
qed

lemmas call_moves =
  call_steps(1) [OF race_look] call_steps(2) [OF race_look] call_steps(1) [OF race_evaluate]
  call_steps(2) [OF race_evaluate] call_steps(1) [OF race_name [OF sc_decisionID_def sc_decisionID_facts(2,3)]]
  call_steps(2) [OF race_name [OF second_ID_def second_ID_facts]] call_steps(1) [OF race_time]
  call_steps(2) [OF race_time] call_steps(1) [OF race_commit] call_steps(2) [OF race_second_commit]
  call_responses

lemma call_run: "(server_step sc_server)\<^sup>*\<^sup>* (race_begin, [])
    (race_world sc_stored [] [], callers (Responded sc_response) (Responded sc_response))"
  unfolding race_begin_def
  by (rule rtranclp_trans [OF call_arrivals])
    ((rule converse_rtranclp_into_rtranclp, rule call_moves)+, rule rtranclp.rtrancl_refl)

end
