(* ===== verification/LateRequests.thy ===== *)
theory LateRequests
  imports Scenario
begin

text \<open>
  Requests whose time lies beyond the year 9999 in UTC. The canonical layout then writes five digits
  for the year, which \<^verbatim>\<open>time.Parse\<close> does not read back: such an action is stored, and every later read
  of it fails.
\<close>

lemma nat_dec_length_ge: "10 ^ k \<le> n \<Longrightarrow> k < length (nat_dec n)"
proof (induction k arbitrary: n)
  case (Suc k)
  then have "10 ^ k \<le> n div 10" by (simp add: less_eq_div_iff_mult_less_eq)
  moreover have "10 \<le> n" using Suc.prems by (cases k) (auto intro: order_trans [rotated])
  ultimately show ?case using Suc.IH by (subst nat_dec.simps) simp
qed simp

lemma parse_late_year:
  assumes "10000 \<le> n"
  shows "parse_rfc3339nano (pad_nat 4 n @ rest) = None"
proof -
  have len: "4 < length (nat_dec n)" using nat_dec_length_ge [of 4 n] assms by simp
  then have pad: "pad_nat 4 n = nat_dec n" by (simp add: pad_nat_def)
  obtain c t where drop: "drop 4 (nat_dec n) = c # t" using len by (cases "drop 4 (nat_dec n)") auto
  then have "c \<in> set (nat_dec n)" by (metis in_set_dropD list.set_intros(1))
  then have "expect CHR ''-'' (drop 4 (nat_dec n) @ rest) = None"
    using nat_dec_digits [of c n] drop by (auto simp: expect_def is_digit_def)
  then show ?thesis using len by (simp add: parse_rfc3339nano_def get_year_def pad)
qed

lemma canonical_time_late: "9999 < c_year (civil_of t) \<Longrightarrow> time_Parse (format_canonical t) = Inl []"
  by (simp add: format_canonical_def Let_def format_seconds_def appendInt_def time_Parse_def parse_late_year)

lemma decodeAction_late:
  assumes "wf_action a" "utf8_action a" "9999 < c_year (civil_of (action_requestedAt a))" "CanonicalActionBytes a = Inr b"
  shows "decodeAction b = Inl []"
proof -
  obtain p where p: "action_parameters a = Some p" using assms(1) by (auto simp: wf_action_def)
  obtain params where params: "canonicalParameters (Some p) = Inr params" "b = json_print (canonicalAction a params)"
    using CanonicalActionBytes_wf [OF assms(1)] p assms(4) by auto
  have "Time_UTC (action_requestedAt a) = action_requestedAt a"
    using assms(1) by (simp add: wf_action_def Time_UTC_id)
  then show ?thesis
    using json_ok_canonicalAction [OF assms(2) p params(1)] dec_persistedAction_canonical [OF assms(2)]
      canonical_time_late [OF assms(3)]
    by (simp add: decodeAction_def params(2) json_unmarshal_print)
qed

lemma reconstruct_late:
  assumes "storable c" "encodeEvaluation c = Inr e" "9999 < c_year (civil_of (action_requestedAt (commit_Action c)))"
  shows "reconstruct r q (committed_row c e) = Inl [Application ErrLedgerFailure]"
proof -
  have "decodeAction (enc_actionJSON e) = Inl []"
    using decodeAction_late assms unfolding storable_def encodeEvaluation_Inr_iff by blast
  then show ?thesis by (simp add: reconstruct_def committed_row_def)
qed

text \<open>
  C39. An evaluation whose action was requested after the year 9999 is committed with success on a
  store where nothing fails, and the next lookup of the same request fails with \<^verbatim>\<open>ErrLedgerFailure\<close>.
\<close>

theorem late_request_unreadable:
  assumes "storable c" "encodeEvaluation c = Inr e" "admissible w c e" "at_rest w"
    and "9999 < c_year (civil_of (action_requestedAt (commit_Action c)))"
  shows "\<exists>w'. CommitEvaluation (Some table_ops) c w = (Inr (decisionRecordFromCommit c), w') \<and>
    GetEvaluationByRequestID (Some table_ops) (commit_RuntimeID c) (commit_RequestID c) w' =
      (Inl [Application ErrLedgerFailure], w')"
  using rest_commit [OF assms(1-4)] encode_trim [OF assms(2,1)] select_committed_rows [OF assms(3)]
    reconstruct_late [OF assms(1,2,5)] assms(4)
  by (simp add: rest_get at_rest_def)

definition late_time :: Time where
  "late_time = \<lparr>instant = 315537897600 * 10 ^ 9, zone_offset = 0\<rparr>"

definition late_action :: ProposedAction where
  "late_action = sc_action\<lparr>action_requestedAt := late_time\<rparr>"

definition late_commit :: EvaluationCommit where
  "late_commit = sc_commit\<lparr>commit_Action := late_action, commit_ActionDigest := projr (ComputeActionDigest late_action)\<rparr>"

lemma late_action_wf: "wf_action late_action" "utf8_action late_action"
  using sc_action_wf sc_action_utf8
  by (simp_all add: late_action_def wf_action_def utf8_action_def late_time_def utc_time_def Time_IsZero_def)

lemma late_year: "c_year (civil_of late_time) = 10000"
  by code_simp

lemma late_storable: "storable late_commit"
  using sc_storable late_action_wf by (simp add: storable_def late_commit_def)

lemma late_encode: "\<exists>e. encodeEvaluation late_commit = Inr e \<and> enc_effects e = []"
proof -
  obtain b where b: "CanonicalActionBytes late_action = Inr b"
    using CanonicalActionBytes_wf [OF late_action_wf(1)] by blast
  obtain d where d: "ComputeActionDigest late_action = Inr d"
    using ComputeActionDigest_wf [OF late_action_wf(1)] by blast
  note sc = sc_encode(1) [unfolded encodeEvaluation_Inr_iff]
  have "commit_Action sc_commit = sc_action" by (simp add: sc_commit_def)
  have "encodeEffects late_commit = Inr []" using sc by (simp add: late_commit_def encodeEffects_def sc_commit_def)
  then have "encodeEvaluation late_commit = Inr (sc_encoded\<lparr>enc_actionJSON := b, enc_effects := []\<rparr>)"
    unfolding encodeEvaluation_Inr_iff using sc b d \<open>commit_Action sc_commit = sc_action\<close> by (simp add: late_commit_def late_action_def)
  then show ?thesis by force
qed

theorem late_request_unreadable_witness:
  "\<exists>w'. CommitEvaluation (Some table_ops) late_commit sc_db = (Inr (decisionRecordFromCommit late_commit), w') \<and>
    GetEvaluationByRequestID (Some table_ops) ''runtime-1'' ''request-1'' w' = (Inl [Application ErrLedgerFailure], w')"
proof -
  obtain e where e: "encodeEvaluation late_commit = Inr e" "enc_effects e = []" using late_encode by blast
  have "nul_free late_commit" using sc_nul_free by (simp add: nul_free_def late_commit_def)
  then have "admissible sc_db late_commit e"
    using action_row_checks [OF late_storable e(1)] decision_row_checks [OF late_storable e(1)] e(2)
    by (simp add: admissible_def sc_db_def complete_def no_rows_def store_ok_def unique_keys_def add_rows_def commit_rows_def)
  from late_request_unreadable [OF late_storable e(1) this sc_at_rest(1)] show ?thesis
    using late_year by (simp add: late_commit_def late_action_def sc_commit_def)
qed

end
