(* ===== verification/ServiceFailures.thy ===== *)
theory ServiceFailures
  imports Service
begin

text \<open>
  Which failure of a port the decision service (\<^verbatim>\<open>internal/application/decision_service.go\<close>) reports as
  what. The rules of \<open>port_failure\<close> list, port by port, what counts as a failure, the sentinel of
  \<^verbatim>\<open>errors.go\<close> it has to be reported with and the world it is reported in, which is the one the failing
  port left: nothing is called after it.
\<close>

section \<open>The failures of the ports\<close>

text \<open>Drawing identifiers one after the other; an error or a blank identifier ends it.\<close>

fun draw_ids :: "'w Ports \<Rightarrow> IDKind list \<Rightarrow> 'w \<Rightarrow> string list option \<times> 'w" where
  "draw_ids ports [] w = (Some [], w)"
| "draw_ids ports (kind # kinds) w =
     (case port_NewID ports kind w of
        (Inl e, w1) \<Rightarrow> (None, w1)
      | (Inr value, w1) \<Rightarrow>
          if TrimSpace value = [] then (None, w1)
          else (case draw_ids ports kinds w1 of (ids, w2) \<Rightarrow> (map_option ((#) (TrimSpace value)) ids, w2)))"

definition id_kinds :: "PolicyEvaluation \<Rightarrow> IDKind list" where
  "id_kinds evaluation = IDDecision # replicate (length (Effects evaluation)) IDPolicyEffect"

definition decisive :: "PolicyEvaluation \<Rightarrow> Decision \<Rightarrow> bool" where
  "decisive evaluation decision \<longleftrightarrow> validatePolicyEvaluation evaluation = Inr () \<and> Compose evaluation = Inr decision"

definition authoritative :: "DecisionRecord \<Rightarrow> string \<Rightarrow> bool" where
  "authoritative rec d \<longleftrightarrow>
     TrimSpace (record_DecisionID rec) \<noteq> [] \<and> DecisionType_Valid (decision_typ (record_Decision rec)) \<and>
     record_ActionDigest rec = d \<and> TrimSpace (record_PolicyVersion rec) \<noteq> [] \<and> \<not> Time_IsZero (record_EvaluatedAt rec)"

definition prepared_commit ::
    "string \<Rightarrow> string \<Rightarrow> ProposedAction \<Rightarrow> string \<Rightarrow> PolicyEvaluation \<Rightarrow> Decision \<Rightarrow> string list \<Rightarrow> Time \<Rightarrow> EvaluationCommit" where
  "prepared_commit rid qid a d evaluation decision ids now =
     \<lparr>commit_RuntimeID = rid, commit_RequestID = qid, commit_Action = a, commit_ActionDigest = d,
      commit_DecisionID = hd ids, commit_Decision = decision, commit_PolicyVersion = TrimSpace (PolicyVersion evaluation),
      commit_MatchedRuleIDs = MatchedRuleIDs evaluation,
      commit_Effects = map2 (\<lambda>i f. \<lparr>EffectID = i, Effect = f\<rparr>) (tl ids) (Effects evaluation),
      commit_EvaluatedAt = Time_UTC now\<rparr>"

text \<open>The request is not stored: the lookup says so.\<close>

definition new_request :: "'w Ports \<Rightarrow> string \<Rightarrow> string \<Rightarrow> 'w \<Rightarrow> 'w \<Rightarrow> bool" where
  "new_request ports rid qid w w1 \<longleftrightarrow>
     (\<exists>e. port_Get ports rid qid w = (Inl e, w1) \<and> errors_Is e (Application ErrEvaluationNotFound))"

inductive port_failure ::
    "'w Ports \<Rightarrow> string \<Rightarrow> string \<Rightarrow> ProposedAction \<Rightarrow> string \<Rightarrow> 'w \<Rightarrow> ApplicationError \<Rightarrow> 'w \<Rightarrow> bool"
  for ports rid qid a d w where
  lookup_fails: "port_failure ports rid qid a d w ErrLedgerFailure w1"
    if "port_Get ports rid qid w = (Inl e, w1)" "\<not> errors_Is e (Application ErrEvaluationNotFound)"
| lookup_nil: "port_failure ports rid qid a d w ErrLedgerFailure w1"
    if "port_Get ports rid qid w = (Inr None, w1)"
| lookup_mismatch: "port_failure ports rid qid a d w ErrLedgerFailure w1"
    if "port_Get ports rid qid w = (Inr (Some s), w1)" "stored_RuntimeID s \<noteq> rid \<or> stored_RequestID s \<noteq> qid"
| lookup_conflict: "port_failure ports rid qid a d w ErrRequestIDConflict w1"
    if "port_Get ports rid qid w = (Inr (Some s), w1)" "stored_RuntimeID s = rid" "stored_RequestID s = qid"
      "record_ActionDigest (stored_Decision s) \<noteq> d"
| lookup_invalid: "port_failure ports rid qid a d w ErrLedgerFailure w1"
    if "port_Get ports rid qid w = (Inr (Some s), w1)" "stored_RuntimeID s = rid" "stored_RequestID s = qid"
      "record_ActionDigest (stored_Decision s) = d" "\<not> authoritative (stored_Decision s) d"
| policy_fails: "port_failure ports rid qid a d w ErrPolicyUnavailable w2"
    if "new_request ports rid qid w w1" "port_Evaluate ports a w1 = (outcome, w2)"
      "\<nexists>evaluation decision. outcome = Inr evaluation \<and> decisive evaluation decision"
| identifier_fails: "port_failure ports rid qid a d w ErrIDGeneration w3"
    if "new_request ports rid qid w w1" "port_Evaluate ports a w1 = (Inr evaluation, w2)" "decisive evaluation decision"
      "draw_ids ports (id_kinds evaluation) w2 = (None, w3)"
| clock_fails: "port_failure ports rid qid a d w ErrClockFailure w4"
    if "new_request ports rid qid w w1" "port_Evaluate ports a w1 = (Inr evaluation, w2)" "decisive evaluation decision"
      "draw_ids ports (id_kinds evaluation) w2 = (Some ids, w3)" "port_Now ports w3 = (now, w4)" "Time_IsZero (Time_UTC now)"
| commit_fails: "port_failure ports rid qid a d w kind w5"
    if "new_request ports rid qid w w1" "port_Evaluate ports a w1 = (Inr evaluation, w2)" "decisive evaluation decision"
      "draw_ids ports (id_kinds evaluation) w2 = (Some ids, w3)" "port_Now ports w3 = (now, w4)"
      "\<not> Time_IsZero (Time_UTC now)"
      "port_Commit ports (prepared_commit rid qid a d evaluation decision ids now) w4 = (Inl e, w5)"
      "kind = (if errors_Is e (Application ErrRequestIDConflict) then ErrRequestIDConflict else ErrLedgerFailure)"
| commit_invalid: "port_failure ports rid qid a d w ErrLedgerFailure w5"
    if "new_request ports rid qid w w1" "port_Evaluate ports a w1 = (Inr evaluation, w2)" "decisive evaluation decision"
      "draw_ids ports (id_kinds evaluation) w2 = (Some ids, w3)" "port_Now ports w3 = (now, w4)"
      "\<not> Time_IsZero (Time_UTC now)"
      "port_Commit ports (prepared_commit rid qid a d evaluation decision ids now) w4 = (Inr rec, w5)" "\<not> authoritative rec d"

section \<open>The service reports exactly them\<close>

lemma validateAuthoritativeDecision_eq:
  "validateAuthoritativeDecision rec d = (if authoritative rec d then Inr () else Inl [Application ErrLedgerFailure])"
  by (auto simp: validateAuthoritativeDecision_def authoritative_def guard_res_def)

lemma usable_effects: "decisive evaluation decision \<Longrightarrow> list_all validPolicyEffect (Effects evaluation)"
  by (auto simp: decisive_def validatePolicyEvaluation_def Let_def guard_res_Inr_iff split: if_splits)

lemma unusable_error:
  assumes "\<nexists>decision. decisive evaluation decision"
  shows "validatePolicyEvaluation evaluation = Inl [Application ErrPolicyUnavailable] \<or>
    validatePolicyEvaluation evaluation = Inr () \<and> (\<exists>e. Compose evaluation = Inl e)"
  using assms
  by (cases "Compose evaluation")
    (auto simp: decisive_def validatePolicyEvaluation_def Let_def guard_res_def split: if_splits)

lemma effects_drawn:
  assumes "list_all validPolicyEffect effects"
    and "draw_ids ports (replicate (length effects) IDPolicyEffect) w = (ids, w')"
  shows "case ids of
      None \<Rightarrow> \<exists>e. preparePolicyEffects ports effects w = (Inl e, w') \<and> errors_Is e (Application ErrIDGeneration)
    | Some is \<Rightarrow> preparePolicyEffects ports effects w = (Inr (map2 (\<lambda>i f. \<lparr>EffectID = i, Effect = f\<rparr>) is effects), w')"
  using assms
proof (induction effects arbitrary: w ids w')
  case (Cons f effects)
  obtain drawn w1 where new: "port_NewID ports IDPolicyEffect w = (drawn, w1)" by (rule prod.exhaust)
  show ?case
  proof (cases "\<exists>v. drawn = Inr v \<and> TrimSpace v \<noteq> []")
    case True
    then obtain v where v: "drawn = Inr v" "TrimSpace v \<noteq> []" by blast
    obtain ids' w2 where rest: "draw_ids ports (replicate (length effects) IDPolicyEffect) w1 = (ids', w2)" by (rule prod.exhaust)
    show ?thesis
      using Cons.IH [OF _ rest] Cons.prems new v rest by (cases ids') (auto simp: newRequiredID_def)
  next
    case False
    then show ?thesis
      using Cons.prems new by (cases drawn) (auto simp: newRequiredID_def errors_Is_def)
  qed
qed simp

lemma all_drawn:
  assumes "decisive evaluation decision" "draw_ids ports (id_kinds evaluation) w = (ids, w')"
  shows "case ids of
      None \<Rightarrow> (\<exists>e. newRequiredID ports IDDecision w = (Inl e, w') \<and> errors_Is e (Application ErrIDGeneration)) \<or>
        (\<exists>v e w1. newRequiredID ports IDDecision w = (Inr v, w1) \<and>
           preparePolicyEffects ports (Effects evaluation) w1 = (Inl e, w') \<and> errors_Is e (Application ErrIDGeneration))
    | Some is \<Rightarrow> \<exists>w1. newRequiredID ports IDDecision w = (Inr (hd is), w1) \<and>
        preparePolicyEffects ports (Effects evaluation) w1 =
          (Inr (map2 (\<lambda>i f. \<lparr>EffectID = i, Effect = f\<rparr>) (tl is) (Effects evaluation)), w')"
proof -
  obtain drawn w1 where new: "port_NewID ports IDDecision w = (drawn, w1)" by (rule prod.exhaust)
  obtain ids' w2 where rest: "draw_ids ports (replicate (length (Effects evaluation)) IDPolicyEffect) w1 = (ids', w2)"
    by (rule prod.exhaust)
  note effects = effects_drawn [OF usable_effects [OF assms(1)] rest]
  show ?thesis
  proof (cases "\<exists>v. drawn = Inr v \<and> TrimSpace v \<noteq> []")
    case True
    then show ?thesis using assms(2) new rest effects by (cases ids') (auto simp: id_kinds_def newRequiredID_def)
  next
    case False
    then show ?thesis using assms(2) new by (cases drawn) (auto simp: id_kinds_def newRequiredID_def errors_Is_def)
  qed
qed

text \<open>The part of the service after the normalisation.\<close>

definition serve :: "'w Ports \<Rightarrow> string \<Rightarrow> string \<Rightarrow> ProposedAction \<Rightarrow> string \<Rightarrow> 'w \<Rightarrow> DecisionRecord res \<times> 'w" where
  "serve ports rid qid a d w =
     (case port_Get ports rid qid w of
        (Inr existing, w1) \<Rightarrow> (resolveStoredEvaluation existing rid qid d, w1)
      | (Inl e, w1) \<Rightarrow>
          if \<not> errors_Is e (Application ErrEvaluationNotFound) then (Inl (wrapLedgerError e), w1)
          else decideAndCommit ports rid qid a d w1)"

lemma Evaluate_serve:
  assumes "normalizeDecisionRequestID (command_RequestID command) = Inr qid"
    and "Normalize runtime (command_ProposedAction command) = Inr a" "ComputeActionDigest a = Inr d"
  shows "Evaluate (Some ports) runtime command w = serve ports (authenticated_runtimeID runtime) qid a d w"
  using assms by (simp del: Normalize_Inr add: Evaluate_def serve_def)

lemma wrapLedgerError_Is [simp]: "errors_Is (wrapLedgerError e) (Application ErrLedgerFailure)"
  by (simp add: wrapLedgerError_def errors_Is_def)

lemma errors_Is_single: "errors_Is [x] x"
  by (simp add: errors_Is_def)

lemma serve_new: "new_request ports rid qid w w1 \<Longrightarrow> serve ports rid qid a d w = decideAndCommit ports rid qid a d w1"
  by (auto simp: new_request_def serve_def)

lemma decide_usable:
  assumes "port_Evaluate ports a w1 = (Inr evaluation, w2)" "decisive evaluation decision"
    and "draw_ids ports (id_kinds evaluation) w2 = (Some ids, w3)" "port_Now ports w3 = (now, w4)"
  shows "decideAndCommit ports rid qid a d w1 =
    (if Time_IsZero (Time_UTC now) then (Inl [Application ErrClockFailure], w4)
     else case port_Commit ports (prepared_commit rid qid a d evaluation decision ids now) w4 of
       (Inl e, w5) \<Rightarrow> (Inl (if errors_Is e (Application ErrRequestIDConflict) then e else wrapLedgerError e), w5)
     | (Inr rec, w5) \<Rightarrow> (if authoritative rec d then Inr rec else Inl [Application ErrLedgerFailure], w5))"
  using assms all_drawn [OF assms(2,3)]
  by (auto simp: decideAndCommit_def decisive_def prepared_commit_def validateAuthoritativeDecision_eq split: sum.split prod.split)

lemma decide_undrawn:
  assumes "port_Evaluate ports a w1 = (Inr evaluation, w2)" "decisive evaluation decision"
    and "draw_ids ports (id_kinds evaluation) w2 = (None, w3)"
  shows "\<exists>e. decideAndCommit ports rid qid a d w1 = (Inl e, w3) \<and> errors_Is e (Application ErrIDGeneration)"
  using assms all_drawn [OF assms(2,3)] by (auto simp: decideAndCommit_def decisive_def)

lemma decide_unusable:
  assumes "port_Evaluate ports a w1 = (outcome, w2)" "\<nexists>evaluation decision. outcome = Inr evaluation \<and> decisive evaluation decision"
  shows "\<exists>e. decideAndCommit ports rid qid a d w1 = (Inl e, w2) \<and> errors_Is e (Application ErrPolicyUnavailable)"
proof (cases outcome)
  case (Inr evaluation)
  then show ?thesis using assms unusable_error [of evaluation] by (auto simp: decideAndCommit_def errors_Is_def)
qed (use assms in \<open>simp add: decideAndCommit_def errors_Is_def\<close>)

text \<open>Every listed failure is reported, with its sentinel and in its world.\<close>

lemma failure_reported:
  "port_failure ports rid qid a d w kind w' \<Longrightarrow>
     \<exists>e. serve ports rid qid a d w = (Inl e, w') \<and> errors_Is e (Application kind)"
proof (induction rule: port_failure.induct)
  case (policy_fails w1 outcome w2)
  then show ?case using decide_unusable by (simp add: serve_new)
next
  case (identifier_fails w1 evaluation w2 decision w3)
  then show ?case using decide_undrawn by (simp add: serve_new)
next
  case (clock_fails w1 evaluation w2 decision ids w3 now w4)
  then show ?case by (simp add: serve_new decide_usable errors_Is_def)
next
  case (commit_fails w1 evaluation w2 decision ids w3 now w4 e w5 kind)
  then show ?case by (simp add: serve_new decide_usable)
next
  case (commit_invalid w1 evaluation w2 decision ids w3 now w4 rec w5)
  then show ?case by (simp add: serve_new decide_usable errors_Is_def)
qed (auto simp: serve_def resolveStoredEvaluation_def validateAuthoritativeDecision_eq errors_Is_single)

text \<open>And the service fails only then.\<close>

lemma decide_fails:
  assumes new: "new_request ports rid qid w w1" and fails: "decideAndCommit ports rid qid a d w1 = (Inl e, w')"
  shows "\<exists>kind. port_failure ports rid qid a d w kind w'"
proof -
  obtain outcome w2 where policy: "port_Evaluate ports a w1 = (outcome, w2)" by (rule prod.exhaust)
  show ?thesis
  proof (cases "\<exists>evaluation decision. outcome = Inr evaluation \<and> decisive evaluation decision")
    case False
    then show ?thesis
      using decide_unusable [OF policy False, of rid qid d] fails policy_fails [OF new policy False, of d] by auto
  next
    case True
    then obtain evaluation decision where ev: "outcome = Inr evaluation" "decisive evaluation decision" by blast
    note pol = policy [unfolded ev(1)]
    obtain drawn w3 where draw: "draw_ids ports (id_kinds evaluation) w2 = (drawn, w3)" by (rule prod.exhaust)
    show ?thesis
    proof (cases drawn)
      case None
      note undrawn = draw [unfolded None]
      show ?thesis
        using decide_undrawn [OF pol ev(2) undrawn, of rid qid d] fails identifier_fails [OF new pol ev(2) undrawn] by auto
    next
      case (Some ids)
      note ids = draw [unfolded Some]
      obtain now w4 where now: "port_Now ports w3 = (now, w4)" by (rule prod.exhaust)
      obtain res w5 where commit: "port_Commit ports (prepared_commit rid qid a d evaluation decision ids now) w4 = (res, w5)"
        by (rule prod.exhaust)
      note result = decide_usable [OF pol ev(2) ids now, of rid qid d]
      show ?thesis
      proof (cases "Time_IsZero (Time_UTC now)")
        case True
        then show ?thesis using fails result clock_fails [OF new pol ev(2) ids now True] by auto
      next
        case False
        note stage = new pol ev(2) ids now False
        show ?thesis
        proof (cases res)
          case (Inl err)
          then have "w' = w5" using fails result commit False by simp
          then show ?thesis using commit_fails [OF stage commit [unfolded Inl] refl] by blast
        next
          case (Inr rec)
          then have "w' = w5" "\<not> authoritative rec d" using fails result commit False by (auto split: if_splits)
          then show ?thesis using commit_invalid [OF stage commit [unfolded Inr]] by blast
        qed
      qed
    qed
  qed
qed

lemma fails_reported:
  assumes "serve ports rid qid a d w = (Inl e, w')"
  shows "\<exists>kind. port_failure ports rid qid a d w kind w' \<and> errors_Is e (Application kind)"
proof -
  obtain found w1 where get: "port_Get ports rid qid w = (found, w1)" by (rule prod.exhaust)
  have "\<exists>kind. port_failure ports rid qid a d w kind w'"
  proof (cases "\<exists>err. found = Inl err \<and> errors_Is err (Application ErrEvaluationNotFound)")
    case True
    then have "new_request ports rid qid w w1" using get by (auto simp: new_request_def)
    then show ?thesis using decide_fails assms by (metis serve_new)
  next
    case False
    then show ?thesis
      using assms get
      by (cases found) (auto simp: serve_def resolveStoredEvaluation_def validateAuthoritativeDecision_eq
          intro: port_failure.intros(1-5) split: option.splits if_splits)
  qed
  then show ?thesis using failure_reported assms by fastforce
qed

lemma rejected_input:
  assumes "\<nexists>qid a. normalizeDecisionRequestID (command_RequestID command) = Inr qid \<and>
    Normalize runtime (command_ProposedAction command) = Inr a"
  shows "\<exists>e. Evaluate (Some ports) runtime command w = (Inl e, w) \<and>
    (errors_Is e (Application ErrInvalidInput) \<or> errors_Is e RuntimePanic)"
proof (cases "normalizeDecisionRequestID (command_RequestID command)")
  case (Inl e)
  then show ?thesis by (auto simp: Evaluate_def normalizeDecisionRequestID_def Let_def errors_Is_def split: if_splits)
next
  case (Inr qid)
  with assms obtain e where e: "Normalize runtime (command_ProposedAction command) = Inl e"
    by (cases "Normalize runtime (command_ProposedAction command)") auto
  then show ?thesis using Normalize_error [OF e] Inr by (simp add: Evaluate_def)
qed

end
