(* ===== verification/Spec2Isabelle.thy ===== *)
theory Spec2Isabelle
  imports DurationAccuracy Liveness ApiContract DomainProperties LedgerProperties BoundaryProperties ConcurrentProperties LateRequests Routing ServiceFailures
begin

text \<open>
  A verification development of the agent action-control service: a process that decides, once and
  for all, whether an agent may carry out an action it proposes, and remembers the decision.

  \<^bold>\<open>The program.\<close> A runtime sends a proposed action over HTTP (\<^verbatim>\<open>internal/transport/http\<close>). The handler
  exchanges the bearer credential for a runtime identity (\<^verbatim>\<open>internal/auth\<close>), decodes the body strictly
  and hands a command to the decision service (\<^verbatim>\<open>internal/application\<close>). The service normalises the
  action into a domain value (\<^verbatim>\<open>internal/domain\<close>), computes its canonical SHA-256 digest, and looks the
  request up in the ledger. A known request is answered from the ledger, or refused when its action
  differs; a new one is evaluated by a policy (\<^verbatim>\<open>internal/policy/embedded\<close> or the Osprey adapter
  \<^verbatim>\<open>internal/policy/osprey\<close>), composed into a decision, and committed to SQLite
  (\<^verbatim>\<open>internal/storage/sqlite\<close>) in one transaction, whose races and lost acknowledgements are resolved by
  reading back. \<^verbatim>\<open>cmd/action-control/main.go\<close> wires the parts.

  \<^bold>\<open>How the program is modelled.\<close> Go values are HOL values: structs are records, interfaces with a
  fixed set of implementations are datatypes, strings are lists of bytes, \<^verbatim>\<open>int64\<close> is a 64-bit word,
  maps are partial functions or association lists where their order matters. A function that returns
  \<^verbatim>\<open>(T, error)\<close> returns \<open>T res\<close>; an error is the list of the sentinels that \<^verbatim>\<open>errors.Is\<close> finds in its
  chain, and a Go panic is the sentinel \<open>RuntimePanic\<close>. Code with effects passes a world along: every
  call to the database, the clock, the random source and the coordinator is an operation on it, and
  what other processes do between two statements is part of the change of that world.

  \<^bold>\<open>Theories.\<close>
  \<^item> \<open>Prelude\<close>: results, sorting, first occurrences, maps kept as sorted lists, the collection \<open>res_simps\<close>.
  \<^item> \<open>GoText\<close>, \<open>UnicodeCase\<close>: UTF-8, \<^verbatim>\<open>strings.TrimSpace\<close>, \<^verbatim>\<open>strings.ToUpper\<close>.
  \<^item> \<open>GoJson\<close>, \<open>GoTime\<close>, \<open>Sha256\<close>, \<open>GoUrl\<close>: the parts of \<^verbatim>\<open>encoding/json\<close>, \<^verbatim>\<open>time\<close>, \<^verbatim>\<open>crypto/sha256\<close> and
    \<^verbatim>\<open>net/url\<close> the program uses. \<open>GoDuration\<close>: \<^verbatim>\<open>time.ParseDuration\<close> with its 64-bit and \<^verbatim>\<open>float64\<close>
    arithmetic; \<open>DurationAccuracy\<close>: the error of a fraction of a unit.
  \<^item> \<open>DomainValues\<close>, \<open>DomainAction\<close>: \<^verbatim>\<open>internal/domain\<close>, with the invariants \<open>wf_decision\<close> and \<open>wf_action\<close>.
  \<^item> \<open>Immutability\<close>: the constructors and accessors of the same package on slices and pointers into a memory,
    with locale \<open>memory_object\<close>; it justifies that slices are lists everywhere else.
  \<^item> \<open>Canonical\<close>: \<^verbatim>\<open>action_digest.go\<close>. \<open>Policy\<close>: \<^verbatim>\<open>evaluation.go\<close>, \<^verbatim>\<open>decision_composer.go\<close>, \<^verbatim>\<open>policy/embedded\<close>.
  \<^item> \<open>Wire\<close>, \<open>DecodedText\<close>: the decoders of JSON into the structs that storage and transport share.
  \<^item> \<open>Serialization\<close>, \<open>Ledger\<close>: \<^verbatim>\<open>serialization.go\<close>, \<^verbatim>\<open>ledger.go\<close>. Locale \<open>sql_store\<close> states what the ledger
    relies on: committed rows are only added, keys stay unique, a transaction that reports success
    has added its rows. \<open>TableStore\<close> interprets it on tables with the constraints of
    \<^verbatim>\<open>migrations/0001_minimal_ledger.sql\<close>, driven by a script of faults, foreign commits and lost
    acknowledgements. \<open>LedgerSpec\<close>: a commit as put-if-absent on the map the tables stand for.
    \<open>LedgerHistory\<close>: the ledger as its callers see it, a map that only the calls write, and that every
    sequence of calls on a fresh database is answered by it. \<open>StoredRows\<close>: what a row that decodes is like.
  \<^item> \<open>Migrations\<close>: \<^verbatim>\<open>migrations.go\<close>, \<^verbatim>\<open>database.go\<close>, with the locales \<open>schema_store\<close> and
    \<open>database_driver\<close> and their interpretation. \<open>MigrationProgress\<close>: what migrating an undisturbed database
    comes to, by locale \<open>calm_schema_store\<close>.
  \<^item> \<open>Normalizer\<close>: \<^verbatim>\<open>action_normalizer.go\<close>, \<^verbatim>\<open>runtime_context.go\<close>. \<open>Service\<close>: \<^verbatim>\<open>decision_service.go\<close>, \<^verbatim>\<open>ids.go\<close>, with
    locale \<open>decision_ports\<close>, the contract of the four ports. \<open>ServiceFailures\<close>: the failures of the ports and
    what they are reported as.
  \<^item> \<open>Concurrent\<close>: \<^verbatim>\<open>Evaluate\<close> cut at its port calls, and the step relation of requests in flight.
  \<^item> \<open>Osprey\<close>: \<^verbatim>\<open>policy/osprey\<close>. \<open>Authentication\<close>: \<^verbatim>\<open>auth/runtime.go\<close>. \<open>HttpApi\<close>, \<open>CommandText\<close>, \<open>Routing\<close>:
    \<^verbatim>\<open>transport/http\<close>.
  \<^item> \<open>HttpServer\<close>: the server with its calls in flight, routed, admitted, run and answered in any interleaving.
  \<^item> \<open>Process\<close>: \<^verbatim>\<open>main.go\<close> up to the handler, on any database. The ports of a process on a store with the laws of
    \<open>sql_store\<close> keep the contract \<open>decision_ports\<close>; on the tables of \<open>TableStore\<close> the contract is interpreted
    for the embedded policy and for Osprey. \<open>Lifecycle\<close>: the whole of \<^verbatim>\<open>run\<close> with its resources, deferred
    calls, server and shutdown.
  \<^item> \<open>Liveness\<close>: when a process at rest decides a new request, by locale \<open>deciding_evaluator\<close> and its
    interpretations for the embedded policy and for Osprey. \<open>ApiContract\<close>: the schema of a decision response
    in \<^verbatim>\<open>api/openapi.yaml\<close>, and that the transport writes documents of it.
  \<^item> \<open>Scenario\<close>, \<open>ScenarioHttp\<close>: one concrete run, from the HTTP request to its replay; the witnesses of the
    properties are taken from it. \<open>LateRequests\<close>: requests after the year 9999.
  \<^item> \<open>DomainProperties\<close>, \<open>LedgerProperties\<close>, \<open>BoundaryProperties\<close>, \<open>ConcurrentProperties\<close> and this theory hold
    the properties.

  \<^bold>\<open>What is shown.\<close> Above all that decisions are final: in every history of concurrent calls, however
  they interleave, whatever fails and whoever else writes to the database, all successful responses to
  one request identifier are the same. This is proved for any ports that keep their contract and any
  store with the laws of \<open>sql_store\<close>, and then for the process that \<^verbatim>\<open>run\<close> configures on such a store. It
  presupposes that the configured runtime identifier is UTF-8 and that the requested times of the
  requests lie in the years 0 to 9999 in UTC; the same bound on times is part of the well-formed
  commits (\<open>wf_commit\<close>) and sound requests (\<open>sound_request\<close>) of the other properties of the ledger and of
  the transport. It is needed: \<open>LateRequests\<close> proves that later requests are stored and cannot be read
  back. Further: the ledger answers like a put-if-absent map, whatever it reads is consistent, rows
  satisfy the schema and decode to what was stored, transactions and migrations are atomic, missing
  migrations are run, a lost acknowledgement does not lose the decision; failures of the ports are
  reported as what they are; normalisation yields normal forms, is idempotent and ignores order;
  canonical bytes identify actions; both policies are characterised and Osprey fails closed; identities
  and credentials cannot be confused; unadmitted requests change nothing; domain values cannot be
  changed through the slices and pointers they were made from or hand out; the process releases its
  resources however it ends.

  And that decisions are reached: a process whose clock and random source answer and whose database is
  idle decides, stores and answers an admitted request with a new identifier, provided that its
  identifier is accepted and its action normalises, the requested time lies in the years 0 to 9999, the
  texts that SQLite measures contain no NUL, the drawn identifiers are new and, under the embedded
  policy, a \<^verbatim>\<open>SECRET\<close> payload has no two pieces of evidence with one identifier. The response is a document
  of the published schema if the request identifier was sent without surrounding white space, the
  decision identifier and the policy version are UTF-8 of at most 256 bytes and the evaluation time
  lies in the years 0 to 9999.

  \<^bold>\<open>Fuel and bounds.\<close> The JSON parser recurses on values, items and members and carries fuel \<open>2 n + 1\<close>
  for an input of length \<open>n\<close>. Each step from a value to its items or back either reads a byte or is
  followed by one that does, so this is enough for every input (lemma \<open>parse_fuel_enough\<close>). All other
  recursion is structural or has a termination proof. Nesting is limited to 10000 as in
  \<^verbatim>\<open>encoding/json\<close>.

  \<^bold>\<open>Parameters.\<close> SQLite and its driver, the gRPC connection, the environment, the file system and the
  network are arguments of the definitions, with what is relied on stated as laws: the ledger, the
  process and \<^verbatim>\<open>run\<close> take the statements of the opened database (\<open>SqlOps\<close>), the migrations take theirs
  (\<open>MigrateOps\<close>). \<open>TableStore\<close> and the database of \<open>Migrations\<close> are models of SQLite, with faults and other
  writers, on which the laws are discharged. The properties that need a particular course of events,
  that is the refinement by a map, the surviving of a lost acknowledgement, the constraints of the
  tables and that decisions are reached, are stated on \<open>TableStore\<close>, where \<open>process\<close> is the process on it.

  \<^bold>\<open>Not modelled.\<close> The loop of the HTTP server, its timeouts and logging; the answer of \<^verbatim>\<open>http.ServeMux\<close> to a
  path that is not clean, a redirect, is a parameter. The generated protobuf and gRPC stubs beyond the
  fields the client reads; the pool sizes of the database. Cancellation of a context shows only as a
  failing call. Concurrent requests interleave at their port calls (\<open>Concurrent\<close>); what they and other
  processes do to the database between two statements of one call is part of the store. Package
  comments and plain accessors, which are the selectors of the records, have no definition of their own.
\<close>

section \<open>The process as it is started\<close>

text \<open>The server a configuration gives: its authenticator and its ports.\<close>

definition configured_server ::
    "(string \<Rightarrow> string) \<Rightarrow> (string \<Rightarrow> 'db process_state rpc_client option res) \<Rightarrow> 'db SqlOps \<Rightarrow>
     (string \<Rightarrow> HttpResponse) \<Rightarrow> 'db process_state server res" where
  "configured_server Getenv NewClient database redirect =
     res_bind (NewStaticRuntimeAuthenticator
       [(Getenv ''ACTION_CONTROL_RUNTIME_TOKEN'', Getenv ''ACTION_CONTROL_RUNTIME_ID'')]) (\<lambda>auth.
     res_bind (configurePolicyEvaluator Getenv NewClient) (\<lambda>evaluator.
       Inr \<lparr>server_redirect = redirect, server_authenticate = Authenticate (Some auth),
            server_ports = ports_on (Some database) evaluator\<rparr>))"

definition body_requestID :: "HttpRequest \<Rightarrow> string option" where
  "body_requestID request =
     (case DecodeEvaluateActionRequest (req_Body request) of
        Inl _ \<Rightarrow> None | Inr decoded \<Rightarrow> Some (request_RequestID decoded))"

text \<open>The requested time, where the body has one, lies within the years 0 to 9999 in UTC.\<close>

definition requested_in_range :: "HttpRequest \<Rightarrow> bool" where
  "requested_in_range request =
     (case DecodeEvaluateActionRequest (req_Body request) of
        Inl _ \<Rightarrow> True
      | Inr decoded \<Rightarrow> rfc3339_time (Time_UTC (dto_RequestedAt (request_ProposedAction decoded))))"

lemma configured_routes:
  assumes "run_configure Getenv NewClient MkdirAll OpenDatabase = Inr (addr, routes)"
    and "\<forall>path database. OpenDatabase path = Inr database \<longrightarrow> database = ops"
    and "configured_server Getenv NewClient ops redirect = Inr s"
  shows "server_routes s = routes"
  using assms
  by (auto simp: run_configure_def construct_process_result configured_server_def res_simps Let_def NewDecisionLedger_def
      NewDecisionService_def NewHandler_def ports_on_def server_routes_def)

text \<open>The evaluators a configuration gives, when the dialler connects to the coordinator.\<close>

lemma configured_evaluator:
  assumes "configurePolicyEvaluator Getenv NewClient = Inr evaluator"
    and "\<forall>address client. NewClient address = Inr (Some client) \<longrightarrow> client = process_rpc"
  obtains "evaluator = EmbeddedEvaluator"
  | version timeout where "evaluator = OspreyAdapter (process_osprey (TrimSpace version) timeout)"
      "version = Getenv ''ACTION_CONTROL_OSPREY_POLICY_VERSION''" "TrimSpace version \<noteq> []"
proof (cases evaluator)
  case (OspreyAdapter e)
  have idem: "TrimSpace (TrimSpace s) = TrimSpace s" for s by (simp add: TrimSpace_id)
  have "\<exists>timeout. e = process_osprey (TrimSpace (Getenv ''ACTION_CONTROL_OSPREY_POLICY_VERSION'')) timeout \<and>
      TrimSpace (Getenv ''ACTION_CONTROL_OSPREY_POLICY_VERSION'') \<noteq> []"
    using assms OspreyAdapter
    by (auto simp: configurePolicyEvaluator_eq Let_def res_simps NewGRPCCoordinator_def NewOspreyEvaluator_def
        process_osprey_def idem split: if_splits option.splits)
  then show thesis using that(2) OspreyAdapter by blast
qed (rule that(1))

lemma configured_contract:
  assumes "configurePolicyEvaluator Getenv NewClient = Inr evaluator"
    and "\<forall>address client. NewClient address = Inr (Some client) \<longrightarrow> client = process_rpc"
  shows "evaluator_contract evaluator"
  using configured_evaluator [OF assms] embedded_contract osprey_contract by metis

lemma configured_decides:
  assumes "configurePolicyEvaluator Getenv NewClient = Inr evaluator"
    and "\<forall>address client. NewClient address = Inr (Some client) \<longrightarrow> client = process_rpc"
    and "\<forall>name. CHR 0x00 \<notin> set (Getenv name)"
  shows "deciding_evaluator evaluator (\<lambda>a. evaluator = EmbeddedEvaluator \<longrightarrow> embedded_able a)"
proof (rule configured_evaluator [OF assms(1,2)])
  assume "evaluator = EmbeddedEvaluator"
  then show ?thesis using deciding_embedded.deciding_evaluator_axioms by simp
next
  fix version timeout
  assume conf: "evaluator = OspreyAdapter (process_osprey (TrimSpace version) timeout)"
    "version = Getenv ''ACTION_CONTROL_OSPREY_POLICY_VERSION''" "TrimSpace version \<noteq> []"
  obtain xs ys where "version = xs @ TrimSpace version @ ys" using TrimSpace_infix [of version] by (elim exE)
  then have "set (TrimSpace version) \<subseteq> set version" by (metis Un_iff set_append subsetI)
  moreover have "CHR 0x00 \<notin> set version" using assms(3) conf(2) by blast
  ultimately have "storable_version (TrimSpace version)"
    using conf(3) by (auto simp: storable_version_def TrimSpace_id)
  then show ?thesis
    using deciding_osprey.decides [where version = "TrimSpace version" and timeout = timeout]
    unfolding conf(1) deciding_evaluator_def by blast
qed

text \<open>A process knows one runtime, so an admitted request is keyed by its request identifier.\<close>

lemma single_runtime:
  assumes "NewStaticRuntimeAuthenticator [(token, rid)] = Inr auth"
    and "admit (Authenticate (Some auth)) request = Inr (runtime, decoded, command)"
  shows "wf_runtime runtime" "authenticated_runtimeID runtime = TrimSpace rid"
  using admit_Inr(3) [OF assms(2)] Authenticate_Inr [OF assms(1)] by (auto simp: entry_of_def)

lemma single_runtime_key:
  assumes "NewStaticRuntimeAuthenticator [(token, rid)] = Inr auth"
    and "http_key (Authenticate (Some auth)) request = Some key"
  shows "Some (snd key) = body_requestID request \<and> fst key = TrimSpace rid"
  using assms(2) single_runtime(2) [OF assms(1)] admit_Inr(1)
  by (auto simp: http_key_def body_requestID_def split: sum.splits)

lemma configured_sound:
  assumes "NewStaticRuntimeAuthenticator [(token, rid)] = Inr auth" "valid_utf8 rid" "requested_in_range request"
  shows "sound_request (Authenticate (Some auth)) request"
  using single_runtime [OF assms(1)] admit_Inr(1) [of "Authenticate (Some auth)" request] assms(2,3)
  by (auto simp: sound_request_def requested_in_range_def split: sum.splits)

text \<open>
  C1. A started process never answers one request identifier with two different decisions: however the
  concurrent calls it serves interleave, all successful responses to decision requests that carry the
  same identifier are the same, byte for byte, whatever the two evaluators, the clock, the random
  source, failing statements and other processes on the same database do in between. The database is
  any store with the laws of \<open>sql_store\<close>; the configured runtime identifier is UTF-8 and the requested
  times lie in the years 0 to 9999.
\<close>

theorem responses_agree:
  assumes "run_configure Getenv NewClient MkdirAll OpenDatabase = Inr (addr, routes)"
    and "configured_server Getenv NewClient ops redirect = Inr s"
    and "\<forall>address client. NewClient address = Inr (Some client) \<longrightarrow> client = process_rpc"
    and "valid_utf8 (Getenv ''ACTION_CONTROL_RUNTIME_ID'')" "state_invar invar w"
    and "(server_step s)\<^sup>*\<^sup>* (w, []) (w', cs)" "\<forall>call \<in> fst ` set cs. requested_in_range (call_Request call)"
    and "(call1, Responded response1) \<in> set cs" "(call2, Responded response2) \<in> set cs"
    and "succeeded call1 response1" "succeeded call2 response2"
    and "body_requestID (call_Request call1) = body_requestID (call_Request call2)"
    and "\<forall>path database. OpenDatabase path = Inr database \<longrightarrow> database = ops" "sql_store ops invar committed staged"
  shows "server_routes s = routes \<and> response1 = response2"
proof
  show "server_routes s = routes" by (rule configured_routes [OF assms(1,13,2)])
  obtain auth evaluator where conf: "NewStaticRuntimeAuthenticator
       [(Getenv ''ACTION_CONTROL_RUNTIME_TOKEN'', Getenv ''ACTION_CONTROL_RUNTIME_ID'')] = Inr auth"
    "configurePolicyEvaluator Getenv NewClient = Inr evaluator"
    and s: "server_authenticate s = Authenticate (Some auth)" "server_ports s = ports_on (Some ops) evaluator"
    using assms(2) by (auto simp: configured_server_def res_simps)
  note ports = sql_store.ports_contract [OF assms(14) configured_contract [OF conf(2) assms(3)]]
  have sound: "sound_calls s cs"
    using configured_sound [OF conf(1) assms(4)] assms(7) by (simp add: sound_calls_def s)
  note answered = decision_ports.server_decided [OF ports s(2) assms(5,6) sound]
  note d1 = answered [OF assms(8,10)] and d2 = answered [OF assms(9,11)]
  have "\<exists>key. http_key (Authenticate (Some auth)) (call_Request call1) = Some key"
    "\<exists>key. http_key (Authenticate (Some auth)) (call_Request call2) = Some key"
    using d1 d2 by (auto simp: decided_def s)
  then have "http_key (Authenticate (Some auth)) (call_Request call1) = http_key (Authenticate (Some auth)) (call_Request call2)"
    using single_runtime_key [OF conf(1)] assms(12) by (metis option.inject prod.expand)
  then show "response1 = response2"
    using d1 d2 by (intro decision_ports.decided_unique [OF ports, of w' s call1 _ call2]) (simp_all add: s)
qed

definition sc_env :: "string \<Rightarrow> string" where
  "sc_env name =
     (if name = ''ACTION_CONTROL_RUNTIME_TOKEN'' then ''token-1''
      else if name = ''ACTION_CONTROL_RUNTIME_ID'' then ''runtime-1'' else [])"

lemma sc_configuration:
  "NewStaticRuntimeAuthenticator [(''token-1'', ''runtime-1'')] = Inr sc_tokens"
  "configurePolicyEvaluator sc_env (\<lambda>_. Inl []) = (Inr EmbeddedEvaluator :: process policy_evaluator res)"
proof -
  have "TrimSpace ''token-1'' = ''token-1''" "TrimSpace [] = []" by (simp_all add: TrimSpace_ascii)
  then show "NewStaticRuntimeAuthenticator [(''token-1'', ''runtime-1'')] = Inr sc_tokens"
    "configurePolicyEvaluator sc_env (\<lambda>_. Inl []) = (Inr EmbeddedEvaluator :: process policy_evaluator res)"
    by (auto simp: NewStaticRuntimeAuthenticator_eq valid_entry_def entry_of_def wf_identifier_TrimSpace sc_tokens_def
        configurePolicyEvaluator_eq sc_env_def ToLower_ascii_def)
qed

lemma sc_configured:
  "run_configure sc_env (\<lambda>_. Inl []) (\<lambda>_. Inr ()) (\<lambda>_. Inr table_ops) = Inr ('':8080'', server_routes sc_server)"
  "configured_server sc_env (\<lambda>_. Inl []) table_ops (\<lambda>_. health) = Inr sc_server"
  using sc_configuration
  by (simp_all add: run_configure_def construct_process_result configured_server_def sc_env_def NewDecisionLedger_def NewDecisionService_def
      server_routes_def NewHandler_def process_ports_def)

theorem responses_agree_witness:
  "\<exists>cs r1 r2. (server_step sc_server)\<^sup>*\<^sup>* (race_begin, []) (race_world sc_stored [] [], cs) \<and>
     map snd cs = [Responded r1, Responded r2] \<and> resp_status r1 = 200 \<and> r1 = r2"
proof (intro exI conjI)
  show "(server_step sc_server)\<^sup>*\<^sup>* (race_begin, []) (race_world sc_stored [] [], callers (Responded sc_response) (Responded sc_response))"
    by (rule call_run)
  show "map snd (callers (Responded sc_response) (Responded sc_response)) = [Responded sc_response, Responded sc_response]"
    by simp
  show "resp_status sc_response = 200" by (rule sc_response_ok)
  have range: "requested_in_range (call_Request sc_call)"
    using sc_decodes sc_time_facts by (simp add: requested_in_range_def sc_http_request_def sc_decoded_def sc_call_def)
  have success: "succeeded sc_call sc_response" by (simp add: sc_call_def decision_path sc_response_ok)
  show "sc_response = sc_response"
    by (rule conjunct2 [OF responses_agree [OF sc_configured _ _ race_begin_invar call_run _ _ _ success success
            _ _ table.sql_store_axioms]]) (simp_all add: range sc_env_def valid_utf8_ascii)
qed

lemma service_delivers:
  assumes "evaluator_contract evaluator" "state_invar invar w" "sound_request authenticate request"
    and "admit authenticate request = Inr (runtime, decoded, command)"
    and "Evaluate (Some (ports_on (Some ops) evaluator)) runtime command w = (Inr rec, w')" "sql_store ops invar committed staged"
  shows "evaluateAction (service_handler (ports_on (Some ops) evaluator) authenticate) request w =
      (writeJSON no_store 200 (decision_response_json (toDecisionResponse (request_RequestID decoded) rec)), w')"
    and "bound (committed (p_db w')) (authenticated_runtimeID runtime) (TrimSpace (request_RequestID decoded)) rec"
proof -
  note ports = sql_store.ports_contract [OF assms(6,1)]
  show bound: "bound (committed (p_db w')) (authenticated_runtimeID runtime) (TrimSpace (request_RequestID decoded)) rec"
    using decision_ports.service_answered [OF ports assms(2) sound_request_wf [OF assms(3,4)]] assms(5)
      command_requestID(1) [OF admit_Inr(2) [OF assms(4)]]
    by (simp add: decision_ports.answered_def [OF ports] state_binding_def)
  then have "Validate (toDecisionResponse (request_RequestID decoded) rec) = Inr ()"
    by (intro Validate_wf bound_wf)
  then show "evaluateAction (service_handler (ports_on (Some ops) evaluator) authenticate) request w =
      (writeJSON no_store 200 (decision_response_json (toDecisionResponse (request_RequestID decoded) rec)), w')"
    using assms(4,5) by (simp add: evaluateAction_eq service_handler_def decision_answer_def)
qed

text \<open>
  C2. A decision the service returns is always delivered: the response to an admitted sound request, whose
  runtime is UTF-8 and whose requested time lies in the years 0 to 9999, has status 200 and carries the
  record that is stored under the request. The database is any store with the laws of \<open>sql_store\<close>.
\<close>

theorem decision_is_delivered:
  assumes "evaluator_contract evaluator" "state_invar invar w" "sound_request authenticate request"
    and "admit authenticate request = Inr (runtime, decoded, command)"
    and "Evaluate (Some (ports_on (Some ops) evaluator)) runtime command w = (Inr rec, w')" "sql_store ops invar committed staged"
  shows "evaluateAction (service_handler (ports_on (Some ops) evaluator) authenticate) request w =
      (writeJSON no_store 200 (decision_response_json (toDecisionResponse (request_RequestID decoded) rec)), w') \<and>
    bound (committed (p_db w')) (authenticated_runtimeID runtime) (TrimSpace (request_RequestID decoded)) rec"
  using service_delivers [OF assms] by blast

theorem decision_is_delivered_witness:
  "evaluateAction sc_handler sc_http_request sc_start =
     (writeJSON no_store 200 (decision_response_json (toDecisionResponse ''request-1'' sc_record)), sc_done)"
  using decision_is_delivered [OF embedded_contract sc_process_invar sc_sound sc_admitted sc_first table.sql_store_axioms]
  by (simp add: sc_decoded_def)

text \<open>
  C13. The published schema: the body of a decision response is a JSON document of the schema
  \<^verbatim>\<open>DecisionResponse\<close> of the OpenAPI document, and a client that parses it reads the identifier, the digest
  and the decision of the record. This holds when the decision identifier and the policy version are
  UTF-8 of at most 256 bytes, the evaluation time is of the years 0 to 9999 and the request identifier
  was sent without surrounding white space, because the response repeats it as it was sent.
\<close>

theorem decision_response_contract:
  assumes "evaluator_contract evaluator" "state_invar invar w" "sound_request authenticate request"
    and "admit authenticate request = Inr (runtime, decoded, command)"
    and "Evaluate (Some (ports_on (Some ops) evaluator)) runtime command w = (Inr rec, w')"
    and "TrimSpace (request_RequestID decoded) = request_RequestID decoded"
    and "list_all (\<lambda>s. valid_utf8 s \<and> length s \<le> 256) [record_DecisionID rec, record_PolicyVersion rec]"
    and "rfc3339_time (record_EvaluatedAt rec)" "sql_store ops invar committed staged"
  shows "\<exists>j. json_parse (resp_body (fst (evaluateAction (service_handler (ports_on (Some ops) evaluator) authenticate) request w))) = Inr j \<and>
    api_DecisionResponse j \<and>
    api_text (api_member j ''decisionId'') = Some (record_DecisionID rec) \<and>
    api_text (api_member j ''actionDigest'') = Some (record_ActionDigest rec) \<and>
    api_text (api_member j ''decision'') = Some (decision_typ (record_Decision rec))"
proof (rule Evaluate_Inr [OF assms(5)])
  fix ports a d
  let ?q = "request_RequestID decoded"
  assume norm: "normalizeDecisionRequestID (command_RequestID command) = Inr (TrimSpace (command_RequestID command))"
    and valid: "ComputeActionDigest a = Inr d" "validateAuthoritativeDecision rec d = Inr ()"
  note delivered = service_delivers [OF assms(1-5,9)]
  have q: "?q \<noteq> []" "length ?q \<le> 256"
    using norm command_requestID(1) [OF admit_Inr(2) [OF assms(4)]] assms(6)
    by (auto simp: normalizeDecisionRequestID_def Let_def split: if_splits)
  have "valid_utf8 ?q" using decoded_request_utf8(1) [OF admit_Inr(1) [OF assms(4)]] by (simp add: utf8_request_def)
  moreover have "TrimSpace [] = []" by (simp add: TrimSpace_id)
  then have "record_DecisionID rec \<noteq> []" "record_PolicyVersion rec \<noteq> []"
    using valid(2) by (auto simp: validateAuthoritativeDecision_Inr_iff)
  ultimately have conf: "response_conforms ?q rec a"
    using bound_wf [OF delivered(2)] valid assms(7,8) q length_runes
    by (auto simp: response_conforms_def validateAuthoritativeDecision_Inr_iff api_identifier_def intro: order_trans)
  have "resp_body (fst (evaluateAction (service_handler (ports_on (Some ops) evaluator) authenticate) request w)) =
      json_print (response_document ?q rec) @ [CHR 0x0A]"
    by (simp add: delivered(1) writeJSON_def response_document_written [OF conf])
  then show ?thesis
    using response_document_read [OF conf] response_document_conforms [OF conf] response_texts [OF conf]
    by (auto simp: response_document_def)
qed

theorem decision_response_contract_witness:
  "\<exists>j. json_parse (resp_body (fst (evaluateAction sc_handler sc_http_request sc_start))) = Inr j \<and> api_DecisionResponse j \<and>
    api_text (api_member j ''decision'') = Some ''ALLOW''"
proof -
  have "TrimSpace (request_RequestID sc_decoded) = request_RequestID sc_decoded"
    by (simp add: sc_decoded_def wf_identifier_TrimSpace)
  moreover have "list_all (\<lambda>s. valid_utf8 s \<and> length s \<le> 256) [record_DecisionID sc_record, record_PolicyVersion sc_record]"
    by (simp add: sc_record_def decisionRecordFromCommit_def sc_commit_def sc_decisionID_facts(1) embedded_Version_def valid_utf8_ascii)
  moreover have "rfc3339_time (record_EvaluatedAt sc_record)"
    using sc_time_facts by (simp add: sc_record_def decisionRecordFromCommit_def sc_commit_def)
  ultimately show ?thesis
    using decision_response_contract [OF embedded_contract sc_process_invar sc_sound sc_admitted sc_first _ _ _ table.sql_store_axioms]
    by (fastforce simp: sc_record_def decisionRecordFromCommit_def sc_commit_def NewAllowDecision_def DecisionAllow_def)
qed

text \<open>
  C12. When the clock answers, the random source gives new identifiers and the database is idle, an
  admitted request with a new identifier is answered with status 200, with the decision composed from
  the evaluation of the configured policy, and the ledger holds that decision and the earlier ones.
  The request identifier has to be accepted and the action to normalise, the requested time to lie in
  the years 0 to 9999, and the texts that SQLite measures to contain no NUL. The Osprey adapter decides
  whatever the coordinator answers; the embedded policy decides unless a \<^verbatim>\<open>SECRET\<close> payload has evidence
  that shares an identifier.
\<close>

theorem new_request_is_decided:
  assumes "configurePolicyEvaluator Getenv NewClient = Inr evaluator"
    and "\<forall>address client. NewClient address = Inr (Some client) \<longrightarrow> client = process_rpc"
    and "\<forall>name. CHR 0x00 \<notin> set (Getenv name)"
    and "sound_request authenticate request" "admit authenticate request = Inr (runtime, decoded, command)"
    and "normalizeDecisionRequestID (command_RequestID command) = Inr qid"
    and "Normalize runtime (command_ProposedAction command) = Inr a"
    and "CHR 0x00 \<notin> set (authenticated_runtimeID runtime)" "CHR 0x00 \<notin> set qid"
    and "evaluator = EmbeddedEvaluator \<longrightarrow> embedded_able a" "ready w (authenticated_runtimeID runtime) qid"
  shows "\<exists>ev w1 rec w'. policy_Evaluate evaluator a w = (Inr ev, w1) \<and> Compose ev = Inr (record_Decision rec) \<and>
    evaluateAction (service_handler (process_ports evaluator) authenticate) request w =
      (writeJSON no_store 200 (decision_response_json (toDecisionResponse (request_RequestID decoded) rec)), w') \<and>
    ledger_of (db_committed (p_db w')) =
      (ledger_of (db_committed (p_db w)))((authenticated_runtimeID runtime, qid) \<mapsto> rec) \<and> at_rest (p_db w')"
proof -
  note wf = sound_request_wf [OF assms(4,5)]
  obtain ev w1 rec w' where run: "policy_Evaluate evaluator a w = (Inr ev, w1)"
      "Evaluate (Some (process_ports evaluator)) runtime command w = (Inr rec, w')"
      "Compose ev = Inr (record_Decision rec)" "at_rest (p_db w')"
      "ledger_of (db_committed (p_db w')) =
        (ledger_of (db_committed (p_db w)))((authenticated_runtimeID runtime, qid) \<mapsto> rec)"
    using deciding_evaluator.new_request_evaluated [OF configured_decides [OF assms(1-3)] wf assms(7,6,8-11)] by blast
  have "Validate (toDecisionResponse (request_RequestID decoded) rec) = Inr ()"
    by (rule Validate_wf [OF wf_Compose [OF run(3)]])
  then have "evaluateAction (service_handler (process_ports evaluator) authenticate) request w =
      (writeJSON no_store 200 (decision_response_json (toDecisionResponse (request_RequestID decoded) rec)), w')"
    using run(2) assms(5) by (simp add: evaluateAction_eq service_handler_def decision_answer_def)
  with run show ?thesis by blast
qed

definition sc_ready :: process where
  "sc_ready = sc_start\<lparr>p_random := [Some (replicate 16 0), Some (replicate 16 1)]\<rparr>"

lemma sc_ready: "ready sc_ready ''runtime-1'' ''request-1''"
  using sc_at_rest(1) sc_time_facts
  by (simp add: ready_def sc_ready_def sc_start_def fresh_in_def)
    (simp add: sc_db_def no_rows_def store_ok_def unique_keys_def Ledger.complete_def list_all_iff)

theorem new_request_is_decided_witness:
  "\<exists>rec w'. evaluateAction sc_handler sc_http_request sc_ready =
      (writeJSON no_store 200 (decision_response_json (toDecisionResponse ''request-1'' rec)), w') \<and>
    ledger_of (db_committed (p_db w')) (''runtime-1'', ''request-1'') = Some rec"
proof -
  have "normalizeDecisionRequestID (command_RequestID sc_command) = Inr ''request-1''"
    by (simp add: normalizeDecisionRequestID_def sc_command_def wf_identifier_TrimSpace)
  moreover have "Normalize sc_runtime (command_ProposedAction sc_command) = Inr sc_action"
    using sc_normalize by (simp del: Normalize_Inr add: sc_command_def)
  moreover have "embedded_able sc_action" by (simp add: embedded_able_def sc_action_def secret_payload_def)
  moreover have "ready sc_ready (authenticated_runtimeID sc_runtime) ''request-1''"
    using sc_ready by (simp add: sc_runtime_def)
  moreover have env: "\<forall>name. CHR 0x00 \<notin> set (sc_env name)" by (simp add: sc_env_def)
  ultimately show ?thesis
    using new_request_is_decided [OF sc_configuration(2) _ env sc_sound sc_admitted, of "''request-1''" sc_action sc_ready]
    by (auto simp: sc_runtime_def sc_decoded_def)
qed

text \<open>
  C30. Only an admitted \<^verbatim>\<open>POST\<close> to the decision path has an effect. Every other method or path is answered
  with the health report, 404, 405 or a redirect to the clean path and changes nothing; a request to
  the decision path that is not admitted, for want of a valid credential, a well-formed body or a
  known action, is answered with 401, 400 or 422 and changes nothing either.
\<close>

theorem unadmitted_request_changes_nothing:
  assumes "NewHandler (Some authenticate) (Some evaluator) = Inr routes"
  shows "(\<not> decision_request m path \<longrightarrow>
      snd (ServeHTTP redirect routes m path request w) = w \<and>
      (resp_status (fst (ServeHTTP redirect routes m path request w)) \<in> {200, 404, 405} \<or>
       cleanPath path \<noteq> path \<and> fst (ServeHTTP redirect routes m path request w) = redirect (cleanPath path))) \<and>
    (decision_request m path \<and> admit authenticate request = Inl response \<longrightarrow>
      ServeHTTP redirect routes m path request w = (response, w) \<and> resp_status response \<in> {400, 401, 422})"
proof (intro conjI impI)
  assume other: "\<not> decision_request m path"
  note cases = ServeHTTP_cases [OF assms other, of redirect request w]
  show "snd (ServeHTTP redirect routes m path request w) = w" by (rule cases) simp_all
  show "resp_status (fst (ServeHTTP redirect routes m path request w)) \<in> {200, 404, 405} \<or>
     cleanPath path \<noteq> path \<and> fst (ServeHTTP redirect routes m path request w) = redirect (cleanPath path)"
    by (rule cases) (simp_all add: http_Error_def health_def)
next
  assume "decision_request m path \<and> admit authenticate request = Inl response"
  then have decision: "decision_request m path" and admit: "admit authenticate request = Inl response" by blast+
  show "ServeHTTP redirect routes m path request w = (response, w)"
    unfolding ServeHTTP_decision [OF assms decision] by (simp add: evaluateAction_eq admit)
  show "resp_status response \<in> {400, 401, 422}" by (rule admit_status [OF admit])
qed

theorem unadmitted_request_changes_nothing_witness:
  "\<exists>routes response. NewHandler (Some (runtimeAuthenticator sc_handler)) (Some (decisionEvaluator sc_handler)) = Inr routes \<and>
     ServeHTTP (\<lambda>_. health) routes ''POST'' ''/v1/action-decisions'' \<lparr>req_Authorization = [], req_Body = []\<rparr> sc_start = (response, sc_start) \<and>
     resp_status response \<in> {400, 401, 422} \<and>
     snd (ServeHTTP (\<lambda>_. health) routes ''DELETE'' ''/v1/action-decisions'' \<lparr>req_Authorization = [], req_Body = []\<rparr> sc_start) = sc_start"
proof (intro exI conjI)
  let ?routes = "[(''GET /healthz'', \<lambda>_ w. (health, w)), (''POST /v1/action-decisions'', evaluateAction
    \<lparr>runtimeAuthenticator = runtimeAuthenticator sc_handler, decisionEvaluator = decisionEvaluator sc_handler\<rparr>)]"
  show routes: "NewHandler (Some (runtimeAuthenticator sc_handler)) (Some (decisionEvaluator sc_handler)) = Inr ?routes"
    by (simp add: NewHandler_def)
  note unchanged = unadmitted_request_changes_nothing [OF routes, of _ "''/v1/action-decisions''" "\<lambda>_. health"
      "\<lparr>req_Authorization = [], req_Body = []\<rparr>" sc_start "writeError [] 401 ErrorAuthentication ''Runtime authentication is required.''"]
  have "strings_Fields [] = []" by (simp add: strings_Fields_def runes_ascii)
  then have "admit (runtimeAuthenticator sc_handler) \<lparr>req_Authorization = [], req_Body = []\<rparr> =
      Inl (writeError [] 401 ErrorAuthentication ''Runtime authentication is required.'')"
    by (simp add: admit_def bearerCredential_def)
  then have refused: "ServeHTTP (\<lambda>_. health) ?routes ''POST'' ''/v1/action-decisions'' \<lparr>req_Authorization = [], req_Body = []\<rparr> sc_start =
      (writeError [] 401 ErrorAuthentication ''Runtime authentication is required.'', sc_start) \<and>
      resp_status (writeError [] 401 ErrorAuthentication ''Runtime authentication is required.'') \<in> {400, 401, 422}"
    by (rule unchanged [THEN conjunct2, THEN mp, OF conjI [OF decision_path]])
  show "ServeHTTP (\<lambda>_. health) ?routes ''POST'' ''/v1/action-decisions'' \<lparr>req_Authorization = [], req_Body = []\<rparr> sc_start =
      (writeError [] 401 ErrorAuthentication ''Runtime authentication is required.'', sc_start)"
    by (rule conjunct1 [OF refused])
  show "resp_status (writeError [] 401 ErrorAuthentication ''Runtime authentication is required.'') \<in> {400, 401, 422}"
    by (rule conjunct2 [OF refused])
  have "\<not> decision_request ''DELETE'' ''/v1/action-decisions''" by (simp add: decision_request_def)
  then show "snd (ServeHTTP (\<lambda>_. health) ?routes ''DELETE'' ''/v1/action-decisions'' \<lparr>req_Authorization = [], req_Body = []\<rparr> sc_start) = sc_start"
    by (rule unchanged [THEN conjunct1, THEN mp, THEN conjunct1])
qed

section \<open>The decision service\<close>

text \<open>
  C10. Whatever the ports do, a record the service returns is authoritative for the action that was
  requested: it carries the digest of the normalised action, a known decision, an identifier, a policy
  version and a time.
\<close>

theorem service_success_is_authoritative:
  assumes "Evaluate service runtime command w = (Inr rec, w')"
  shows "\<exists>a. Normalize runtime (command_ProposedAction command) = Inr a \<and> wf_action a \<and>
    ComputeActionDigest a = Inr (record_ActionDigest rec) \<and> DecisionType_Valid (decision_typ (record_Decision rec)) \<and>
    TrimSpace (record_DecisionID rec) \<noteq> [] \<and> TrimSpace (record_PolicyVersion rec) \<noteq> [] \<and>
    \<not> Time_IsZero (record_EvaluatedAt rec)"
proof (rule Evaluate_Inr [OF assms])
  fix ports a d
  assume "Normalize runtime (command_ProposedAction command) = Inr a" "ComputeActionDigest a = Inr d"
    "validateAuthoritativeDecision rec d = Inr ()"
  then show ?thesis using normalizeAction_wf(1) by (auto simp: validateAuthoritativeDecision_Inr_iff)
qed

theorem service_success_is_authoritative_witness:
  "\<exists>a. Normalize sc_runtime (command_ProposedAction sc_command) = Inr a \<and> ComputeActionDigest a = Inr (record_ActionDigest sc_record)"
  using service_success_is_authoritative [OF sc_first] by blast

text \<open>
  C8. A request that is already stored is answered from the ledger alone: with the stored record when
  the action is the same, with \<^verbatim>\<open>ErrRequestIDConflict\<close> (and so status 409) when it differs. No other port
  is used.
\<close>

theorem stored_request_is_replayed:
  assumes "normalizeDecisionRequestID (command_RequestID command) = Inr qid"
    and "Normalize runtime (command_ProposedAction command) = Inr a" "ComputeActionDigest a = Inr d"
    and "port_Get ports (authenticated_runtimeID runtime) qid w = (Inr (Some s), w1)"
    and "stored_RuntimeID s = authenticated_runtimeID runtime" "stored_RequestID s = qid"
    and "validateAuthoritativeDecision (stored_Decision s) (record_ActionDigest (stored_Decision s)) = Inr ()"
  shows "Evaluate (Some ports) runtime command w =
      (if record_ActionDigest (stored_Decision s) = d then Inr (stored_Decision s)
       else Inl [Application ErrRequestIDConflict], w1) \<and>
    resp_status (writeApplicationError q [Application ErrRequestIDConflict]) = 409"
  using assms
  by (auto simp del: Normalize_Inr simp: Evaluate_def resolveStoredEvaluation_def application_error_status errors_Is_def)

theorem stored_request_is_replayed_witness:
  "Evaluate (Some (process_ports EmbeddedEvaluator)) sc_runtime sc_command sc_done = (Inr sc_record, sc_done)"
proof -
  have digest: "record_ActionDigest sc_record = sc_digest"
    by (simp add: sc_record_def decisionRecordFromCommit_def sc_commit_def)
  have "port_Get (process_ports EmbeddedEvaluator) (authenticated_runtimeID sc_runtime) ''request-1'' sc_done =
      (Inr (Some sc_stored_evaluation), sc_done)"
    using sc_reads(1) by (simp add: process_ports_def ledger_Get_def on_db_def sc_done_def sc_runtime_def)
  note replay = stored_request_is_replayed [OF _ _ sc_digest this, of sc_command]
  have "normalizeDecisionRequestID (command_RequestID sc_command) = Inr ''request-1''"
    by (simp add: normalizeDecisionRequestID_def sc_command_def wf_identifier_TrimSpace)
  moreover have "Normalize sc_runtime (command_ProposedAction sc_command) = Inr sc_action"
    using sc_normalize by (simp del: Normalize_Inr add: sc_command_def)
  ultimately show ?thesis
    using replay sc_validated digest by (simp del: Normalize_Inr add: sc_stored_evaluation_def sc_runtime_def)
qed



text \<open>
  C9. A runtime cannot act in the name of another: a request that claims a different runtime identity
  is refused with \<^verbatim>\<open>ErrRuntimeIdentityConflict\<close> (and so status 403) before any port is used.
\<close>

theorem runtime_identity_is_enforced:
  assumes "normalizeDecisionRequestID (command_RequestID command) = Inr qid" "authenticated_runtimeID runtime \<noteq> []"
    and "TrimSpace (runtimeID (input_Actor (command_ProposedAction command))) \<noteq> []"
    and "TrimSpace (runtimeID (input_Actor (command_ProposedAction command))) \<noteq> authenticated_runtimeID runtime"
  shows "\<exists>e. Evaluate (Some ports) runtime command w = (Inl e, w) \<and>
    errors_Is e (Application ErrRuntimeIdentityConflict) \<and> resp_status (writeApplicationError q e) = 403"
  using assms runtime_identity_conflict [OF assms(2-4)]
  by (simp add: Evaluate_def application_error_status errors_Is_def)

theorem runtime_identity_is_enforced_witness:
  "\<exists>e. Evaluate (Some (process_ports EmbeddedEvaluator)) \<lparr>authenticated_runtimeID = ''runtime-2''\<rparr> sc_command sc_start =
      (Inl e, sc_start) \<and> errors_Is e (Application ErrRuntimeIdentityConflict) \<and>
    resp_status (writeApplicationError ''request-1'' e) = 403"
proof (rule runtime_identity_is_enforced)
  show "normalizeDecisionRequestID (command_RequestID sc_command) = Inr ''request-1''"
    by (simp add: normalizeDecisionRequestID_def sc_command_def wf_identifier_TrimSpace)
qed (simp_all add: sc_command_def action_input_def sc_action_def wf_identifier_TrimSpace)

text \<open>
  C37. Failures are reported as what they are, whatever the ports do. An unusable request identifier or
  action is reported as invalid input (or is a Go panic) before any port is used. For every other
  request the service fails exactly when one of its ports does, by the rules of \<open>port_failure\<close>, with
  the sentinel of that port and in the world the port left: a lookup or commit that fails or answers
  with something else than this request's valid record is a ledger failure, unless it is a conflict; a
  failing or unusable evaluation makes the policy unavailable; a failing or blank identifier is a
  failure of the generator; the zero time is a failure of the clock. Nothing is called after the
  failing port, so only a failing commit can have stored something.
\<close>

theorem failures_are_reported:
  "case (normalizeDecisionRequestID (command_RequestID command), Normalize runtime (command_ProposedAction command)) of
     (Inr qid, Inr a) \<Rightarrow>
       \<exists>d. ComputeActionDigest a = Inr d \<and>
         (\<forall>kind w'. port_failure ports (authenticated_runtimeID runtime) qid a d w kind w' \<longrightarrow>
            (\<exists>e. Evaluate (Some ports) runtime command w = (Inl e, w') \<and> errors_Is e (Application kind))) \<and>
         (\<forall>e w'. Evaluate (Some ports) runtime command w = (Inl e, w') \<longrightarrow>
            (\<exists>kind. port_failure ports (authenticated_runtimeID runtime) qid a d w kind w' \<and> errors_Is e (Application kind)))
   | _ \<Rightarrow> \<exists>e. Evaluate (Some ports) runtime command w = (Inl e, w) \<and>
       (errors_Is e (Application ErrInvalidInput) \<or> errors_Is e RuntimePanic)"
proof (cases "\<exists>qid a. normalizeDecisionRequestID (command_RequestID command) = Inr qid \<and>
    Normalize runtime (command_ProposedAction command) = Inr a")
  case True
  then obtain qid a where input: "normalizeDecisionRequestID (command_RequestID command) = Inr qid"
      "Normalize runtime (command_ProposedAction command) = Inr a" by blast
  have "wf_action a" using normalizeAction_wf(1) input(2) by simp
  then obtain d where d: "ComputeActionDigest a = Inr d" using ComputeActionDigest_wf by blast
  note eval = Evaluate_serve [OF input d, of ports w]
  show ?thesis
    unfolding input prod.case sum.case eval
    by (intro exI [of _ d] conjI allI impI d failure_reported fails_reported)
next
  case False
  from rejected_input [OF False, of ports w] False show ?thesis
    by (auto simp del: Normalize_Inr split: sum.split)
qed

text \<open>The system clock of the scenario has stopped.\<close>

definition sc_no_clock :: process where
  "sc_no_clock = sc_start\<lparr>p_clock := []\<rparr>"

lemma sc_clock_fails:
  "port_failure (process_ports EmbeddedEvaluator) ''runtime-1'' ''request-1'' sc_action sc_digest sc_no_clock ErrClockFailure
     (sc_no_clock\<lparr>p_random := []\<rparr>)"
proof (rule clock_fails)
  let ?ports = "process_ports EmbeddedEvaluator"
  let ?ev = "\<lparr>DenyReasonCodes = [], Effects = [], MatchedRuleIDs = [], PolicyVersion = embedded_Version\<rparr>"
  show "new_request ?ports ''runtime-1'' ''request-1'' sc_no_clock sc_no_clock"
    using sc_reads(2) by (simp add: new_request_def process_ports_def ledger_Get_def on_db_def sc_no_clock_def sc_start_def errors_Is_def)
  show "port_Evaluate ?ports sc_action sc_no_clock = (Inr ?ev, sc_no_clock)" using sc_evaluation by (simp add: process_ports_def)
  show "decisive ?ev NewAllowDecision"
    by (simp add: decisive_def validatePolicyEvaluation_def Compose_def embedded_Version_def wf_identifier_TrimSpace)
  have "process_NewID IDDecision sc_no_clock = (Inr sc_decisionID, sc_no_clock\<lparr>p_random := []\<rparr>)"
    by (simp add: process_NewID_def sc_no_clock_def sc_start_def randomIDGenerator_NewID_def sc_decisionID_def)
  then show "draw_ids ?ports (id_kinds ?ev) sc_no_clock = (Some [sc_decisionID], sc_no_clock\<lparr>p_random := []\<rparr>)"
    using sc_decisionID_facts(2,3) by (simp add: id_kinds_def process_ports_def)
  show "port_Now ?ports (sc_no_clock\<lparr>p_random := []\<rparr>) = (zero_time, sc_no_clock\<lparr>p_random := []\<rparr>)"
    by (simp add: process_ports_def systemClock_Now_def sc_no_clock_def)
  show "Time_IsZero (Time_UTC zero_time)" by (simp add: Time_IsZero_def zero_time_def Time_UTC_def)
qed

theorem failures_are_reported_witness:
  "\<exists>e. Evaluate (Some (process_ports EmbeddedEvaluator)) sc_runtime sc_command sc_no_clock =
     (Inl e, sc_no_clock\<lparr>p_random := []\<rparr>) \<and> errors_Is e (Application ErrClockFailure)"
proof -
  have "normalizeDecisionRequestID (command_RequestID sc_command) = Inr ''request-1''"
    by (simp add: normalizeDecisionRequestID_def sc_command_def wf_identifier_TrimSpace)
  moreover have "Normalize sc_runtime (command_ProposedAction sc_command) = Inr sc_action"
    using sc_normalize by (simp del: Normalize_Inr add: sc_command_def)
  ultimately show ?thesis
    using failures_are_reported [where command = sc_command and runtime = sc_runtime and
        ports = "process_ports EmbeddedEvaluator" and w = sc_no_clock] sc_clock_fails sc_digest
    by (auto simp del: Normalize_Inr simp: sc_runtime_def)
qed

end
